(* ===== verification/RhPrelude.thy ===== *)
theory RhPrelude
  imports "HOL-Library.Word"
begin

text \<open>
  The vocabulary every other theory uses: machine words, the ways a C access can go wrong,
  sequencing of fallible steps, and the C library routines the sources call on byte arrays
  (\<^verbatim>\<open>memcpy\<close>, \<^verbatim>\<open>strlen\<close>, \<^verbatim>\<open>strcmp\<close>, \<^verbatim>\<open>strcpy\<close>).

  A C object of \<open>n\<close> bytes is a list of \<open>n\<close> bytes and a pointer into it is an offset; an
  access outside the list is the fault \<open>OutOfBounds\<close>, never an arbitrary value.  A
  \<^verbatim>\<open>char *\<close> is the bytes from the pointer to the end of its object, so a string without
  terminator is visible as such.  The target is little-endian with 8, 16 and 32 bit
  \<^verbatim>\<open>char\<close>, \<^verbatim>\<open>short\<close> and \<^verbatim>\<open>int\<close>, as on the ARM boards the makefiles name.
\<close>

type_synonym u8 = "8 word"
type_synonym u16 = "16 word"
type_synonym u32 = "32 word"

named_theorems res_simps \<open>evaluation of fallible steps\<close>
named_theorems le_simps \<open>little-endian views of words\<close>

section \<open>Faults and sequencing\<close>

datatype fault =
    OutOfBounds     \<comment> \<open>a read or write outside the object\<close>
  | NullPtr         \<comment> \<open>a null pointer is dereferenced\<close>
  | NoTerminator    \<comment> \<open>a string function runs off the end of its array\<close>
  | BadUnlock       \<comment> \<open>a mutex is released that is not held\<close>
  | IntOverflow     \<comment> \<open>a signed \<^verbatim>\<open>int\<close> leaves its range\<close>
  | Deadlock        \<comment> \<open>a thread waits for a mutex that is never released\<close>

type_synonym 'a res = "fault + 'a"

definition bindR :: "'a res \<Rightarrow> ('a \<Rightarrow> 'b res) \<Rightarrow> 'b res" where
  "bindR m f = (case m of Inl e \<Rightarrow> Inl e | Inr x \<Rightarrow> f x)"

lemma bindR_Inl [simp, res_simps]: "bindR (Inl e) f = Inl e"
  by (simp add: bindR_def)

lemma bindR_Inr [simp, res_simps]: "bindR (Inr x) f = f x"
  by (simp add: bindR_def)

lemma bindR_eq_Inr [res_simps]: "bindR m f = Inr y \<longleftrightarrow> (\<exists>x. m = Inr x \<and> f x = Inr y)"
  by (cases m) simp_all

lemma bindR_eq_Inl:
  "bindR m f = Inl e \<longleftrightarrow> m = Inl e \<or> (\<exists>x. m = Inr x \<and> f x = Inl e)"
  by (cases m) simp_all

lemma bindR_InrE:
  assumes "bindR m f = Inr y"
  obtains x where "m = Inr x" and "f x = Inr y"
  using assms by (auto simp: bindR_eq_Inr)

lemma bindR_cong [fundef_cong]:
  "m = m' \<Longrightarrow> (\<And>x. m' = Inr x \<Longrightarrow> f x = g x) \<Longrightarrow> bindR m f = bindR m' g"
  by (cases m') simp_all

lemma bindR_assoc: "bindR (bindR m f) g = bindR m (\<lambda>x. bindR (f x) g)"
  by (cases m) simp_all

section \<open>Reading and writing arrays\<close>

definition rd :: "'a list \<Rightarrow> nat \<Rightarrow> 'a res" where
  "rd xs i = (if i < length xs then Inr (xs ! i) else Inl OutOfBounds)"

definition wr :: "'a list \<Rightarrow> nat \<Rightarrow> 'a \<Rightarrow> 'a list res" where
  "wr xs i v = (if i < length xs then Inr (xs[i := v]) else Inl OutOfBounds)"

lemma rd_Inr [simp, res_simps]: "i < length xs \<Longrightarrow> rd xs i = Inr (xs ! i)"
  by (simp add: rd_def)

lemma wr_Inr [simp, res_simps]: "i < length xs \<Longrightarrow> wr xs i v = Inr (xs[i := v])"
  by (simp add: wr_def)

lemma rd_eq_Inr [res_simps]: "rd xs i = Inr v \<longleftrightarrow> i < length xs \<and> v = xs ! i"
  by (auto simp: rd_def)

lemma wr_eq_Inr [res_simps]: "wr xs i v = Inr ys \<longleftrightarrow> i < length xs \<and> ys = xs[i := v]"
  by (auto simp: wr_def)

lemma rd_out [simp]: "length xs \<le> i \<Longrightarrow> rd xs i = Inl OutOfBounds"
  by (simp add: rd_def)

lemma wr_out [simp]: "length xs \<le> i \<Longrightarrow> wr xs i v = Inl OutOfBounds"
  by (simp add: wr_def)

text \<open>Indexing with a C \<^verbatim>\<open>int\<close>, which may be negative.\<close>

definition rdi :: "'a list \<Rightarrow> int \<Rightarrow> 'a res" where
  "rdi xs i = (if 0 \<le> i then rd xs (nat i) else Inl OutOfBounds)"

definition wri :: "'a list \<Rightarrow> int \<Rightarrow> 'a \<Rightarrow> 'a list res" where
  "wri xs i v = (if 0 \<le> i then wr xs (nat i) v else Inl OutOfBounds)"

lemma rdi_eq_Inr [res_simps]:
  "rdi xs i = Inr v \<longleftrightarrow> 0 \<le> i \<and> i < int (length xs) \<and> v = xs ! nat i"
  by (auto simp: rdi_def rd_eq_Inr)

lemma rdi_int [simp]: "rdi xs (int n) = rd xs n"
  by (simp add: rdi_def)

lemma wri_int [simp]: "wri xs (int n) v = wr xs n v"
  by (simp add: wri_def)

text \<open>Updating an element in place by a fallible function.\<close>

definition upd :: "'a list \<Rightarrow> nat \<Rightarrow> ('a \<Rightarrow> 'a res) \<Rightarrow> 'a list res" where
  "upd xs i f = bindR (rd xs i) (\<lambda>x. bindR (f x) (\<lambda>y. wr xs i y))"

lemma upd_eq_Inr [res_simps]:
  "upd xs i f = Inr ys \<longleftrightarrow> i < length xs \<and> (\<exists>y. f (xs ! i) = Inr y \<and> ys = xs[i := y])"
  by (auto simp: upd_def bindR_eq_Inr rd_eq_Inr wr_eq_Inr)

lemma upd_length: "upd xs i f = Inr ys \<Longrightarrow> length ys = length xs"
  by (auto simp: upd_eq_Inr)

text \<open>Signed addition, undefined outside the 32 bit range.\<close>

definition addi :: "int \<Rightarrow> int \<Rightarrow> int res" where
  "addi a b = (if - 2147483648 \<le> a + b \<and> a + b \<le> 2147483647 then Inr (a + b) else Inl IntOverflow)"

lemma addi_eq_Inr [res_simps]:
  "addi a b = Inr c \<longleftrightarrow> c = a + b \<and> - 2147483648 \<le> c \<and> c \<le> 2147483647"
  by (auto simp: addi_def)

section \<open>Overwriting a window\<close>

definition patch :: "'a list \<Rightarrow> nat \<Rightarrow> 'a list \<Rightarrow> 'a list" where
  "patch dst off bs = take off dst @ bs @ drop (off + length bs) dst"

lemma length_patch [simp]:
  "off + length bs \<le> length dst \<Longrightarrow> length (patch dst off bs) = length dst"
  by (simp add: patch_def)

lemma patch_Nil [simp]: "off \<le> length dst \<Longrightarrow> patch dst off [] = dst"
  by (simp add: patch_def)

lemma window_patch [simp]:
  "off + length bs \<le> length dst \<Longrightarrow> take (length bs) (drop off (patch dst off bs)) = bs"
  by (simp add: patch_def)

lemma drop_patch:
  "off + length bs \<le> length dst \<Longrightarrow>
    drop off (patch dst off bs) = bs @ drop (off + length bs) dst"
  by (simp add: patch_def)

lemma take_patch_before:
  "n \<le> off \<Longrightarrow> off + length bs \<le> length dst \<Longrightarrow>
    take n (patch dst off bs) = take n dst"
  by (simp add: patch_def min_def)

lemma window_patch_other:
  assumes "off + length bs \<le> length dst" and "i + n \<le> off \<or> off + length bs \<le> i"
  shows "take n (drop i (patch dst off bs)) = take n (drop i dst)"
proof (cases "i + n \<le> off")
  case True
  then have "take n (drop i (patch dst off bs)) = drop i (take (i + n) (patch dst off bs))"
    by (simp add: take_drop add.commute)
  also have "\<dots> = drop i (take (i + n) dst)"
    using True assms(1) by (simp add: take_patch_before)
  finally show ?thesis by (simp add: take_drop add.commute)
next
  case False
  with assms have "off + length bs \<le> i" by simp
  with assms(1) show ?thesis by (simp add: patch_def)
qed

lemma nth_patch:
  "off + length bs \<le> length dst \<Longrightarrow> i < length dst \<Longrightarrow>
    patch dst off bs ! i = (if i < off \<or> off + length bs \<le> i then dst ! i else bs ! (i - off))"
  by (auto simp: patch_def nth_append min_def)

lemma patch_append:
  assumes "off + length xs + length ys \<le> length dst"
  shows "patch (patch dst off xs) (off + length xs) ys = patch dst off (xs @ ys)"
  using assms by (simp add: patch_def ac_simps)

lemma patch_single: "i < length dst \<Longrightarrow> patch dst i [v] = dst[i := v]"
  by (simp add: patch_def upd_conv_take_nth_drop)

lemma patch_snoc:
  "off + length bs < length dst \<Longrightarrow>
    (patch dst off bs)[off + length bs := v] = patch dst off (bs @ [v])"
  using patch_append [of off bs "[v]" dst]
  by (simp add: patch_single)

definition memcpy :: "u8 list \<Rightarrow> nat \<Rightarrow> u8 list \<Rightarrow> nat \<Rightarrow> nat \<Rightarrow> u8 list res" where
  "memcpy dst d src s n =
     (if d + n \<le> length dst \<and> s + n \<le> length src
      then Inr (patch dst d (take n (drop s src))) else Inl OutOfBounds)"

lemma memcpy_Inr [simp, res_simps]:
  "d + n \<le> length dst \<Longrightarrow> s + n \<le> length src \<Longrightarrow>
    memcpy dst d src s n = Inr (patch dst d (take n (drop s src)))"
  by (simp add: memcpy_def)

lemma memcpy_eq_Inr [res_simps]:
  "memcpy dst d src s n = Inr ys \<longleftrightarrow>
    d + n \<le> length dst \<and> s + n \<le> length src \<and> ys = patch dst d (take n (drop s src))"
  by (auto simp: memcpy_def)

lemma memcpy_length: "memcpy dst d src s n = Inr ys \<Longrightarrow> length ys = length dst"
  by (auto simp: memcpy_eq_Inr)

section \<open>C strings\<close>

text \<open>A literal is its characters and the terminator.\<close>

definition cstr :: "string \<Rightarrow> u8 list" where
  "cstr s = map of_char s @ [0]"

fun strlen :: "u8 list \<Rightarrow> nat res" where
  "strlen [] = Inl NoTerminator"
| "strlen (c # cs) = (if c = 0 then Inr 0 else bindR (strlen cs) (\<lambda>n. Inr (Suc n)))"

fun strcmp :: "u8 list \<Rightarrow> u8 list \<Rightarrow> int res" where
  "strcmp (a # as) (b # bs) =
     (if a \<noteq> b then Inr (uint a - uint b) else if a = 0 then Inr 0 else strcmp as bs)"
| "strcmp _ _ = Inl NoTerminator"

definition strcpy :: "u8 list \<Rightarrow> nat \<Rightarrow> u8 list \<Rightarrow> u8 list res" where
  "strcpy dst d src = bindR (strlen src) (\<lambda>n. memcpy dst d src 0 (Suc n))"

text \<open>The content of a string: the bytes before the terminator.\<close>

definition ccont :: "u8 list \<Rightarrow> u8 list" where
  "ccont s = takeWhile (\<lambda>c. c \<noteq> 0) s"

definition terminated :: "u8 list \<Rightarrow> bool" where
  "terminated s \<longleftrightarrow> 0 \<in> set s"

lemma strlen_terminated: "terminated s \<Longrightarrow> strlen s = Inr (length (ccont s))"
  by (induction s) (auto simp: terminated_def ccont_def)

lemma strlen_unterminated: "\<not> terminated s \<Longrightarrow> strlen s = Inl NoTerminator"
  by (induction s) (auto simp: terminated_def)

lemma strlen_Inr_iff: "strlen s = Inr n \<longleftrightarrow> terminated s \<and> n = length (ccont s)"
  using strlen_terminated strlen_unterminated by (cases "terminated s") auto

lemma terminated_split: "terminated s \<Longrightarrow> \<exists>rest. s = ccont s @ 0 # rest"
  by (induction s) (auto simp: terminated_def ccont_def)

lemma zero_notin_ccont [simp]: "0 \<notin> set (ccont s)"
  using set_takeWhileD by (fastforce simp: ccont_def)

lemma ccont_append_zero: "0 \<notin> set xs \<Longrightarrow> ccont (xs @ 0 # ys) = xs"
  by (induction xs) (auto simp: ccont_def)

lemma terminated_append_zero [simp]: "terminated (xs @ 0 # ys)"
  by (simp add: terminated_def)

lemma strcmp_terminated:
  assumes "terminated a" and "terminated b"
  shows "\<exists>r. strcmp a b = Inr r \<and> (r = 0 \<longleftrightarrow> ccont a = ccont b)"
  using assms
proof (induction a b rule: strcmp.induct)
  case (1 a as b bs)
  have diff: "uint a - uint b = 0 \<longleftrightarrow> a = b"
    by (simp add: word_uint_eq_iff)
  show ?case
  proof (cases "a = b")
    case True
    with 1 show ?thesis by (auto simp: terminated_def ccont_def)
  next
    case False
    then have "strcmp (a # as) (b # bs) = Inr (uint a - uint b)" by simp
    moreover have "ccont (a # as) \<noteq> ccont (b # bs)"
      using False by (auto simp: ccont_def)
    ultimately show ?thesis using False diff by blast
  qed
qed (auto simp: terminated_def)

lemma strcmp_eq_0:
  "terminated a \<Longrightarrow> terminated b \<Longrightarrow> strcmp a b = Inr 0 \<longleftrightarrow> ccont a = ccont b"
  using strcmp_terminated by fastforce

lemma strcmp_refl: "terminated a \<Longrightarrow> strcmp a a = Inr 0"
  by (simp add: strcmp_eq_0)

lemma strcmp_0: "strcmp a b = Inr 0 \<Longrightarrow> terminated a \<and> ccont a = ccont b"
  by (induction a b rule: strcmp.induct) (auto simp: terminated_def ccont_def word_uint_eq_iff split: if_splits)

lemma strcmp_fault: "strcmp a b = Inl e \<Longrightarrow> e = NoTerminator \<and> \<not> (terminated a \<and> terminated b)"
proof
  show "strcmp a b = Inl e \<Longrightarrow> e = NoTerminator"
    by (induction a b rule: strcmp.induct) (auto split: if_splits)
  show "strcmp a b = Inl e \<Longrightarrow> \<not> (terminated a \<and> terminated b)"
    using strcmp_terminated [of a b] by auto
qed

lemma strcpy_length: "strcpy dst d src = Inr r \<Longrightarrow> length r = length dst"
  by (auto simp: strcpy_def bindR_eq_Inr memcpy_length)

lemma strcpy_terminated:
  assumes "strcpy dst 0 src = Inr r"
  shows "terminated r \<and> ccont r = ccont src \<and> terminated src"
proof -
  from assms obtain n where n: "strlen src = Inr n" and "memcpy dst 0 src 0 (Suc n) = Inr r"
    by (auto simp: strcpy_def bindR_eq_Inr)
  then have t: "terminated src" and len: "n = length (ccont src)"
    and r: "r = patch dst 0 (take (Suc n) src)"
    by (auto simp: strlen_Inr_iff memcpy_eq_Inr)
  from t obtain rest where "src = ccont src @ 0 # rest" using terminated_split by blast
  with len have "take (Suc n) src = ccont src @ [0]" by (metis append.assoc append_Cons
      append_Nil length_append_singleton append_eq_conv_conj)
  with r have "r = ccont src @ 0 # drop (length (ccont src @ [0 :: u8])) dst"
    by (simp only: patch_def) simp
  with t show ?thesis using ccont_append_zero zero_notin_ccont terminated_append_zero by metis
qed

lemma strcpy_fits:
  "terminated src \<Longrightarrow> length (ccont src) < length dst \<Longrightarrow> \<exists>r. strcpy dst 0 src = Inr r"
  using terminated_split [of src]
  by (auto simp: strcpy_def strlen_terminated memcpy_def bindR_def dest: arg_cong [where f = length])

section \<open>Little-endian views\<close>

definition le16 :: "u16 \<Rightarrow> u8 list" where
  "le16 w = [ucast w, ucast (drop_bit 8 w)]"

definition le32 :: "u32 \<Rightarrow> u8 list" where
  "le32 w = [ucast w, ucast (drop_bit 8 w), ucast (drop_bit 16 w), ucast (drop_bit 24 w)]"

definition u16_le :: "u8 list \<Rightarrow> u16" where
  "u16_le bs = or (ucast (bs ! 0)) (push_bit 8 (ucast (bs ! 1)))"

definition u32_le :: "u8 list \<Rightarrow> u32" where
  "u32_le bs = or (or (ucast (bs ! 0)) (push_bit 8 (ucast (bs ! 1))))
                  (or (push_bit 16 (ucast (bs ! 2))) (push_bit 24 (ucast (bs ! 3))))"

lemma length_le16 [simp, le_simps]: "length (le16 w) = 2"
  by (simp add: le16_def)

lemma length_le32 [simp, le_simps]: "length (le32 w) = 4"
  by (simp add: le32_def)

lemma u16_le_le16 [simp, le_simps]: "u16_le (le16 w) = w"
  by (rule bit_word_eqI) (auto simp: u16_le_def le16_def bit_simps)

lemma u32_le_le32 [simp, le_simps]: "u32_le (le32 w) = w"
proof (rule bit_word_eqI)
  fix n
  assume "n < LENGTH(32)"
  then have "n < 8 \<or> (8 \<le> n \<and> n < 16) \<or> (16 \<le> n \<and> n < 24) \<or> (24 \<le> n \<and> n < 32)"
    by auto
  then show "bit (u32_le (le32 w)) n \<longleftrightarrow> bit w n"
    by (elim disjE) (auto simp: u32_le_def le32_def bit_simps)
qed

lemma unat_of_nat32: "n < 2 ^ 32 \<Longrightarrow> unat (of_nat n :: u32) = n"
  by (simp add: unat_of_nat take_bit_nat_eq_self)

end
