(* ===== verification/ElCommon.thy ===== *)
theory ElCommon
  imports RhPrelude
begin

text \<open>
  The first half of \<^verbatim>\<open>code/elCommon.c\<close>: decimal and hexadecimal scanning of attribute values
  and the two byte copies.  The lemmas give each loop a closed form: \<^verbatim>\<open>str2dec\<close> is the signed
  reading of the digits' value modulo \<open>2 ^ 32\<close>, \<^verbatim>\<open>str2hex\<close> inverts the hexadecimal rendering of
  bytes, \<^verbatim>\<open>reversecpy\<close> is \<open>rev\<close>, and \<^verbatim>\<open>smallcpy\<close> is a bounds-checked overwrite of a window.
  The wire codec of the same file is in theory \<open>XdrCodec\<close>.
\<close>

section \<open>Scanning numbers\<close>

text \<open>
  The loop of \<^verbatim>\<open>str2dec\<close> runs over the \<open>nLen\<close> bytes before the terminator; \<open>data\<close> is an
  \<^verbatim>\<open>unsigned int\<close>, so it wraps.  A minus sign is accepted in first position only, and the
  first other character ends the scan.
\<close>

definition isdig :: "u8 \<Rightarrow> bool" where
  "isdig c \<longleftrightarrow> 48 \<le> c \<and> c \<le> 57"

fun str2dec_loop :: "u8 list \<Rightarrow> nat \<Rightarrow> u32 \<Rightarrow> bool \<Rightarrow> u32 \<times> bool" where
  "str2dec_loop [] i data prefix = (data, prefix)"
| "str2dec_loop (c # cs) i data prefix =
     (if \<not> isdig c
      then (if i = 0 \<and> c = 45 then str2dec_loop cs (Suc i) data True else (data, prefix))
      else str2dec_loop cs (Suc i) (data * 10 + (ucast c - 48)) prefix)"

text \<open>The value stored through \<open>pDst\<close>; storing an \<^verbatim>\<open>unsigned\<close> in an \<^verbatim>\<open>int\<close> reads it signed.\<close>

definition str2dec :: "u8 list \<Rightarrow> int res" where
  "str2dec pStr = bindR (strlen pStr) (\<lambda>nLen.
     let (data, prefix) = str2dec_loop (take nLen pStr) 0 0 False
     in Inr (if prefix then sint (data * (- 1)) else sint data))"

text \<open>
  \<^verbatim>\<open>str2hex\<close> pairs up hexadecimal digits and skips every other character.  The result is the
  destination buffer (written from offset \<open>d\<close>) and the number of bytes written.
\<close>

definition hexval :: "u8 \<Rightarrow> u8 option" where
  "hexval c =
     (if 48 \<le> c \<and> c \<le> 57 then Some (c - 48)
      else if 65 \<le> c \<and> c \<le> 70 then Some (c - 65 + 10)
      else if 97 \<le> c \<and> c \<le> 102 then Some (c - 97 + 10)
      else None)"

fun str2hex_loop ::
  "u8 list \<Rightarrow> u8 list \<Rightarrow> nat \<Rightarrow> int \<Rightarrow> u8 \<Rightarrow> bool \<Rightarrow> int \<Rightarrow> (u8 list \<times> int) res" where
  "str2hex_loop [] pBuff d nLen number bUpper curLen = Inl NoTerminator"
| "str2hex_loop (c # cs) pBuff d nLen number bUpper curLen =
     (if c \<noteq> 0 \<and> curLen < nLen then
        (case hexval c of
           None \<Rightarrow> str2hex_loop cs pBuff d nLen number bUpper curLen
         | Some uc \<Rightarrow>
             if bUpper then
               bindR (wr pBuff d (push_bit 4 number + uc)) (\<lambda>pBuff'.
                 str2hex_loop cs pBuff' (Suc d) nLen (push_bit 4 number + uc) False (curLen + 1))
             else str2hex_loop cs pBuff d nLen uc True curLen)
      else Inr (pBuff, curLen))"

definition str2hex :: "u8 list \<Rightarrow> u8 list \<Rightarrow> nat \<Rightarrow> int \<Rightarrow> (u8 list \<times> int) res" where
  "str2hex pStr pBuff d nLen = str2hex_loop pStr pBuff d nLen 0 False 0"

section \<open>Byte copies\<close>

text \<open>\<open>dest[len-1-i] = src[i]\<close> for \<open>i = 0, ..., len-1\<close>; \<open>n\<close> counts the iterations left.\<close>

fun reversecpy_loop :: "u8 list \<Rightarrow> u8 list \<Rightarrow> int \<Rightarrow> nat \<Rightarrow> nat \<Rightarrow> u8 list res" where
  "reversecpy_loop dest src j i 0 = Inr dest"
| "reversecpy_loop dest src j i (Suc n) =
     bindR (rd src i) (\<lambda>v. bindR (wri dest j v) (\<lambda>dest'.
       reversecpy_loop dest' src (j - 1) (Suc i) n))"

definition reversecpy :: "u8 list \<Rightarrow> u8 list \<Rightarrow> int \<Rightarrow> u8 list res" where
  "reversecpy dest src len = reversecpy_loop dest src (len - 1) 0 (nat len)"

text \<open>\<open>des[i] = src[i]\<close> upwards; both pointers may point into larger objects.\<close>

fun smallcpy_loop :: "u8 list \<Rightarrow> int \<Rightarrow> u8 list \<Rightarrow> int \<Rightarrow> nat \<Rightarrow> u8 list res" where
  "smallcpy_loop des d src s 0 = Inr des"
| "smallcpy_loop des d src s (Suc n) =
     bindR (rdi src s) (\<lambda>v. bindR (wri des d v) (\<lambda>des'.
       smallcpy_loop des' (d + 1) src (s + 1) n))"

definition smallcpy :: "u8 list \<Rightarrow> int \<Rightarrow> u8 list \<Rightarrow> int \<Rightarrow> int \<Rightarrow> u8 list res" where
  "smallcpy des d src s len = smallcpy_loop des d src s (nat len)"

section \<open>What the scanners compute\<close>

text \<open>The number a digit string denotes, with no bound.\<close>

definition dec_value :: "u8 list \<Rightarrow> nat" where
  "dec_value ds = foldl (\<lambda>a c. 10 * a + unat (c - 48)) 0 ds"

text \<open>The decimal text of a number, as the configuration files carry it.\<close>

fun dec_digits :: "nat \<Rightarrow> u8 list" where
  "dec_digits n =
     (if n < 10 then [48 + of_nat n] else dec_digits (n div 10) @ [48 + of_nat (n mod 10)])"

declare dec_digits.simps [simp del]

lemma unat_sub_48: "isdig c \<Longrightarrow> ((ucast c - 48) :: u32) = of_nat (unat (c - 48))"
proof -
  assume "isdig c"
  then have "48 \<le> unat c" and "unat c \<le> 57"
    by (auto simp: isdig_def word_le_nat_alt)
  then have "unat (c - 48) = unat c - 48"
    by (simp add: unat_sub word_le_nat_alt)
  with \<open>48 \<le> unat c\<close> show ?thesis
    by (simp add: of_nat_diff)
qed

lemma str2dec_loop_digits:
  assumes "0 < i"
  shows "str2dec_loop cs i (of_nat a) p =
           (of_nat (foldl (\<lambda>a c. 10 * a + unat (c - 48)) a (takeWhile isdig cs)), p)"
  using assms
proof (induction cs arbitrary: i a)
  case Nil
  then show ?case by simp
next
  case (Cons c cs)
  show ?case
  proof (cases "isdig c")
    case True
    have "(of_nat a * 10 + (ucast c - 48) :: u32) = of_nat (10 * a + unat (c - 48))"
      using True by (simp add: unat_sub_48)
    with True Cons.IH [of "Suc i" "10 * a + unat (c - 48)"] Cons.prems show ?thesis
      by (simp add: mult.commute)
  qed (use Cons.prems in simp)
qed

lemma str2dec_loop_start:
  "str2dec_loop cs 0 0 False =
     (case cs of
        [] \<Rightarrow> (0, False)
      | c # cs' \<Rightarrow> if c = 45 then (of_nat (dec_value (takeWhile isdig cs')), True)
                   else (of_nat (dec_value (takeWhile isdig cs)), False))"
proof (cases cs)
  case (Cons c cs')
  have minus: "\<not> isdig 45" by (simp add: isdig_def)
  show ?thesis
  proof (cases "isdig c")
    case True
    then have "c \<noteq> 45" using minus by auto
    moreover have "(0 :: u32) * 10 + (ucast c - 48) = of_nat (10 * 0 + unat (c - 48))"
      using True by (simp add: unat_sub_48)
    ultimately show ?thesis
      using True Cons str2dec_loop_digits [of 1 cs' "unat (c - 48)" False]
      by (simp add: dec_value_def)
  next
    case False
    then show ?thesis
      using Cons minus str2dec_loop_digits [of 1 cs' 0 True]
      by (simp add: dec_value_def)
  qed
qed simp

lemma take_strlen: "strlen s = Inr n \<Longrightarrow> take n s = ccont s"
  by (metis append_eq_conv_conj strlen_Inr_iff terminated_split)

lemma str2dec_closed:
  assumes "terminated s"
  shows "str2dec s = Inr (case ccont s of
           [] \<Rightarrow> 0
         | c # cs \<Rightarrow> if c = 45 then sint (- of_nat (dec_value (takeWhile isdig cs)) :: u32)
                     else sint (of_nat (dec_value (takeWhile isdig (ccont s))) :: u32))"
proof -
  obtain n where n: "strlen s = Inr n" and t: "take n s = ccont s"
    using assms strlen_terminated take_strlen by blast
  show ?thesis
    by (simp add: str2dec_def n t str2dec_loop_start split: list.split)
qed

lemma dec_value_snoc: "dec_value (ds @ [c]) = 10 * dec_value ds + unat (c - 48)"
  by (simp add: dec_value_def)

lemma digit_of_nat:
  assumes "k < 10"
  shows "isdig (48 + of_nat k)" and "unat ((48 + of_nat k :: u8) - 48) = k"
  using assms by (auto simp: isdig_def word_le_nat_alt unat_word_ariths unat_of_nat)

lemma dec_digits_isdig: "c \<in> set (dec_digits n) \<Longrightarrow> isdig c"
proof (induction n rule: dec_digits.induct)
  case (1 n)
  then show ?case
    by (subst (asm) (2) dec_digits.simps) (auto simp: digit_of_nat split: if_splits)
qed

lemma dec_value_digits: "dec_value (dec_digits n) = n"
proof (induction n rule: dec_digits.induct)
  case (1 n)
  then show ?case
    by (subst dec_digits.simps) (auto simp: dec_value_snoc dec_value_def unat_of_nat)
qed

lemma dec_digits_nonempty [simp]: "dec_digits n \<noteq> []"
  by (subst dec_digits.simps) simp

lemma isdig_not_0: "\<not> isdig 0"
  by (simp add: isdig_def)

lemma sint_of_nat32: "n < 2 ^ 31 \<Longrightarrow> sint (of_nat n :: u32) = int n"
  by (simp add: signed_of_nat signed_take_bit_int_eq_self)

lemma sint_minus_of_nat32:
  assumes "n \<le> 2 ^ 31"
  shows "sint (- of_nat n :: u32) = - int n"
proof -
  have "(- of_nat n :: u32) = of_int (- int n)" by simp
  then have "sint (- of_nat n :: u32) = signed_take_bit 31 (- int n)"
    by (simp only: signed_of_int) simp
  also have "\<dots> = - int n"
    using assms by (intro signed_take_bit_int_eq_self) auto
  finally show ?thesis .
qed

lemma takeWhile_isdig_digits:
  "takeWhile isdig (dec_digits n @ 0 # rest) = dec_digits n"
  by (simp add: takeWhile_append isdig_not_0 dec_digits_isdig)

lemma ccont_digits: "ccont (dec_digits n @ 0 # rest) = dec_digits n"
  by (rule ccont_append_zero) (auto dest: dec_digits_isdig simp: isdig_not_0)

lemma takeWhile_digits [simp]: "takeWhile isdig (dec_digits n) = dec_digits n"
  by (simp add: takeWhile_eq_all_conv dec_digits_isdig)

lemma str2dec_digits:
  assumes "n < 2 ^ 31"
  shows "str2dec (dec_digits n @ 0 # rest) = Inr (int n)"
proof -
  obtain c cs where cs: "dec_digits n = c # cs"
    using dec_digits_nonempty [of n] by (cases "dec_digits n") auto
  then have "isdig c" using dec_digits_isdig [of c n] by simp
  then have "c \<noteq> 45" by (auto simp: isdig_def)
  moreover have "str2dec (dec_digits n @ 0 # rest) = Inr (case dec_digits n of
      [] \<Rightarrow> 0
    | c # cs \<Rightarrow> if c = 45 then sint (- of_nat (dec_value (takeWhile isdig cs)) :: u32)
                else sint (of_nat (dec_value (takeWhile isdig (dec_digits n))) :: u32))"
    by (simp only: str2dec_closed [OF terminated_append_zero] ccont_digits)
  moreover have "takeWhile isdig (c # cs) = c # cs" and "dec_value (c # cs) = n"
    using takeWhile_digits [of n] dec_value_digits [of n] cs by simp_all
  ultimately show ?thesis
    using cs assms by (simp add: sint_of_nat32 del: takeWhile.simps)
qed

lemma str2dec_minus_digits:
  assumes "n \<le> 2 ^ 31"
  shows "str2dec (45 # dec_digits n @ 0 # rest) = Inr (- int n)"
proof -
  have t: "terminated (45 # dec_digits n @ 0 # rest)" by (simp add: terminated_def)
  have "ccont (45 # dec_digits n @ 0 # rest) = 45 # dec_digits n"
    using ccont_digits [of n rest] by (simp add: ccont_def)
  with t assms show ?thesis
    by (simp add: str2dec_closed dec_value_digits sint_minus_of_nat32)
qed

section \<open>Hexadecimal text\<close>

definition hex_digit :: "u8 \<Rightarrow> u8" where
  "hex_digit v = (if v < 10 then 48 + v else 55 + v)"

definition hex_text :: "u8 list \<Rightarrow> u8 list" where
  "hex_text bs = concat (map (\<lambda>b. [hex_digit (drop_bit 4 b), hex_digit (take_bit 4 b)]) bs)"

lemma unat_u8_less: "unat (b :: u8) < 256"
  using unsigned_less [of b, where ?'a = nat] by simp

lemma hexval_hex_digit: "v < 16 \<Longrightarrow> hexval (hex_digit v) = Some v"
proof -
  assume "v < 16"
  then have v: "unat v < 16" by (simp add: word_less_nat_alt)
  show ?thesis
  proof (cases "v < 10")
    case True
    then have "unat (48 + v) = 48 + unat v"
      by (simp add: word_less_nat_alt unat_word_ariths)
    with True show ?thesis
      by (simp add: hexval_def hex_digit_def word_le_nat_alt word_less_nat_alt)
  next
    case False
    with v have "unat (55 + v) = 55 + unat v"
      by (simp add: word_less_nat_alt unat_word_ariths)
    with False v show ?thesis
      by (simp add: hexval_def hex_digit_def word_le_nat_alt word_less_nat_alt)
  qed
qed

lemma hexval_0 [simp]: "hexval 0 = None"
  by (simp add: hexval_def)

lemma hex_digit_nonzero: "v < 16 \<Longrightarrow> hex_digit v \<noteq> 0"
  using hexval_hex_digit [of v] by auto

lemma nibble_bounds: "drop_bit 4 (b :: u8) < 16" "take_bit 4 (b :: u8) < 16"
proof -
  show "drop_bit 4 b < 16"
  proof -
    have "unat (drop_bit 4 b) = unat b div 16"
      by (simp only: unat_drop_bit_eq) (simp add: drop_bit_eq_div)
    then show ?thesis using unat_u8_less [of b] by (simp add: word_less_nat_alt)
  qed
  show "take_bit 4 b < 16"
    by (simp add: word_less_nat_alt unsigned_take_bit_eq take_bit_nat_def)
qed

lemma nibbles_join: "push_bit 4 (drop_bit 4 b) + take_bit 4 b = (b :: u8)"
  by (rule bits_ident)

lemma str2hex_loop_text:
  assumes "cur + int (length bs) \<le> nLen" and "d \<le> length buf"
  shows "str2hex_loop (hex_text bs @ 0 # rest) buf d nLen number False cur =
           (if d + length bs \<le> length buf
            then Inr (patch buf d bs, cur + int (length bs)) else Inl OutOfBounds)"
  using assms
proof (induction bs arbitrary: buf d cur number)
  case Nil
  then show ?case by (simp add: hex_text_def)
next
  case (Cons b bs)
  note digits = hexval_hex_digit [OF nibble_bounds(1) [of b]] hexval_hex_digit [OF nibble_bounds(2) [of b]]
    hex_digit_nonzero [OF nibble_bounds(1) [of b]] hex_digit_nonzero [OF nibble_bounds(2) [of b]]
  have unroll: "str2hex_loop (hex_text (b # bs) @ 0 # rest) buf d nLen number False cur =
      bindR (wr buf d b) (\<lambda>buf'.
        str2hex_loop (hex_text bs @ 0 # rest) buf' (Suc d) nLen b False (cur + 1))"
    using Cons.prems digits by (simp add: hex_text_def nibbles_join)
  show ?case
  proof (cases "d < length buf")
    case True
    have "patch (buf[d := b]) (Suc d) bs = patch buf d (b # bs)"
      if "d + length (b # bs) \<le> length buf"
      using that patch_append [of d "[b]" bs buf] True by (simp add: patch_single)
    with True Cons.IH [of "cur + 1" "Suc d" "buf[d := b]" b] Cons.prems show ?thesis
      by (simp add: unroll)
  qed (simp add: unroll)
qed

lemma str2hex_text:
  assumes "int (length bs) \<le> nLen" and "d \<le> length buf"
  shows "str2hex (hex_text bs @ 0 # rest) buf d nLen =
           (if d + length bs \<le> length buf
            then Inr (patch buf d bs, int (length bs)) else Inl OutOfBounds)"
  using str2hex_loop_text [of 0 bs nLen d buf rest 0] assms by (simp add: str2hex_def)

lemma str2hex_loop_bounds:
  assumes "str2hex_loop cs buf d nLen number up cur = Inr (buf', k)" and "d \<le> length buf"
  shows "cur \<le> k \<and> k \<le> max cur nLen \<and> d + nat (k - cur) \<le> length buf
    \<and> (\<exists>bs. length bs = nat (k - cur) \<and> buf' = patch buf d bs)"
  using assms
proof (induction cs arbitrary: buf d number up cur)
  case Nil
  then show ?case by simp
next
  case (Cons c cs)
  show ?case
  proof (cases "c \<noteq> 0 \<and> cur < nLen \<and> up \<and> hexval c \<noteq> None")
    case True
    then obtain uc where uc: "hexval c = Some uc" by blast
    let ?v = "push_bit 4 number + uc"
    from Cons.prems(1) True uc have d: "d < length buf"
      and rec: "str2hex_loop cs (buf[d := ?v]) (Suc d) nLen ?v False (cur + 1) = Inr (buf', k)"
      by (auto simp: bindR_eq_Inr wr_eq_Inr)
    from Cons.IH [OF rec] d obtain bs where k: "cur + 1 \<le> k" "k \<le> max (cur + 1) nLen"
        "Suc d + nat (k - (cur + 1)) \<le> length buf" "length bs = nat (k - (cur + 1))"
      and b: "buf' = patch (buf[d := ?v]) (Suc d) bs"
      by auto
    then have "buf' = patch buf d (?v # bs)"
      using patch_append [of d "[?v]" bs buf] d by (simp add: patch_single)
    moreover have "length (?v # bs) = nat (k - cur)" using k by simp
    moreover have "cur \<le> k" "k \<le> max cur nLen" "d + nat (k - cur) \<le> length buf"
      using k True by auto
    ultimately show ?thesis by blast
  next
    case False
    show ?thesis
    proof (cases "c \<noteq> 0 \<and> cur < nLen")
      case True
      with False Cons.prems(1) obtain number' up' where
        "str2hex_loop cs buf d nLen number' up' cur = Inr (buf', k)"
        by (auto split: option.splits if_splits)
      then show ?thesis using Cons.prems(2) by (rule Cons.IH)
    next
      case False
      with Cons.prems have "buf' = patch buf d []" and "k = cur" by auto
      then show ?thesis using Cons.prems(2) by auto
    qed
  qed
qed

section \<open>The copies in closed form\<close>

lemma smallcpy_loop_closed:
  assumes "0 \<le> d" and "0 \<le> s" and "0 < n"
  shows "smallcpy_loop des d src s n =
     (if d + int n \<le> int (length des) \<and> s + int n \<le> int (length src)
      then Inr (patch des (nat d) (take n (drop (nat s) src))) else Inl OutOfBounds)"
  using assms
proof (induction n arbitrary: des d s)
  case (Suc n)
  show ?case
  proof (cases "d < int (length des) \<and> s < int (length src)")
    case True
    have here: "drop (nat s) src = src ! nat s # drop (Suc (nat s)) src"
      using True Suc.prems by (simp add: Cons_nth_drop_Suc nat_less_iff)
    have step: "smallcpy_loop des d src s (Suc n) =
        smallcpy_loop (des[nat d := src ! nat s]) (d + 1) src (s + 1) n"
      using True Suc.prems by (simp add: rdi_def wri_def nat_less_iff)
    have nats: "nat (d + 1) = Suc (nat d)" "nat (s + 1) = Suc (nat s)"
      using Suc.prems by simp_all
    show ?thesis
    proof (cases "n = 0")
      case True
      then show ?thesis using step here \<open>d < _ \<and> _\<close> Suc.prems
        by (simp add: patch_single nat_less_iff)
    next
      case False
      let ?w = "take n (drop (Suc (nat s)) src)"
      have "patch (des[nat d := src ! nat s]) (Suc (nat d)) ?w =
            patch des (nat d) (src ! nat s # ?w)"
        if "d + int (Suc n) \<le> int (length des)"
        using that True Suc.prems patch_append [of "nat d" "[src ! nat s]" ?w des]
        by (simp add: patch_single)
      with False Suc.IH [of "d + 1" "s + 1"] Suc.prems step nats here show ?thesis
        by auto
    qed
  next
    case False
    then show ?thesis
      using Suc.prems by (auto simp: rdi_def wri_def rd_def wr_def)
  qed
qed simp

lemma smallcpy_closed:
  "smallcpy des d src s len =
     (if len \<le> 0 then Inr des
      else if 0 \<le> d \<and> d + len \<le> int (length des) \<and> 0 \<le> s \<and> s + len \<le> int (length src)
      then Inr (patch des (nat d) (take (nat len) (drop (nat s) src))) else Inl OutOfBounds)"
proof (cases "0 < len")
  case True
  then obtain n where n: "nat len = Suc n" using not0_implies_Suc by fastforce
  show ?thesis
  proof (cases "0 \<le> d \<and> 0 \<le> s")
    case True
    with \<open>0 < len\<close> show ?thesis by (simp add: smallcpy_def smallcpy_loop_closed)
  next
    case False
    with \<open>0 < len\<close> n show ?thesis
      by (auto simp: smallcpy_def rdi_def wri_def rd_def bindR_def)
  qed
qed (simp add: smallcpy_def)

lemma smallcpy_length:
  assumes "smallcpy des d src s len = Inr r"
  shows "length r = length des"
proof (cases "len \<le> 0")
  case False
  with assms have b: "0 \<le> d" "d + len \<le> int (length des)" "0 \<le> s" "s + len \<le> int (length src)"
    and r: "r = patch des (nat d) (take (nat len) (drop (nat s) src))"
    by (auto simp: smallcpy_closed split: if_splits)
  then have "length (take (nat len) (drop (nat s) src)) = nat len" by simp
  with b False show ?thesis by (simp add: r)
qed (use assms in \<open>simp add: smallcpy_closed\<close>)

lemma reversecpy_loop_closed:
  assumes "n \<le> length dest" and "i + n \<le> length src"
  shows "reversecpy_loop dest src (int n - 1) i n =
           Inr (rev (take n (drop i src)) @ drop n dest)"
  using assms
proof (induction n arbitrary: dest i)
  case (Suc n)
  have "drop i src = src ! i # drop (Suc i) src"
    using Suc.prems by (simp add: Cons_nth_drop_Suc)
  moreover have "drop n (dest[n := v]) = v # drop (Suc n) dest" for v
    using Suc.prems by (simp add: drop_update_swap Cons_nth_drop_Suc [symmetric])
  ultimately show ?case
    using Suc.prems Suc.IH [of "dest[n := src ! i]" "Suc i"]
    by (simp add: wri_def)
qed simp

lemma reversecpy_closed:
  assumes "0 \<le> len" and "len \<le> int (length dest)" and "len \<le> int (length src)"
  shows "reversecpy dest src len = Inr (rev (take (nat len) src) @ drop (nat len) dest)"
  using reversecpy_loop_closed [of "nat len" dest 0 src] assms by (simp add: reversecpy_def)

text \<open>
  Together: how identifiers are read from the configuration.  Eight hexadecimal digits are
  scanned into a four byte \<^verbatim>\<open>unsigned int\<close> and copied in reverse, which on a little-endian
  machine yields the number written.
\<close>

definition hex_of_id :: "u32 \<Rightarrow> u8 list" where
  "hex_of_id w = hex_text (rev (le32 w))"

lemma scan_id:
  "bindR (str2hex (hex_of_id w @ 0 # rest) (le32 0) 0 8) (\<lambda>(id, k).
     bindR (reversecpy (le32 v) id 4) (\<lambda>dst. Inr (u32_le dst))) = Inr w"
proof -
  have "patch (le32 0) 0 (rev (le32 w)) = rev (le32 w)" by (simp add: patch_def)
  then show ?thesis
    by (simp add: hex_of_id_def str2hex_text reversecpy_closed)
qed

section \<open>Properties\<close>

definition dec_text :: "int \<Rightarrow> u8 list" where
  "dec_text k = (if k < 0 then 45 # dec_digits (nat (- k)) else dec_digits (nat k))"

text \<open>
  \<^verbatim>\<open>str2dec\<close> reads back the decimal text of every \<^verbatim>\<open>int\<close>, the least one included, and does
  not depend on what follows the terminator.
\<close>

theorem str2dec_roundtrip:
  assumes "- (2 ^ 31) \<le> k" and "k < 2 ^ 31"
  shows "str2dec (dec_text k @ 0 # rest) = Inr k"
  using assms str2dec_digits [of "nat k" rest] str2dec_minus_digits [of "nat (- k)" rest]
  by (cases "k < 0") (simp_all add: dec_text_def nat_less_iff nat_le_iff del: dec_digits.simps)

theorem str2dec_roundtrip_witness: "str2dec (dec_text (- 2147483648) @ 0 # [7]) = Inr (- 2147483648)"
  by (rule str2dec_roundtrip) simp_all

text \<open>
  \<^verbatim>\<open>str2hex\<close> turns hexadecimal text into its bytes, in order, at the destination pointer and
  nowhere else, and returns their number; text that denotes more bytes than the destination
  has is an access outside it, because the limit \<open>nLen\<close> counts bytes of the text, not of the
  destination.
\<close>

theorem str2hex_bytes:
  assumes "int (length bs) \<le> nLen" and "d \<le> length buf"
  shows "str2hex (hex_text bs @ 0 # rest) buf d nLen =
     (if d + length bs \<le> length buf then Inr (patch buf d bs, int (length bs)) else Inl OutOfBounds)"
  using assms by (rule str2hex_text)

theorem str2hex_bytes_witness:
  "str2hex (hex_text [0x60, 0x51, 0x02, 0x05, 0xff] @ 0 # []) (le32 0) 0 8 = Inl OutOfBounds"
  using str2hex_bytes [of "[0x60, 0x51, 0x02, 0x05, 0xff]" 8 0 "le32 0" "[]"] by simp

text \<open>
  an identifier written as eight hexadecimal digits is read back unchanged by the call of
  \<^verbatim>\<open>str2hex\<close> into a zeroed \<^verbatim>\<open>unsigned int\<close> and \<^verbatim>\<open>reversecpy\<close> that the loaders use, whatever
  the destination held.
\<close>

theorem id_text_roundtrip:
  "bindR (str2hex (hex_of_id w @ 0 # rest) (le32 0) 0 8) (\<lambda>(id, k).
     bindR (reversecpy (le32 v) id 4) (\<lambda>dst. Inr (u32_le dst))) = Inr w"
  by (rule scan_id)

text \<open>
  \<^verbatim>\<open>smallcpy\<close> is a bounds-checked \<^verbatim>\<open>memcpy\<close>: it succeeds exactly if both windows are inside
  their objects (a length that is not positive copies nothing), and then changes exactly the
  destination window.
\<close>

theorem smallcpy_is_copy:
  "smallcpy des d src s len =
     (if len \<le> 0 then Inr des
      else if 0 \<le> d \<and> d + len \<le> int (length des) \<and> 0 \<le> s \<and> s + len \<le> int (length src)
      then Inr (patch des (nat d) (take (nat len) (drop (nat s) src))) else Inl OutOfBounds)"
  by (rule smallcpy_closed)

end
