(* ===== verification/XmlDom.thy ===== *)
theory XmlDom
  imports ElCommon
begin

text \<open>
  The parsed configuration document as \<^verbatim>\<open>mem.c\<close> and \<^verbatim>\<open>elMeter.c\<close> see it through libxml2:
  a node is an element with its attributes and children, a text node or a comment; a sibling
  chain (\<^verbatim>\<open>node, node->next, ...\<close>) is a list.  Parsing itself (\<^verbatim>\<open>xmlReadFile\<close>) is not modelled:
  the loaders take the resulting document as an argument, \<open>None\<close> when the file cannot be
  parsed.  Attribute values are resolved strings and the document has no DTD, so no attribute
  comes from a declaration.  XML admits no NUL character, which \<open>xml_string\<close> states.
\<close>

datatype xmlNode =
    Element string "(string \<times> string) list" "xmlNode list"
  | TextNode string
  | Comment string

type_synonym xmlDoc = "xmlNode list"

fun node_name :: "xmlNode \<Rightarrow> string" where
  "node_name (Element n as cs) = n"
| "node_name (TextNode t) = ''text''"
| "node_name (Comment t) = ''comment''"

fun node_children :: "xmlNode \<Rightarrow> xmlNode list" where
  "node_children (Element n as cs) = cs"
| "node_children _ = []"

text \<open>
  \<^verbatim>\<open>xmlStrcmp\<close> on two non-null strings: the difference of the first bytes that differ, the
  terminator counting as 0.
\<close>

fun xmlStrcmp :: "string \<Rightarrow> string \<Rightarrow> int" where
  "xmlStrcmp [] [] = 0"
| "xmlStrcmp [] (b # bs) = - of_char b"
| "xmlStrcmp (a # as) [] = of_char a"
| "xmlStrcmp (a # as) (b # bs) =
     (if a \<noteq> b then of_char a - of_char b else if of_char b = (0 :: int) then 0 else xmlStrcmp as bs)"

definition xml_string :: "string \<Rightarrow> bool" where
  "xml_string s \<longleftrightarrow> (\<forall>c \<in> set s. of_char c \<noteq> (0 :: int))"

lemma of_char_int_eq: "(of_char a :: int) = of_char b \<longleftrightarrow> a = b"
  by simp

lemma xmlStrcmp_eq_0: "xml_string a \<Longrightarrow> xml_string b \<Longrightarrow> xmlStrcmp a b = 0 \<longleftrightarrow> a = b"
  by (induction a b rule: xmlStrcmp.induct) (auto simp: xml_string_def of_char_int_eq)

lemma xmlStrcmp_refl [simp]: "xmlStrcmp a a = 0"
  by (induction a) auto

text \<open>
  \<^verbatim>\<open>xmlGetProp\<close>: the value of the first attribute of that name of an element; \<open>None\<close> is the
  null pointer, returned for any other kind of node.  The copy handed out is terminated.
\<close>

fun find_attr :: "(string \<times> string) list \<Rightarrow> string \<Rightarrow> string option" where
  "find_attr [] name = None"
| "find_attr ((n, v) # as) name = (if n = name then Some v else find_attr as name)"

fun xmlGetProp :: "xmlNode \<Rightarrow> string \<Rightarrow> string option" where
  "xmlGetProp (Element n as cs) name = find_attr as name"
| "xmlGetProp _ name = None"

lemma find_attr_map_of: "find_attr as name = map_of as name"
  by (induction as) auto

fun xmlDocGetRootElement :: "xmlDoc \<Rightarrow> xmlNode option" where
  "xmlDocGetRootElement [] = None"
| "xmlDocGetRootElement (n # ns) =
     (case n of Element _ _ _ \<Rightarrow> Some n | _ \<Rightarrow> xmlDocGetRootElement ns)"

text \<open>
  The two sibling searches every loader writes out: by element name, and by the value of the
  \<^verbatim>\<open>tag\<close> attribute.
\<close>

fun find_by_name :: "xmlNode list \<Rightarrow> string \<Rightarrow> xmlNode option" where
  "find_by_name [] name = None"
| "find_by_name (n # ns) name =
     (if xmlStrcmp (node_name n) name = 0 then Some n else find_by_name ns name)"

fun find_by_tag :: "xmlNode list \<Rightarrow> string \<Rightarrow> xmlNode option" where
  "find_by_tag [] t = None"
| "find_by_tag (n # ns) t =
     (case xmlGetProp n ''tag'' of
        None \<Rightarrow> find_by_tag ns t
      | Some v \<Rightarrow> if xmlStrcmp v t = 0 then Some n else find_by_tag ns t)"

lemma find_by_name_in: "find_by_name ns name = Some n \<Longrightarrow> n \<in> set ns \<and> xmlStrcmp (node_name n) name = 0"
  by (induction ns) (auto split: if_splits)

lemma find_by_tag_in: "find_by_tag ns t = Some n \<Longrightarrow> n \<in> set ns"
  by (induction ns) (auto split: if_splits option.splits)

text \<open>Passing a possibly null attribute to a function that dereferences it.\<close>

definition deref :: "string option \<Rightarrow> u8 list res" where
  "deref a = (case a of None \<Rightarrow> Inl NullPtr | Some s \<Rightarrow> Inr (cstr s))"

lemma deref_simps [simp]: "deref None = Inl NullPtr" "deref (Some s) = Inr (cstr s)"
  by (simp_all add: deref_def)

lemma terminated_cstr [simp]: "terminated (cstr s)"
  by (simp add: cstr_def)

text \<open>\<^verbatim>\<open>get_cfg_num\<close>: the \<^verbatim>\<open>num\<close> attribute, 0 when it is absent, -1 for a null node.\<close>

definition get_cfg_num :: "xmlNode option \<Rightarrow> int res" where
  "get_cfg_num node =
     (case node of
        None \<Rightarrow> Inr (- 1)
      | Some n \<Rightarrow> (case xmlGetProp n ''num'' of
                    None \<Rightarrow> Inr 0
                  | Some s \<Rightarrow> str2dec (cstr s)))"

lemma get_cfg_num_total: "\<exists>k. get_cfg_num n = Inr k"
  by (auto simp: get_cfg_num_def str2dec_closed split: option.split)

end
