(* ===== verification/MemTypes.thy ===== *)
theory MemTypes
  imports XmlDom
begin

text \<open>
  The tables of \<^verbatim>\<open>code/mem.h\<close> and the global state of \<^verbatim>\<open>code/mem.c\<close>.  Fields carry a short
  prefix because the C structs reuse names.  A pointer to a \<^verbatim>\<open>malloc\<close>ed array is an optional
  list, \<open>None\<close> for the null pointer; a mutex is null, free or held.  Which allocations succeed
  and what fresh memory contains are parameters (\<open>alloc_env\<close>).
\<close>

datatype DATA_TYPE_E = DATA_YC | DATA_YX | DATA_YM

datatype lock = NoLock | Unlocked | Locked

record DOTTYPE_DO_UNIT_T =
  du_dotype_tag :: "u8 list"
  du_offset :: int
  du_dataLen :: int
  du_id :: u32

record IED_DO_LIST_T =
  dl_do_tag :: "u8 list"
  dl_itemid :: u32
  dl_offset :: u32
  dl_dotTypeLen :: u32
  dl_nNum :: int
  dl_pDotList_104 :: "DOTTYPE_DO_UNIT_T list option"
  dl_pDotList_698 :: "DOTTYPE_DO_UNIT_T list option"

record IED_LIST_T =
  ied_tag :: "u8 list"
  ied_nPn :: u16
  ied_lock :: lock
  ied_nNum :: int
  ied_pDoList :: "IED_DO_LIST_T list option"

record ID_ITEM_T =
  id_id :: u32
  id_do_tag :: "u8 list"
  id_dotype_tag :: "u8 list"

record ID_LIST_T =
  il_nNum :: int
  il_pItem :: "ID_ITEM_T list option"

record MEM_MAP_T =
  mm_nNum :: int
  mm_pIedList :: "IED_LIST_T list option"

record POINT_ITEM_T =
  pt_ied_tag :: "u8 list"
  pt_do_tag :: "u8 list"
  pt_dotype_tag :: "u8 list"
  pt_addr :: int

record POINT_LIST_T =
  pl_nNum :: int
  pl_point :: "POINT_ITEM_T list option"
  pl_lock :: lock

record POINT_MAP_T =
  ym_list :: POINT_LIST_T
  yx_list :: POINT_LIST_T
  yc_list :: POINT_LIST_T
  id_list :: ID_LIST_T

record mem_state =
  s_pointMap :: POINT_MAP_T
  s_memMap :: MEM_MAP_T
  s_pDataMem :: "u8 list option"

section \<open>Allocation\<close>

definition MAX_NAME_LEN :: nat where "MAX_NAME_LEN = 64"

text \<open>The \<^verbatim>\<open>malloc\<close> calls of the loaders, by what they allocate.\<close>

datatype alloc_site =
    PointLock DATA_TYPE_E | PointItems DATA_TYPE_E | IdItems | IedList
  | IedLock nat | DoList nat | DotList104 nat nat | DotList698 nat nat | DataMem

record alloc_env =
  malloc_ok :: "alloc_site \<Rightarrow> bool"
  junk :: "nat \<Rightarrow> u8"

text \<open>A negative element count is a request near the size of the address space, which fails.\<close>

definition alloc :: "alloc_env \<Rightarrow> alloc_site \<Rightarrow> int \<Rightarrow> bool" where
  "alloc env site n \<longleftrightarrow> 0 \<le> n \<and> malloc_ok env site"

definition fresh_bytes :: "alloc_env \<Rightarrow> nat \<Rightarrow> nat \<Rightarrow> u8 list" where
  "fresh_bytes env k n = map (junk env) [k ..< k + n]"

definition fresh_point :: "alloc_env \<Rightarrow> nat \<Rightarrow> POINT_ITEM_T" where
  "fresh_point env i =
     \<lparr>pt_ied_tag = fresh_bytes env (196 * i) 64,
      pt_do_tag = fresh_bytes env (196 * i + 64) 64,
      pt_dotype_tag = fresh_bytes env (196 * i + 128) 64,
      pt_addr = sint (u32_le (fresh_bytes env (196 * i + 192) 4))\<rparr>"

definition fresh_id :: "alloc_env \<Rightarrow> nat \<Rightarrow> ID_ITEM_T" where
  "fresh_id env i =
     \<lparr>id_id = u32_le (fresh_bytes env (132 * i) 4),
      id_do_tag = fresh_bytes env (132 * i + 4) 64,
      id_dotype_tag = fresh_bytes env (132 * i + 68) 64\<rparr>"

definition fresh_unit :: "alloc_env \<Rightarrow> nat \<Rightarrow> DOTTYPE_DO_UNIT_T" where
  "fresh_unit env i =
     \<lparr>du_dotype_tag = fresh_bytes env (76 * i) 64,
      du_offset = sint (u32_le (fresh_bytes env (76 * i + 64) 4)),
      du_dataLen = sint (u32_le (fresh_bytes env (76 * i + 68) 4)),
      du_id = u32_le (fresh_bytes env (76 * i + 72) 4)\<rparr>"

definition zero_tag :: "u8 list" where "zero_tag = replicate MAX_NAME_LEN 0"

text \<open>The contents after \<^verbatim>\<open>memset(..., 0x00, ...)\<close>.\<close>

definition zero_point_list :: POINT_LIST_T where
  "zero_point_list = \<lparr>pl_nNum = 0, pl_point = None, pl_lock = NoLock\<rparr>"

definition zero_pointMap :: POINT_MAP_T where
  "zero_pointMap =
     \<lparr>ym_list = zero_point_list, yx_list = zero_point_list, yc_list = zero_point_list,
      id_list = \<lparr>il_nNum = 0, il_pItem = None\<rparr>\<rparr>"

definition zero_memMap :: MEM_MAP_T where
  "zero_memMap = \<lparr>mm_nNum = 0, mm_pIedList = None\<rparr>"

definition zero_ied :: IED_LIST_T where
  "zero_ied = \<lparr>ied_tag = zero_tag, ied_nPn = 0, ied_lock = NoLock, ied_nNum = 0, ied_pDoList = None\<rparr>"

definition zero_do :: IED_DO_LIST_T where
  "zero_do = \<lparr>dl_do_tag = zero_tag, dl_itemid = 0, dl_offset = 0, dl_dotTypeLen = 0, dl_nNum = 0,
              dl_pDotList_104 = None, dl_pDotList_698 = None\<rparr>"

text \<open>Before \<^verbatim>\<open>rh_mem_init\<close> the globals are zero.\<close>

definition mem_start :: mem_state where
  "mem_start = \<lparr>s_pointMap = zero_pointMap, s_memMap = zero_memMap, s_pDataMem = None\<rparr>"

lemma length_fresh_bytes [simp]: "length (fresh_bytes env k n) = n"
  by (simp add: fresh_bytes_def)

lemma length_zero_tag [simp]: "length zero_tag = 64"
  by (simp add: zero_tag_def MAX_NAME_LEN_def)

section \<open>Array sizes\<close>

definition wf_point :: "POINT_ITEM_T \<Rightarrow> bool" where
  "wf_point p \<longleftrightarrow> length (pt_ied_tag p) = 64 \<and> length (pt_do_tag p) = 64 \<and> length (pt_dotype_tag p) = 64"

lemma wf_fresh_point: "wf_point (fresh_point env i)"
  by (simp add: wf_point_def fresh_point_def)

end
