(* ===== verification/MemMap.thy ===== *)
theory MemMap
  imports MemTypes
begin

text \<open>
  \<^verbatim>\<open>rh_mem_map_init\<close> of \<^verbatim>\<open>code/mem.c\<close>: the four-level index (device, data object, field) over
  the contiguous data memory.  \<open>inum\<close> and \<open>dnum\<close> are the positions \<^verbatim>\<open>nNum\<close> and \<^verbatim>\<open>doNum\<close> of the
  entries being filled; a flag \<open>ok\<close> is false once the function has returned -1.
\<close>

definition is_text :: "xmlNode \<Rightarrow> bool" where
  "is_text n \<longleftrightarrow> xmlStrcmp (node_name n) ''text'' = 0"

section \<open>Fields of a data object\<close>

text \<open>Writing through \<^verbatim>\<open>pDo->pDotList_104[k]\<close>, which may be null.\<close>

definition upd_unit ::
  "DOTTYPE_DO_UNIT_T list option \<Rightarrow> nat \<Rightarrow> (DOTTYPE_DO_UNIT_T \<Rightarrow> DOTTYPE_DO_UNIT_T res) \<Rightarrow>
   DOTTYPE_DO_UNIT_T list option res" where
  "upd_unit us k f =
     (case us of None \<Rightarrow> Inl NullPtr | Some xs \<Rightarrow> bindR (upd xs k f) (\<lambda>ys. Inr (Some ys)))"

definition load_unit ::
  "DOTTYPE_DO_UNIT_T list option \<Rightarrow> nat \<Rightarrow> xmlNode \<Rightarrow> (DOTTYPE_DO_UNIT_T list option \<times> bool) res" where
  "load_unit us k node =
     (case xmlGetProp node ''len'' of
        None \<Rightarrow> Inr (us, False)
      | Some s \<Rightarrow>
          bindR (str2dec (cstr s)) (\<lambda>v.
          bindR (upd_unit us k (\<lambda>u. Inr (u\<lparr>du_dataLen := v\<rparr>))) (\<lambda>us.
     (case xmlGetProp node ''offset'' of
        None \<Rightarrow> Inr (us, False)
      | Some s \<Rightarrow>
          bindR (str2dec (cstr s)) (\<lambda>v.
          bindR (upd_unit us k (\<lambda>u. Inr (u\<lparr>du_offset := v\<rparr>))) (\<lambda>us.
     (case xmlGetProp node ''tag'' of
        None \<Rightarrow> Inr (us, False)
      | Some s \<Rightarrow>
          bindR (upd_unit us k (\<lambda>u. bindR (strcpy (du_dotype_tag u) 0 (cstr s)) (\<lambda>t.
                   Inr (u\<lparr>du_dotype_tag := t\<rparr>)))) (\<lambda>us. Inr (us, True)))))))))"

fun load_units ::
  "int \<Rightarrow> xmlNode list \<Rightarrow> nat \<Rightarrow> DOTTYPE_DO_UNIT_T list option \<Rightarrow>
   (DOTTYPE_DO_UNIT_T list option \<times> nat \<times> bool) res" where
  "load_units nNum [] k us = Inr (us, k, True)"
| "load_units nNum (n # ns) k us =
     (if is_text n then load_units nNum ns k us
      else if int k \<ge> nNum then Inr (us, k, True)
      else bindR (load_unit us k n) (\<lambda>(us, ok).
             if ok then load_units nNum ns (Suc k) us else Inr (us, k, False)))"

text \<open>The copy of the first \<open>n\<close> entries of the 104 list into the 698 list.\<close>

fun copy_units ::
  "nat \<Rightarrow> nat \<Rightarrow> DOTTYPE_DO_UNIT_T list option \<Rightarrow> DOTTYPE_DO_UNIT_T list option \<Rightarrow>
   DOTTYPE_DO_UNIT_T list option res" where
  "copy_units i 0 src dst = Inr dst"
| "copy_units i (Suc n) src dst =
     (case src of
        None \<Rightarrow> Inl NullPtr
      | Some xs \<Rightarrow> bindR (rd xs i) (\<lambda>u. bindR (upd_unit dst i (\<lambda>_. Inr u)) (\<lambda>dst.
                     copy_units (Suc i) n src dst)))"

section \<open>Data objects\<close>

text \<open>
  The node that describes the fields: the object itself when it has no \<^verbatim>\<open>dotype\<close> attribute,
  otherwise the template whose \<^verbatim>\<open>tag\<close> is that type.
\<close>

fun find_template :: "xmlNode list \<Rightarrow> string \<Rightarrow> xmlNode option" where
  "find_template [] ty = None"
| "find_template (n # ns) ty =
     (if is_text n then find_template ns ty
      else case xmlGetProp n ''tag'' of
             None \<Rightarrow> find_template ns ty
           | Some v \<Rightarrow> if xmlStrcmp ty v = 0 then Some n else find_template ns ty)"

definition dotype_node :: "xmlNode \<Rightarrow> xmlNode \<Rightarrow> xmlNode option" where
  "dotype_node templ doNode =
     (case xmlGetProp doNode ''dotype'' of
        None \<Rightarrow> Some doNode
      | Some ty \<Rightarrow> find_template (node_children templ) ty)"

text \<open>
  One data object at memory offset \<open>len\<close>.  The result is the entry, its total length
  (\<^verbatim>\<open>dotTypeLen\<close>) and the flag.
\<close>

definition load_do ::
  "alloc_env \<Rightarrow> xmlNode \<Rightarrow> nat \<Rightarrow> nat \<Rightarrow> int \<Rightarrow> xmlNode \<Rightarrow> IED_DO_LIST_T \<Rightarrow>
   (IED_DO_LIST_T \<times> int \<times> bool) res" where
  "load_do env templ inum dnum len doNode pDo =
     (case xmlGetProp doNode ''tag'' of
        None \<Rightarrow> Inr (pDo, 0, False)
      | Some s \<Rightarrow>
          bindR (strcpy (dl_do_tag pDo) 0 (cstr s)) (\<lambda>t.
          let pDo = pDo\<lparr>dl_do_tag := t, dl_offset := word_of_int len\<rparr> in
     (case xmlGetProp doNode ''len'' of
        None \<Rightarrow> Inr (pDo, 0, False)
      | Some s \<Rightarrow>
          bindR (str2dec (cstr s)) (\<lambda>dotTypeLen.
     (case dotype_node templ doNode of
        None \<Rightarrow> Inr (pDo, dotTypeLen, False)
      | Some dotTypeNode \<Rightarrow>
          bindR (get_cfg_num (Some dotTypeNode)) (\<lambda>n.
          let l104 = (if alloc env (DotList104 inum dnum) n
                      then Some (map (fresh_unit env) [0 ..< nat n]) else None);
              l698 = (if alloc env (DotList698 inum dnum) n
                      then Some (map (fresh_unit env) [0 ..< nat n]) else None);
              pDo = pDo\<lparr>dl_nNum := n\<rparr>
          in
          bindR (load_units n (node_children dotTypeNode) 0 l104) (\<lambda>(l104, doTypeNum, ok).
          let pDo = pDo\<lparr>dl_pDotList_104 := l104, dl_pDotList_698 := l698\<rparr> in
          if \<not> ok then Inr (pDo, dotTypeLen, False)
          else bindR (copy_units 0 doTypeNum l104 l698) (\<lambda>l698.
                 Inr (pDo\<lparr>dl_pDotList_698 := l698\<rparr>, dotTypeLen, True)))))))))"

text \<open>The objects of one device; \<open>len\<close> is the memory length so far.\<close>

fun load_dos ::
  "alloc_env \<Rightarrow> xmlNode \<Rightarrow> nat \<Rightarrow> int \<Rightarrow> xmlNode list \<Rightarrow> nat \<Rightarrow> int \<Rightarrow> IED_DO_LIST_T list \<Rightarrow>
   (IED_DO_LIST_T list \<times> int \<times> bool) res" where
  "load_dos env templ inum nNum [] dnum len dos = Inr (dos, len, True)"
| "load_dos env templ inum nNum (n # ns) dnum len dos =
     (if is_text n then load_dos env templ inum nNum ns dnum len dos
      else if int dnum \<ge> nNum then Inr (dos, len, True)
      else bindR (rd dos dnum) (\<lambda>pDo.
           bindR (load_do env templ inum dnum len n pDo) (\<lambda>(pDo, dotTypeLen, ok).
           bindR (wr dos dnum pDo) (\<lambda>dos.
             if \<not> ok then Inr (dos, len, False)
             else bindR (addi len dotTypeLen) (\<lambda>len.
                    load_dos env templ inum nNum ns (Suc dnum) len dos)))))"

section \<open>Devices\<close>

text \<open>
  One device.  The point number is scanned as an \<^verbatim>\<open>int\<close> into a 16 bit field followed by
  padding, so its low half is kept.
\<close>

definition load_ied ::
  "alloc_env \<Rightarrow> xmlNode \<Rightarrow> nat \<Rightarrow> int \<Rightarrow> xmlNode \<Rightarrow> string \<Rightarrow> IED_LIST_T \<Rightarrow>
   (IED_LIST_T \<times> int \<times> bool) res" where
  "load_ied env templ inum len iedNode szAttr ied =
     bindR (strcpy (ied_tag ied) 0 (cstr szAttr)) (\<lambda>t.
     let ied = ied\<lparr>ied_tag := t,
                   ied_lock := (if alloc env (IedLock inum) 1 then Unlocked else NoLock)\<rparr> in
     (case xmlGetProp iedNode ''pn'' of
        None \<Rightarrow> Inr (ied, len, False)
      | Some s \<Rightarrow>
          bindR (str2dec (cstr s)) (\<lambda>pn.
          bindR (get_cfg_num (Some iedNode)) (\<lambda>n.
          let ied = ied\<lparr>ied_nPn := word_of_int pn, ied_nNum := n\<rparr> in
          if n \<le> 0 then Inr (ied, len, False)
          else if \<not> alloc env (DoList inum) n then Inr (ied, len, False)
          else bindR (load_dos env templ inum n (node_children iedNode) 0 len (replicate (nat n) zero_do))
                 (\<lambda>(dos, len, ok). Inr (ied\<lparr>ied_pDoList := Some dos\<rparr>, len, ok))))))"

fun load_ieds ::
  "alloc_env \<Rightarrow> xmlNode \<Rightarrow> int \<Rightarrow> xmlNode list \<Rightarrow> nat \<Rightarrow> int \<Rightarrow> IED_LIST_T list \<Rightarrow>
   (IED_LIST_T list \<times> int \<times> bool) res" where
  "load_ieds env templ nTotal [] nNum len ieds = Inr (ieds, len, True)"
| "load_ieds env templ nTotal (n # ns) nNum len ieds =
     (if xmlStrcmp (node_name n) ''IED'' \<noteq> 0 then load_ieds env templ nTotal ns nNum len ieds
      else case xmlGetProp n ''tag'' of
        None \<Rightarrow> Inr (ieds, len, False)
      | Some szAttr \<Rightarrow>
          if xmlStrcmp szAttr ''104tstied'' = 0 then load_ieds env templ nTotal ns nNum len ieds
          else if int nNum \<ge> nTotal then Inr (ieds, len, True)
          else bindR (rd ieds nNum) (\<lambda>ied.
               bindR (load_ied env templ nNum len n szAttr ied) (\<lambda>(ied, len, ok).
               bindR (wr ieds nNum ied) (\<lambda>ieds.
                 if \<not> ok then Inr (ieds, len, False)
                 else load_ieds env templ nTotal ns (Suc nNum) len ieds))))"

definition rh_mem_map_init :: "alloc_env \<Rightarrow> xmlDoc option \<Rightarrow> (MEM_MAP_T \<times> int) res" where
  "rh_mem_map_init env doc =
     (case doc of
        None \<Rightarrow> Inr (zero_memMap, - 1)
      | Some d \<Rightarrow>
     (case xmlDocGetRootElement d of
        None \<Rightarrow> Inr (zero_memMap, - 1)
      | Some rootNode \<Rightarrow>
     (case find_by_name (node_children rootNode) ''IED_CFG'' of
        None \<Rightarrow> Inr (zero_memMap, - 1)
      | Some iedCfgNode \<Rightarrow>
     (case find_by_name (node_children rootNode) ''DataTypeTempltes'' of
        None \<Rightarrow> Inr (zero_memMap, - 1)
      | Some templ \<Rightarrow>
          bindR (get_cfg_num (Some iedCfgNode)) (\<lambda>n.
          let mm = zero_memMap\<lparr>mm_nNum := n\<rparr> in
          if n \<le> 0 then Inr (mm, - 1)
          else if \<not> alloc env IedList n then Inr (mm, - 1)
          else bindR (load_ieds env templ n (node_children iedCfgNode) 0 0 (replicate (nat n) zero_ied))
                 (\<lambda>(ieds, len, ok).
                    Inr (mm\<lparr>mm_pIedList := Some ieds\<rparr>, if ok then len else - 1)))))))"

end
