(* ===== verification/MemAccess.thy ===== *)
theory MemAccess
  imports MemTypes
begin

text \<open>
  The four access functions of \<^verbatim>\<open>code/mem.c\<close> over the index and the data memory: by point
  number and data identifier (\<^verbatim>\<open>rh_mem_data_write_oop\<close>, \<^verbatim>\<open>rh_mem_data_read_oop\<close>) and by
  telecontrol address (\<^verbatim>\<open>rh_mem_data_write_iec\<close>, \<^verbatim>\<open>rh_mem_data_read_iec\<close>).  The calling thread
  is the only one that takes the mutexes, so locking a held mutex is \<open>Deadlock\<close>.
\<close>

section \<open>Mutexes\<close>

fun mutex_lock :: "lock \<Rightarrow> lock res" where
  "mutex_lock NoLock = Inl NullPtr"
| "mutex_lock Unlocked = Inr Locked"
| "mutex_lock Locked = Inl Deadlock"

fun mutex_unlock :: "lock \<Rightarrow> lock res" where
  "mutex_unlock NoLock = Inl NullPtr"
| "mutex_unlock Unlocked = Inl BadUnlock"
| "mutex_unlock Locked = Inr Unlocked"

text \<open>The mutex of device \<open>i\<close>, reached through the global index.\<close>

definition on_ied_lock :: "(lock \<Rightarrow> lock res) \<Rightarrow> nat \<Rightarrow> mem_state \<Rightarrow> mem_state res" where
  "on_ied_lock f i m =
     (case mm_pIedList (s_memMap m) of
        None \<Rightarrow> Inl NullPtr
      | Some ieds \<Rightarrow>
          bindR (upd ieds i (\<lambda>ied. bindR (f (ied_lock ied)) (\<lambda>l. Inr (ied\<lparr>ied_lock := l\<rparr>)))) (\<lambda>ieds.
            Inr (m\<lparr>s_memMap := (s_memMap m)\<lparr>mm_pIedList := Some ieds\<rparr>\<rparr>)))"

fun point_list :: "DATA_TYPE_E \<Rightarrow> POINT_MAP_T \<Rightarrow> POINT_LIST_T" where
  "point_list DATA_YC pm = yc_list pm"
| "point_list DATA_YX pm = yx_list pm"
| "point_list DATA_YM pm = ym_list pm"

fun set_point_list :: "DATA_TYPE_E \<Rightarrow> POINT_LIST_T \<Rightarrow> POINT_MAP_T \<Rightarrow> POINT_MAP_T" where
  "set_point_list DATA_YC pl pm = pm\<lparr>yc_list := pl\<rparr>"
| "set_point_list DATA_YX pl pm = pm\<lparr>yx_list := pl\<rparr>"
| "set_point_list DATA_YM pl pm = pm\<lparr>ym_list := pl\<rparr>"

definition on_list_lock :: "(lock \<Rightarrow> lock res) \<Rightarrow> DATA_TYPE_E \<Rightarrow> mem_state \<Rightarrow> mem_state res" where
  "on_list_lock f ty m =
     (let pl = point_list ty (s_pointMap m) in
      bindR (f (pl_lock pl)) (\<lambda>l.
        Inr (m\<lparr>s_pointMap := set_point_list ty (pl\<lparr>pl_lock := l\<rparr>) (s_pointMap m)\<rparr>)))"

section \<open>Linear searches\<close>

text \<open>
  The loop \<^verbatim>\<open>for(i = 0; i < nNum; ++i) if(P(list[i])) break;\<close>: the first index that satisfies
  \<open>P\<close>, or \<open>nNum\<close>.
\<close>

fun scan_loop :: "('a \<Rightarrow> bool res) \<Rightarrow> 'a list \<Rightarrow> nat \<Rightarrow> nat \<Rightarrow> nat res" where
  "scan_loop P xs i 0 = Inr i"
| "scan_loop P xs i (Suc n) =
     bindR (rd xs i) (\<lambda>x. bindR (P x) (\<lambda>b.
       if b then Inr i else scan_loop P xs (Suc i) n))"

definition scan :: "('a \<Rightarrow> bool res) \<Rightarrow> 'a list option \<Rightarrow> int \<Rightarrow> nat res" where
  "scan P p nNum =
     (if nNum \<le> 0 then Inr 0
      else case p of None \<Rightarrow> Inl NullPtr | Some xs \<Rightarrow> scan_loop P xs 0 (nat nNum))"

definition rdp :: "'a list option \<Rightarrow> nat \<Rightarrow> 'a res" where
  "rdp p i = (case p of None \<Rightarrow> Inl NullPtr | Some xs \<Rightarrow> rd xs i)"

definition str_eq :: "u8 list \<Rightarrow> u8 list \<Rightarrow> bool res" where
  "str_eq a b = bindR (strcmp a b) (\<lambda>r. Inr (r = 0))"

section \<open>Data memory\<close>

definition data_addr :: "IED_DO_LIST_T \<Rightarrow> DOTTYPE_DO_UNIT_T \<Rightarrow> int" where
  "data_addr pDo u = uint (dl_offset pDo) + du_offset u"

definition mem_write :: "mem_state \<Rightarrow> int \<Rightarrow> u8 list \<Rightarrow> int \<Rightarrow> mem_state res" where
  "mem_write m a data datalen =
     (case s_pDataMem m of
        None \<Rightarrow> if datalen \<le> 0 then Inr m else Inl NullPtr
      | Some mem \<Rightarrow> bindR (smallcpy mem a data 0 datalen) (\<lambda>mem.
                      Inr (m\<lparr>s_pDataMem := Some mem\<rparr>)))"

definition mem_read :: "mem_state \<Rightarrow> u8 list \<Rightarrow> int \<Rightarrow> int \<Rightarrow> u8 list res" where
  "mem_read m data a len =
     (case s_pDataMem m of
        None \<Rightarrow> if len \<le> 0 then Inr data else Inl NullPtr
      | Some mem \<Rightarrow> smallcpy data 0 mem a len)"

section \<open>Access by identifier\<close>

text \<open>
  The four searches both functions start with: device by point number, entry by identifier,
  object by name, field by type name.  \<open>None\<close> is the early \<^verbatim>\<open>return -1\<close>.
\<close>

definition find_oop ::
  "mem_state \<Rightarrow> u16 \<Rightarrow> u32 \<Rightarrow> (nat \<times> IED_DO_LIST_T \<times> DOTTYPE_DO_UNIT_T) option res" where
  "find_oop m nPn nDi =
     (let pMapList = s_memMap m; ids = id_list (s_pointMap m) in
      bindR (scan (\<lambda>ied. Inr (nPn = ied_nPn ied)) (mm_pIedList pMapList) (mm_nNum pMapList)) (\<lambda>i.
      if int i \<ge> mm_nNum pMapList then Inr None else
      bindR (rdp (mm_pIedList pMapList) i) (\<lambda>pied.
      bindR (scan (\<lambda>it. Inr (nDi = id_id it)) (il_pItem ids) (il_nNum ids)) (\<lambda>j.
      if int j \<ge> il_nNum ids then Inr None else
      bindR (rdp (il_pItem ids) j) (\<lambda>pIDItem.
      bindR (scan (\<lambda>d. str_eq (id_do_tag pIDItem) (dl_do_tag d)) (ied_pDoList pied) (ied_nNum pied)) (\<lambda>k.
      if int k \<ge> ied_nNum pied then Inr None else
      bindR (rdp (ied_pDoList pied) k) (\<lambda>pDo.
      bindR (scan (\<lambda>u. str_eq (id_dotype_tag pIDItem) (du_dotype_tag u))
               (dl_pDotList_698 pDo) (dl_nNum pDo)) (\<lambda>l.
      if int l \<ge> dl_nNum pDo then Inr None else
      bindR (rdp (dl_pDotList_698 pDo) l) (\<lambda>pDotType.
        Inr (Some (i, pDo, pDotType)))))))))))"

definition rh_mem_data_write_oop ::
  "mem_state \<Rightarrow> u16 \<Rightarrow> u32 \<Rightarrow> u8 list \<Rightarrow> int \<Rightarrow> (mem_state \<times> int) res" where
  "rh_mem_data_write_oop m nPn nDi data datalen =
     bindR (find_oop m nPn nDi) (\<lambda>r.
     case r of
       None \<Rightarrow> Inr (m, - 1)
     | Some (i, pDo, pDotType) \<Rightarrow>
         bindR (on_ied_lock mutex_lock i m) (\<lambda>m.
         bindR (mem_write m (data_addr pDo pDotType) data datalen) (\<lambda>m.
         bindR (on_ied_lock mutex_unlock i m) (\<lambda>m. Inr (m, 0)))))"

text \<open>The result is the state, the caller's buffer and the return value.\<close>

definition rh_mem_data_read_oop ::
  "mem_state \<Rightarrow> u16 \<Rightarrow> u32 \<Rightarrow> u8 list \<Rightarrow> int \<Rightarrow> (mem_state \<times> u8 list \<times> int) res" where
  "rh_mem_data_read_oop m nPn nDi data datalen =
     bindR (find_oop m nPn nDi) (\<lambda>r.
     case r of
       None \<Rightarrow> Inr (m, data, - 1)
     | Some (i, pDo, pDotType) \<Rightarrow>
         bindR (on_ied_lock mutex_lock i m) (\<lambda>m.
         bindR (if datalen < du_dataLen pDotType
                then mem_read m data (data_addr pDo pDotType) datalen
                else mem_read m data (data_addr pDo pDotType) (du_dataLen pDotType)) (\<lambda>data.
         bindR (on_ied_lock mutex_unlock i m) (\<lambda>m. Inr (m, data, du_dataLen pDotType)))))"

section \<open>Access by address\<close>

definition data_type_of :: "u8 \<Rightarrow> DATA_TYPE_E option" where
  "data_type_of b =
     (if b = 0 then Some DATA_YC else if b = 1 then Some DATA_YX else if b = 2 then Some DATA_YM
      else None)"

definition rdpi :: "'a list option \<Rightarrow> int \<Rightarrow> 'a res" where
  "rdpi p i = (case p of None \<Rightarrow> Inl NullPtr | Some xs \<Rightarrow> rdi xs i)"

text \<open>
  The bisection over the point table, written in both address functions: the interval is
  \<open>[nStart, nEnd]\<close> and starts as \<open>[0, nNum]\<close>.  \<open>None\<close> is \<^verbatim>\<open>nStart > nEnd\<close> after the loop.
\<close>

function bisect :: "POINT_ITEM_T list option \<Rightarrow> int \<Rightarrow> int \<Rightarrow> int \<Rightarrow> int option res" where
  "bisect p addr_start nStart nEnd =
     (if nStart \<le> nEnd then
        bindR (rdpi p ((nStart + nEnd) div 2)) (\<lambda>x.
          if pt_addr x = addr_start then Inr (Some ((nStart + nEnd) div 2))
          else if pt_addr x < addr_start then bisect p addr_start ((nStart + nEnd) div 2 + 1) nEnd
          else bisect p addr_start nStart ((nStart + nEnd) div 2 - 1))
      else Inr None)"
  by pat_completeness auto
termination
  by (relation "measure (\<lambda>(p, a, s, e). nat (e - s + 1))") auto

declare bisect.simps [simp del]

definition find_addr :: "POINT_LIST_T \<Rightarrow> int \<Rightarrow> int option res" where
  "find_addr pl addr_start = bisect (pl_point pl) addr_start 0 (pl_nNum pl)"

text \<open>Which of the early exits of the address functions is taken, or the entry found.\<close>

datatype iec_find =
    NoAddr | NoIed | NoDo | NoDot | Found nat IED_DO_LIST_T "DOTTYPE_DO_UNIT_T list option" nat

definition find_iec :: "mem_state \<Rightarrow> DATA_TYPE_E \<Rightarrow> int \<Rightarrow> iec_find res" where
  "find_iec m ty addr_start =
     (let pMapList = s_memMap m; pList = point_list ty (s_pointMap m) in
      bindR (find_addr pList addr_start) (\<lambda>r.
      case r of None \<Rightarrow> Inr NoAddr | Some nMid \<Rightarrow>
      bindR (rdpi (pl_point pList) nMid) (\<lambda>point.
      bindR (scan (\<lambda>ied. str_eq (pt_ied_tag point) (ied_tag ied))
               (mm_pIedList pMapList) (mm_nNum pMapList)) (\<lambda>i.
      if int i \<ge> mm_nNum pMapList then Inr NoIed else
      bindR (rdp (mm_pIedList pMapList) i) (\<lambda>pied.
      bindR (scan (\<lambda>d. str_eq (pt_do_tag point) (dl_do_tag d)) (ied_pDoList pied) (ied_nNum pied)) (\<lambda>k.
      if int k \<ge> ied_nNum pied then Inr NoDo else
      bindR (rdp (ied_pDoList pied) k) (\<lambda>pDo.
      bindR (scan (\<lambda>u. str_eq (pt_dotype_tag point) (du_dotype_tag u))
               (dl_pDotList_104 pDo) (dl_nNum pDo)) (\<lambda>l.
      if int l \<ge> dl_nNum pDo then Inr NoDot
      else Inr (Found i pDo (dl_pDotList_104 pDo) l)))))))))"

text \<open>
  The writer leaves the device mutex locked on success and the table mutex locked when the
  type name is not found, as the code does.
\<close>

definition rh_mem_data_write_iec ::
  "mem_state \<Rightarrow> u8 \<Rightarrow> int \<Rightarrow> int \<Rightarrow> u8 list \<Rightarrow> int \<Rightarrow> (mem_state \<times> int) res" where
  "rh_mem_data_write_iec m dataType addr_start nNum data datalen =
     (case data_type_of dataType of
        None \<Rightarrow> Inr (m, - 1)
      | Some ty \<Rightarrow>
          bindR (on_list_lock mutex_lock ty m) (\<lambda>m.
          bindR (find_iec m ty addr_start) (\<lambda>r.
          case r of
            NoAddr \<Rightarrow> bindR (on_list_lock mutex_unlock ty m) (\<lambda>m. Inr (m, - 1))
          | NoIed \<Rightarrow> bindR (on_list_lock mutex_unlock ty m) (\<lambda>m. Inr (m, - 1))
          | NoDo \<Rightarrow> bindR (on_list_lock mutex_unlock ty m) (\<lambda>m. Inr (m, - 1))
          | NoDot \<Rightarrow> Inr (m, 0)
          | Found i pDo us l \<Rightarrow>
              bindR (rdp us l) (\<lambda>pDotType.
              bindR (on_ied_lock mutex_lock i m) (\<lambda>m.
              bindR (mem_write m (data_addr pDo pDotType) data datalen) (\<lambda>m.
              bindR (on_list_lock mutex_unlock ty m) (\<lambda>m. Inr (m, 0))))))))"

text \<open>The total length of \<open>nNum\<close> consecutive fields from index \<open>l\<close>.\<close>

fun sum_lens :: "DOTTYPE_DO_UNIT_T list option \<Rightarrow> nat \<Rightarrow> nat \<Rightarrow> int \<Rightarrow> int res" where
  "sum_lens us l 0 acc = Inr acc"
| "sum_lens us l (Suc n) acc =
     bindR (rdp us l) (\<lambda>u. bindR (addi acc (du_dataLen u)) (\<lambda>acc. sum_lens us (Suc l) n acc))"

text \<open>The reader returns with the table mutex held when the device is not found.\<close>

definition rh_mem_data_read_iec ::
  "mem_state \<Rightarrow> u8 \<Rightarrow> int \<Rightarrow> int \<Rightarrow> u8 list \<Rightarrow> int \<Rightarrow> (mem_state \<times> u8 list \<times> int) res" where
  "rh_mem_data_read_iec m dataType addr_start nNum data sz =
     (case data_type_of dataType of
        None \<Rightarrow> Inr (m, data, - 1)
      | Some ty \<Rightarrow>
          bindR (on_list_lock mutex_lock ty m) (\<lambda>m.
          bindR (find_iec m ty addr_start) (\<lambda>r.
          case r of
            NoAddr \<Rightarrow> bindR (on_list_lock mutex_unlock ty m) (\<lambda>m. Inr (m, data, - 1))
          | NoIed \<Rightarrow> Inr (m, data, - 1)
          | NoDo \<Rightarrow> bindR (on_list_lock mutex_unlock ty m) (\<lambda>m. Inr (m, data, - 1))
          | NoDot \<Rightarrow> bindR (on_list_lock mutex_unlock ty m) (\<lambda>m. Inr (m, data, - 1))
          | Found i pDo us l \<Rightarrow>
              bindR (sum_lens us l (nat nNum) 0) (\<lambda>datalen.
              if datalen > sz
              then bindR (on_list_lock mutex_unlock ty m) (\<lambda>m. Inr (m, data, - 1))
              else
                bindR (rdp us l) (\<lambda>pDotType.
                bindR (on_ied_lock mutex_lock i m) (\<lambda>m.
                bindR (mem_read m data (data_addr pDo pDotType) datalen) (\<lambda>data.
                bindR (on_ied_lock mutex_unlock i m) (\<lambda>m.
                bindR (on_list_lock mutex_unlock ty m) (\<lambda>m. Inr (m, data, datalen))))))))))"

end
