(* ===== verification/DataLink.thy ===== *)
theory DataLink
  imports RhPrelude
begin

text \<open>
  The contract of an access path to named fields of a block of bytes, for accesses that fit it:
  the data memory itself is such a path, and so is the mailbox with the data server behind it.
  Sequences of accesses through a path are compared with a reference that only knows where each
  field lies.
\<close>

datatype 'k access = Put 'k "u8 list" | Get 'k "u8 list"

text \<open>
  The reference: the new bytes, the caller's buffer and the return value.  \<open>Get\<close> carries the
  content of the caller's buffer before the call.
\<close>

fun ref_step :: "('k \<Rightarrow> (nat \<times> nat) option) \<Rightarrow> u8 list \<Rightarrow> 'k access \<Rightarrow> u8 list \<times> u8 list \<times> int" where
  "ref_step field cells (Put k data) =
     (case field k of None \<Rightarrow> (cells, [], - 1) | Some (a, n) \<Rightarrow> (patch cells a data, [], 0))"
| "ref_step field cells (Get k buf) =
     (case field k of
        None \<Rightarrow> (cells, buf, - 1)
      | Some (a, n) \<Rightarrow> (cells, patch buf 0 (take n (drop a cells)), int n))"

fun ref_run ::
  "('k \<Rightarrow> (nat \<times> nat) option) \<Rightarrow> u8 list \<Rightarrow> 'k access list \<Rightarrow> u8 list \<times> (u8 list \<times> int) list" where
  "ref_run field cells [] = (cells, [])"
| "ref_run field cells (x # xs) =
     (let (cells, r) = ref_step field cells x; (cells, rs) = ref_run field cells xs in (cells, r # rs))"

lemma ref_run_append:
  "ref_run f bs (xs @ ys) = (let (bs, rs) = ref_run f bs xs; (bs, ss) = ref_run f bs ys in (bs, rs @ ss))"
  by (induction xs arbitrary: bs) (simp_all add: Let_def split: prod.splits)

lemma fst_ref_run_append: "fst (ref_run f bs (xs @ ys)) = fst (ref_run f (fst (ref_run f bs xs)) ys)"
  by (simp add: ref_run_append Let_def split: prod.splits)

text \<open>Accesses that leave a window alone, and writes that stay inside the block.\<close>

fun apart :: "('k \<Rightarrow> (nat \<times> nat) option) \<Rightarrow> nat \<Rightarrow> nat \<Rightarrow> 'k access \<Rightarrow> bool" where
  "apart field a n (Put k data) =
     (case field k of None \<Rightarrow> True | Some (b, _) \<Rightarrow> b + length data \<le> a \<or> a + n \<le> b)"
| "apart field a n (Get k buf) = True"

fun inside :: "('k \<Rightarrow> (nat \<times> nat) option) \<Rightarrow> nat \<Rightarrow> 'k access \<Rightarrow> bool" where
  "inside field len (Put k data) = (case field k of None \<Rightarrow> True | Some (a, _) \<Rightarrow> a + length data \<le> len)"
| "inside field len (Get k buf) = True"

lemma ref_step_apart:
  assumes "inside f (length bs) x"
  shows "length (fst (ref_step f bs x)) = length bs"
    and "apart f a n x \<Longrightarrow> take n (drop a (fst (ref_step f bs x))) = take n (drop a bs)"
  using assms window_patch_other [of _ _ bs a n] by (cases x; fastforce split: option.splits)+

lemma ref_run_Cons: "fst (ref_run f bs (x # xs)) = fst (ref_run f (fst (ref_step f bs x)) xs)"
  by (simp add: Let_def split: prod.splits)

lemma ref_run_apart:
  assumes "list_all (inside f (length bs)) xs"
  shows "length (fst (ref_run f bs xs)) = length bs"
    and "list_all (apart f a n) xs \<Longrightarrow> take n (drop a (fst (ref_run f bs xs))) = take n (drop a bs)"
  using assms
proof (induction xs arbitrary: bs)
  case (Cons x xs)
  { case 1 then have "length (fst (ref_step f bs x)) = length bs" using ref_step_apart(1) [of f bs x] by simp
    with 1 show ?case using Cons.IH(1) [of "fst (ref_step f bs x)"] by (simp add: ref_run_Cons del: ref_run.simps) }
  { case 2 then have "length (fst (ref_step f bs x)) = length bs" using ref_step_apart(1) [of f bs x] by simp
    with 2 show ?case using Cons.IH(2) [of "fst (ref_step f bs x)"] ref_step_apart(2) [of f bs x a n] by (simp add: ref_run_Cons del: ref_run.simps) }
qed simp_all

text \<open>
  The accesses a path with transfers of at most \<open>cap\<close> bytes carries: known fields, writes that
  stay inside the block, reads of fields that are not empty into buffers that hold them.
\<close>

fun fits_access :: "('k \<Rightarrow> (nat \<times> nat) option) \<Rightarrow> nat \<Rightarrow> nat \<Rightarrow> 'k access \<Rightarrow> bool" where
  "fits_access field len cap (Put k data) =
     (case field k of None \<Rightarrow> False | Some (a, n) \<Rightarrow> length data \<le> cap \<and> a + length data \<le> len)"
| "fits_access field len cap (Get k buf) =
     (case field k of None \<Rightarrow> False | Some (a, n) \<Rightarrow> 0 < n \<and> n \<le> cap \<and> n \<le> length buf \<and> length buf < 2 ^ 31)"

text \<open>A sequence of accesses through the operations of a path.\<close>

fun path_step ::
  "('s \<Rightarrow> 'k \<Rightarrow> u8 list \<Rightarrow> ('s \<times> int) res) \<Rightarrow> ('s \<Rightarrow> 'k \<Rightarrow> u8 list \<Rightarrow> ('s \<times> u8 list \<times> int) res) \<Rightarrow>
   's \<Rightarrow> 'k access \<Rightarrow> ('s \<times> u8 list \<times> int) res" where
  "path_step put get s (Put k data) = bindR (put s k data) (\<lambda>(s, r). Inr (s, [], r))"
| "path_step put get s (Get k buf) = get s k buf"

fun path_run ::
  "('s \<Rightarrow> 'k \<Rightarrow> u8 list \<Rightarrow> ('s \<times> int) res) \<Rightarrow> ('s \<Rightarrow> 'k \<Rightarrow> u8 list \<Rightarrow> ('s \<times> u8 list \<times> int) res) \<Rightarrow>
   's \<Rightarrow> 'k access list \<Rightarrow> ('s \<times> (u8 list \<times> int) list) res" where
  "path_run put get s [] = Inr (s, [])"
| "path_run put get s (x # xs) =
     bindR (path_step put get s x) (\<lambda>(s, r).
     bindR (path_run put get s xs) (\<lambda>(s, rs). Inr (s, r # rs)))"

text \<open>\<open>ok b\<close> allows \<open>b\<close> further accesses.\<close>

locale data_link =
  fixes cap :: nat
    and ok :: "nat \<Rightarrow> 's \<Rightarrow> bool"
    and field :: "'s \<Rightarrow> 'k \<Rightarrow> (nat \<times> nat) option"
    and cells :: "'s \<Rightarrow> u8 list"
    and put :: "'s \<Rightarrow> 'k \<Rightarrow> u8 list \<Rightarrow> ('s \<times> int) res"
    and get :: "'s \<Rightarrow> 'k \<Rightarrow> u8 list \<Rightarrow> ('s \<times> u8 list \<times> int) res"
  assumes put_known: "ok (Suc b) s \<Longrightarrow> field s k = Some (a, n) \<Longrightarrow> length data \<le> cap \<Longrightarrow>
      a + length data \<le> length (cells s) \<Longrightarrow>
      \<exists>s'. put s k data = Inr (s', 0) \<and> ok b s' \<and> field s' = field s \<and> cells s' = patch (cells s) a data"
    and get_known: "ok (Suc b) s \<Longrightarrow> field s k = Some (a, n) \<Longrightarrow> 0 < n \<Longrightarrow> n \<le> cap \<Longrightarrow> n \<le> length buf \<Longrightarrow>
      length buf < 2 ^ 31 \<Longrightarrow>
      \<exists>s'. get s k buf = Inr (s', patch buf 0 (take n (drop a (cells s))), int n) \<and> ok b s'
        \<and> field s' = field s \<and> cells s' = cells s"
begin

lemma step_refines:
  assumes "ok (Suc b) s" and "fits_access (field s) (length (cells s)) cap x"
  shows "\<exists>s'. path_step put get s x = Inr (s', snd (ref_step (field s) (cells s) x)) \<and> ok b s'
     \<and> field s' = field s \<and> cells s' = fst (ref_step (field s) (cells s) x)"
proof (cases x)
  case (Put k data)
  with assms(2) obtain a n where "field s k = Some (a, n)" "length data \<le> cap" "a + length data \<le> length (cells s)"
    by (auto split: option.splits)
  with put_known [OF assms(1) this] Put show ?thesis by auto
next
  case (Get k buf)
  with assms(2) obtain a n where f: "field s k = Some (a, n)"
    and "0 < n" "n \<le> cap" "n \<le> length buf" "length buf < 2 ^ 31"
    by (auto split: option.splits)
  with get_known [OF assms(1) f this(2-5)] Get show ?thesis by auto
qed

lemma ref_step_length:
  assumes "fits_access f (length bs) cap x"
  shows "length (fst (ref_step f bs x)) = length bs"
  using assms by (cases x) (auto split: option.splits)

lemma run_refines:
  assumes "ok (b + length xs) s" and "list_all (fits_access (field s) (length (cells s)) cap) xs"
  shows "\<exists>s'. path_run put get s xs = Inr (s', snd (ref_run (field s) (cells s) xs)) \<and> ok b s'
     \<and> field s' = field s \<and> cells s' = fst (ref_run (field s) (cells s) xs)"
  using assms
proof (induction xs arbitrary: s)
  case (Cons x xs)
  from Cons.prems have "ok (Suc (b + length xs)) s" "fits_access (field s) (length (cells s)) cap x" by simp_all
  from step_refines [OF this] obtain s1 where
    s1: "path_step put get s x = Inr (s1, snd (ref_step (field s) (cells s) x))" "ok (b + length xs) s1"
      "field s1 = field s" "cells s1 = fst (ref_step (field s) (cells s) x)" by blast
  moreover have "length (cells s1) = length (cells s)"
    using ref_step_length [of "field s" "cells s" x] Cons.prems(2) s1(4) by simp
  ultimately obtain s2 where
    "path_run put get s1 xs = Inr (s2, snd (ref_run (field s1) (cells s1) xs))" "ok b s2"
      "field s2 = field s1" "cells s2 = fst (ref_run (field s1) (cells s1) xs)"
    using Cons.IH [of s1] Cons.prems(2) by auto
  with s1 show ?case by (auto simp: Let_def split: prod.splits)
qed simp

end

end
