(* ===== verification/MemStore.thy ===== *)
theory MemStore
  imports MemAccess DataLink
begin

text \<open>
  What the access functions of \<^verbatim>\<open>code/mem.c\<close> compute on a well-formed index.  \<open>wf_mem\<close> says the
  counters are the lengths of the tables and the names are terminated; then the four nested
  searches never fault and are the reference lookup \<open>oop_lookup\<close>, and reading and writing a
  field are a window of the data memory.  The locale \<open>data_store\<close> is the contract of such a
  store, interpreted on the two functions the message server calls.
\<close>

section \<open>Well-formed indices\<close>

definition table :: "('a \<Rightarrow> bool) \<Rightarrow> 'a list option \<Rightarrow> int \<Rightarrow> bool" where
  "table ok p n = (case p of None \<Rightarrow> n \<le> 0 | Some xs \<Rightarrow> n = int (length xs) \<and> list_all ok xs)"

definition elems :: "'a list option \<Rightarrow> 'a list" where
  "elems p = (case p of None \<Rightarrow> [] | Some xs \<Rightarrow> xs)"

definition wf_unit :: "DOTTYPE_DO_UNIT_T \<Rightarrow> bool" where
  "wf_unit u \<longleftrightarrow> terminated (du_dotype_tag u)"

definition wf_do :: "IED_DO_LIST_T \<Rightarrow> bool" where
  "wf_do d \<longleftrightarrow> terminated (dl_do_tag d) \<and> table wf_unit (dl_pDotList_104 d) (dl_nNum d)
      \<and> table wf_unit (dl_pDotList_698 d) (dl_nNum d)"

definition wf_ied :: "IED_LIST_T \<Rightarrow> bool" where
  "wf_ied d \<longleftrightarrow> terminated (ied_tag d) \<and> table wf_do (ied_pDoList d) (ied_nNum d)"

definition wf_id :: "ID_ITEM_T \<Rightarrow> bool" where
  "wf_id it \<longleftrightarrow> terminated (id_do_tag it) \<and> terminated (id_dotype_tag it)"

definition wf_mem :: "mem_state \<Rightarrow> bool" where
  "wf_mem m \<longleftrightarrow> table wf_ied (mm_pIedList (s_memMap m)) (mm_nNum (s_memMap m))
     \<and> table wf_id (il_pItem (id_list (s_pointMap m))) (il_nNum (id_list (s_pointMap m)))"

text \<open>No device mutex is held: the state between two calls.\<close>

definition ieds_free :: "mem_state \<Rightarrow> bool" where
  "ieds_free m \<longleftrightarrow> list_all (\<lambda>d. ied_nNum d > 0 \<longrightarrow> ied_lock d = Unlocked) (elems (mm_pIedList (s_memMap m)))"

section \<open>Searches\<close>

definition find_ix :: "('a \<Rightarrow> bool) \<Rightarrow> 'a list \<Rightarrow> nat option" where
  "find_ix p xs = (if list_ex p xs then Some (length (takeWhile (\<lambda>x. \<not> p x) xs)) else None)"

lemma scan_loop_closed:
  assumes "\<And>x. x \<in> set xs \<Longrightarrow> P x = Inr (p x)" and "i + n = length xs"
  shows "scan_loop P xs i n = Inr (i + length (takeWhile (\<lambda>x. \<not> p x) (drop i xs)))"
  using assms(2)
proof (induction n arbitrary: i)
  case (Suc n)
  then have i: "i < length xs" by simp
  then have "drop i xs = xs ! i # drop (Suc i) xs" by (simp add: Cons_nth_drop_Suc)
  with i Suc assms(1) [of "xs ! i"] show ?case by simp
qed simp

lemma scan_closed:
  assumes t: "table ok p n" and P: "\<And>x. x \<in> set (elems p) \<Longrightarrow> P x = Inr (q x)"
  shows "scan P p n = Inr (length (takeWhile (\<lambda>x. \<not> q x) (elems p)))"
proof (cases p)
  case None
  with t show ?thesis by (simp add: scan_def table_def elems_def)
next
  case (Some xs)
  with t have n: "n = int (length xs)" by (simp add: table_def)
  show ?thesis
  proof (cases "xs = []")
    case False
    with n Some P show ?thesis
      using scan_loop_closed [of xs P q 0 "length xs"] by (simp add: scan_def elems_def)
  qed (use n Some in \<open>simp add: scan_def elems_def\<close>)
qed

lemma table_elems: "table ok p n \<Longrightarrow> x \<in> set (elems p) \<Longrightarrow> ok x"
  by (auto simp: table_def elems_def list_all_iff split: option.splits)

lemma find_ix_Some:
  "find_ix q xs = Some i \<Longrightarrow> i < length xs \<and> q (xs ! i) \<and> (\<forall>j<i. \<not> q (xs ! j))"
  unfolding find_ix_def
proof (induction xs arbitrary: i)
  case (Cons x xs)
  show ?case
  proof (cases "q x")
    case False
    with Cons.prems have ex: "list_ex q xs" and i: "i = Suc (length (takeWhile (\<lambda>x. \<not> q x) xs))"
      by (auto split: if_splits)
    with Cons.IH [of "i - 1"] have "i - 1 < length xs \<and> q (xs ! (i - 1)) \<and> (\<forall>j<i - 1. \<not> q (xs ! j))"
      by simp
    with i False show ?thesis by (auto simp: nth_Cons split: nat.splits)
  qed (use Cons.prems in auto)
qed simp

text \<open>
  The step every search is followed by: leave with \<open>none\<close> when nothing was found, else go on with the
  element.
\<close>

lemma scan_then:
  assumes t: "table ok p n" and P: "\<And>x. ok x \<Longrightarrow> P x = Inr (q x)"
  shows "bindR (scan P p n) (\<lambda>i. if int i \<ge> n then none else bindR (rdp p i) (f i)) =
     (case find_ix q (elems p) of None \<Rightarrow> none | Some i \<Rightarrow> f i (elems p ! i))"
proof -
  let ?k = "length (takeWhile (\<lambda>x. \<not> q x) (elems p))"
  have s: "scan P p n = Inr ?k"
    using t P table_elems [OF t] by (intro scan_closed) auto
  show ?thesis
  proof (cases "list_ex q (elems p)")
    case True
    then have k: "?k < length (elems p)" using find_ix_Some [of q "elems p" ?k] by (simp add: find_ix_def)
    with t have "int ?k < n" "rdp p ?k = Inr (elems p ! ?k)"
      by (auto simp: table_def elems_def rdp_def split: option.splits)
    with True s show ?thesis by (simp add: find_ix_def)
  next
    case False
    then have "takeWhile (\<lambda>x. \<not> q x) (elems p) = elems p"
      by (simp add: takeWhile_eq_all_conv list_ex_iff)
    then have "?k = length (elems p)" by (rule arg_cong)
    with t have "n \<le> int ?k" by (auto simp: table_def elems_def split: option.splits)
    with False s show ?thesis by (simp add: find_ix_def)
  qed
qed

lemma str_eq_closed: "terminated a \<Longrightarrow> terminated b \<Longrightarrow> str_eq a b = Inr (ccont a = ccont b)"
  using strcmp_terminated [of a b] by (auto simp: str_eq_def)

section \<open>The reference lookup\<close>

definition oop_lookup ::
  "mem_state \<Rightarrow> u16 \<Rightarrow> u32 \<Rightarrow> (nat \<times> IED_DO_LIST_T \<times> DOTTYPE_DO_UNIT_T) option" where
  "oop_lookup m nPn nDi =
     (let ieds = elems (mm_pIedList (s_memMap m)); ids = elems (il_pItem (id_list (s_pointMap m))) in
      case find_ix (\<lambda>d. nPn = ied_nPn d) ieds of None \<Rightarrow> None | Some i \<Rightarrow>
      (case find_ix (\<lambda>it. nDi = id_id it) ids of None \<Rightarrow> None | Some j \<Rightarrow>
      (let dos = elems (ied_pDoList (ieds ! i)) in
      case find_ix (\<lambda>d. ccont (id_do_tag (ids ! j)) = ccont (dl_do_tag d)) dos of None \<Rightarrow> None | Some k \<Rightarrow>
      (let us = elems (dl_pDotList_698 (dos ! k)) in
      case find_ix (\<lambda>u. ccont (id_dotype_tag (ids ! j)) = ccont (du_dotype_tag u)) us of
        None \<Rightarrow> None | Some l \<Rightarrow> Some (i, dos ! k, us ! l)))))"

lemma find_ix_ok: "table ok p n \<Longrightarrow> find_ix q (elems p) = Some i \<Longrightarrow> ok (elems p ! i)"
  using find_ix_Some table_elems by (metis nth_mem)

text \<open>The four searches one by one: by point number, by identifier, by object name, by type name.\<close>

lemma scan_device:
  assumes "wf_mem m"
  shows "bindR (scan (\<lambda>d. Inr (nPn = ied_nPn d)) (mm_pIedList (s_memMap m)) (mm_nNum (s_memMap m)))
       (\<lambda>i. if int i \<ge> mm_nNum (s_memMap m) then none else bindR (rdp (mm_pIedList (s_memMap m)) i) (f i)) =
     (case find_ix (\<lambda>d. nPn = ied_nPn d) (elems (mm_pIedList (s_memMap m))) of
        None \<Rightarrow> none | Some i \<Rightarrow> f i (elems (mm_pIedList (s_memMap m)) ! i))"
  using assms by (intro scan_then [where ok = wf_ied]) (simp_all add: wf_mem_def)

lemma scan_item:
  assumes "table wf_id p n"
  shows "bindR (scan (\<lambda>it. Inr (nDi = id_id it)) p n)
       (\<lambda>i. if int i \<ge> n then none else bindR (rdp p i) (f i)) =
     (case find_ix (\<lambda>it. nDi = id_id it) (elems p) of None \<Rightarrow> none | Some i \<Rightarrow> f i (elems p ! i))"
  using assms by (intro scan_then) simp_all

lemma scan_object:
  assumes "terminated t" and "wf_ied pied"
  shows "bindR (scan (\<lambda>d. str_eq t (dl_do_tag d)) (ied_pDoList pied) (ied_nNum pied))
       (\<lambda>k. if int k \<ge> ied_nNum pied then none else bindR (rdp (ied_pDoList pied) k) (f k)) =
     (case find_ix (\<lambda>d. ccont t = ccont (dl_do_tag d)) (elems (ied_pDoList pied)) of
        None \<Rightarrow> none | Some k \<Rightarrow> f k (elems (ied_pDoList pied) ! k))"
  using assms by (intro scan_then [where ok = wf_do]) (auto simp: wf_ied_def wf_do_def str_eq_closed)

lemma scan_field:
  assumes "terminated t" and "table wf_unit p n"
  shows "bindR (scan (\<lambda>u. str_eq t (du_dotype_tag u)) p n)
       (\<lambda>k. if int k \<ge> n then none else bindR (rdp p k) (f k)) =
     (case find_ix (\<lambda>u. ccont t = ccont (du_dotype_tag u)) (elems p) of
        None \<Rightarrow> none | Some k \<Rightarrow> f k (elems p ! k))"
  using assms by (intro scan_then [where ok = wf_unit]) (auto simp: wf_unit_def str_eq_closed)

lemma wf_tables:
  "wf_mem m \<Longrightarrow> table wf_ied (mm_pIedList (s_memMap m)) (mm_nNum (s_memMap m))"
  "wf_mem m \<Longrightarrow> table wf_id (il_pItem (id_list (s_pointMap m))) (il_nNum (id_list (s_pointMap m)))"
  "wf_ied d \<Longrightarrow> table wf_do (ied_pDoList d) (ied_nNum d)"
  by (simp_all add: wf_mem_def wf_ied_def)

lemma find_oop_closed:
  assumes "wf_mem m"
  shows "find_oop m nPn nDi = Inr (oop_lookup m nPn nDi)"
proof -
  note t = wf_tables(1,2) [OF assms]
  show ?thesis
    unfolding find_oop_def oop_lookup_def Let_def scan_device [OF assms] scan_item [OF t(2)]
    using find_ix_ok [OF t(1)] find_ix_ok [OF t(2)] find_ix_ok [OF wf_tables(3)]
    by (auto simp: scan_object scan_field wf_id_def wf_do_def split: option.split)
qed

section \<open>The device mutex\<close>

text \<open>Taking and releasing the mutex around an access to the data memory restores the index.\<close>

definition with_data :: "u8 list \<Rightarrow> mem_state \<Rightarrow> mem_state" where
  "with_data bs m = m\<lparr>s_pDataMem := Some bs\<rparr>"

lemma on_ied_lock_Inr:
  assumes "i < length (elems (mm_pIedList (s_memMap m)))"
    and "f (ied_lock (elems (mm_pIedList (s_memMap m)) ! i)) = Inr l"
  shows "on_ied_lock f i m = Inr (m\<lparr>s_memMap := (s_memMap m)\<lparr>mm_pIedList :=
     Some ((elems (mm_pIedList (s_memMap m)))[i := (elems (mm_pIedList (s_memMap m)) ! i)\<lparr>ied_lock := l\<rparr>])\<rparr>\<rparr>)"
  using assms by (auto simp: on_ied_lock_def elems_def upd_def split: option.splits)

lemma unlock_lock:
  assumes "i < length (elems (mm_pIedList (s_memMap m)))"
    and "ied_lock (elems (mm_pIedList (s_memMap m)) ! i) = Unlocked"
  obtains m' where "on_ied_lock mutex_lock i m = Inr m'"
    and "s_pDataMem m' = s_pDataMem m"
    and "on_ied_lock mutex_unlock i m' = Inr m"
    and "\<And>bs. on_ied_lock mutex_unlock i (with_data bs m') = Inr (with_data bs m)"
proof -
  let ?es = "elems (mm_pIedList (s_memMap m))"
  let ?m = "m\<lparr>s_memMap := (s_memMap m)\<lparr>mm_pIedList := Some (?es[i := (?es ! i)\<lparr>ied_lock := Locked\<rparr>])\<rparr>\<rparr>"
  have "?es \<noteq> []" using assms(1) by auto
  then have es: "mm_pIedList (s_memMap m) = Some ?es" by (auto simp: elems_def split: option.splits)
  have restore: "(?es[i := (?es ! i)\<lparr>ied_lock := Locked\<rparr>])[i := (?es ! i)\<lparr>ied_lock := Unlocked\<rparr>] = ?es"
  proof -
    have "(?es ! i)\<lparr>ied_lock := Unlocked\<rparr> = ?es ! i" using assms(2) by (cases "?es ! i") simp
    then show ?thesis by simp
  qed
  have same: "(s_memMap m)\<lparr>mm_pIedList := Some ?es\<rparr> = s_memMap m" using es by simp
  have "on_ied_lock mutex_lock i m = Inr ?m"
    using on_ied_lock_Inr [of i m mutex_lock Locked] assms by simp
  moreover have "on_ied_lock mutex_unlock i ?m = Inr m"
    using on_ied_lock_Inr [of i ?m mutex_unlock Unlocked] assms restore same by (simp add: elems_def)
  moreover have "on_ied_lock mutex_unlock i (with_data bs ?m) = Inr (with_data bs m)" for bs
    using on_ied_lock_Inr [of i "with_data bs ?m" mutex_unlock Unlocked] assms restore same
    by (simp add: elems_def with_data_def)
  ultimately show thesis using that [of ?m] by simp
qed

lemma oop_lookup_ied:
  assumes "wf_mem m" and "ieds_free m" and "oop_lookup m nPn nDi = Some (i, d, u)"
  shows "i < length (elems (mm_pIedList (s_memMap m)))
     \<and> ied_lock (elems (mm_pIedList (s_memMap m)) ! i) = Unlocked"
proof -
  let ?es = "elems (mm_pIedList (s_memMap m))"
  from assms(3) obtain q1 q2 k where i: "find_ix q1 ?es = Some i"
    and k: "find_ix q2 (elems (ied_pDoList (?es ! i))) = Some k"
    by (auto simp: oop_lookup_def Let_def split: option.splits)
  from i have lt: "i < length ?es" using find_ix_Some by blast
  from assms(1) have mm: "table wf_ied (mm_pIedList (s_memMap m)) (mm_nNum (s_memMap m))"
    by (simp add: wf_mem_def)
  have "wf_ied (?es ! i)" using find_ix_ok [OF mm i] .
  moreover have "0 < length (elems (ied_pDoList (?es ! i)))" using find_ix_Some [OF k] by auto
  ultimately have "0 < ied_nNum (?es ! i)"
    by (auto simp: wf_ied_def table_def elems_def split: option.splits)
  with assms(2) lt show ?thesis by (simp add: ieds_free_def list_all_length)
qed

section \<open>The two access functions\<close>

lemma write_oop_closed:
  assumes "wf_mem m" and "ieds_free m" and "s_pDataMem m = Some mem"
  shows "rh_mem_data_write_oop m nPn nDi data n =
     (case oop_lookup m nPn nDi of
        None \<Rightarrow> Inr (m, - 1)
      | Some (i, d, u) \<Rightarrow>
          bindR (smallcpy mem (data_addr d u) data 0 n) (\<lambda>mem'. Inr (with_data mem' m, 0)))"
proof (cases "oop_lookup m nPn nDi")
  case None
  with assms show ?thesis by (simp add: rh_mem_data_write_oop_def find_oop_closed)
next
  case (Some r)
  obtain i d u where r: "r = (i, d, u)" by (cases r) auto
  with Some have l: "oop_lookup m nPn nDi = Some (i, d, u)" by simp
  obtain m' where lock: "on_ied_lock mutex_lock i m = Inr m'" and "s_pDataMem m' = s_pDataMem m"
    and "\<And>bs. on_ied_lock mutex_unlock i (with_data bs m') = Inr (with_data bs m)"
    using oop_lookup_ied [OF assms(1,2) l] unlock_lock by metis
  with assms(3) l show ?thesis
    by (cases "smallcpy mem (data_addr d u) data 0 n")
      (simp_all add: rh_mem_data_write_oop_def find_oop_closed [OF assms(1)] mem_write_def with_data_def)
qed

lemma read_oop_closed:
  assumes "wf_mem m" and "ieds_free m" and "s_pDataMem m = Some mem"
  shows "rh_mem_data_read_oop m nPn nDi data n =
     (case oop_lookup m nPn nDi of
        None \<Rightarrow> Inr (m, data, - 1)
      | Some (i, d, u) \<Rightarrow>
          bindR (smallcpy data 0 mem (data_addr d u) (min n (du_dataLen u))) (\<lambda>data'.
            Inr (m, data', du_dataLen u)))"
proof (cases "oop_lookup m nPn nDi")
  case None
  with assms show ?thesis by (simp add: rh_mem_data_read_oop_def find_oop_closed)
next
  case (Some r)
  obtain i d u where r: "r = (i, d, u)" by (cases r) auto
  with Some have l: "oop_lookup m nPn nDi = Some (i, d, u)" by simp
  obtain m' where lock: "on_ied_lock mutex_lock i m = Inr m'" and "s_pDataMem m' = s_pDataMem m"
    and "on_ied_lock mutex_unlock i m' = Inr m"
    using oop_lookup_ied [OF assms(1,2) l] unlock_lock by metis
  moreover have "(if n < du_dataLen u then mem_read m' data (data_addr d u) n
                  else mem_read m' data (data_addr d u) (du_dataLen u))
      = smallcpy data 0 mem (data_addr d u) (min n (du_dataLen u))"
    using assms(3) \<open>s_pDataMem m' = _\<close> by (simp add: mem_read_def min_def)
  ultimately show ?thesis using l
    by (cases "smallcpy data 0 mem (data_addr d u) (min n (du_dataLen u))")
      (simp_all add: rh_mem_data_read_oop_def find_oop_closed [OF assms(1)])
qed

section \<open>The contract of a data store\<close>

text \<open>
  A store maps keys to fields, a field being an offset and a length in a block of cells.  The
  number of bytes written is the caller's, not the field's: a longer write spills into what
  follows.
\<close>

locale data_store =
  fixes valid :: "'s \<Rightarrow> bool"
    and field :: "'s \<Rightarrow> 'k \<Rightarrow> (nat \<times> nat) option"
    and cells :: "'s \<Rightarrow> u8 list"
    and put :: "'s \<Rightarrow> 'k \<Rightarrow> u8 list \<Rightarrow> int \<Rightarrow> ('s \<times> int) res"
    and get :: "'s \<Rightarrow> 'k \<Rightarrow> u8 list \<Rightarrow> int \<Rightarrow> ('s \<times> u8 list \<times> int) res"
  assumes in_cells: "valid s \<Longrightarrow> field s k = Some (a, n) \<Longrightarrow> a + n \<le> length (cells s)"
    and write_known: "valid s \<Longrightarrow> field s k = Some (a, n) \<Longrightarrow> c \<le> length data \<Longrightarrow> a + c \<le> length (cells s) \<Longrightarrow>
      \<exists>s'. put s k data (int c) = Inr (s', 0) \<and> valid s' \<and> field s' = field s
        \<and> cells s' = patch (cells s) a (take c data)"
    and write_unknown: "valid s \<Longrightarrow> field s k = None \<Longrightarrow> put s k data c' = Inr (s, - 1)"
    and read_known: "valid s \<Longrightarrow> field s k = Some (a, n) \<Longrightarrow> n \<le> length buf \<Longrightarrow> int n \<le> sz \<Longrightarrow>
      get s k buf sz = Inr (s, patch buf 0 (take n (drop a (cells s))), int n)"
    and read_unknown: "valid s \<Longrightarrow> field s k = None \<Longrightarrow> get s k buf sz = Inr (s, buf, - 1)"
begin

lemma read_after_write:
  assumes v: "valid s" and f: "field s k = Some (a, n)" and len: "length data = n"
    and buf: "n \<le> length buf" "int n \<le> sz"
  shows "\<exists>s'. put s k data (int n) = Inr (s', 0) \<and> valid s'
     \<and> get s' k buf sz = Inr (s', patch buf 0 data, int n)"
proof -
  have room: "a + n \<le> length (cells s)" using in_cells v f .
  then obtain s' where w: "put s k data (int n) = Inr (s', 0)" "valid s'" "field s' = field s"
    and c: "cells s' = patch (cells s) a data"
    using write_known [OF v f, of n data] len by auto
  have "get s' k buf sz = Inr (s', patch buf 0 (take n (drop a (cells s'))), int n)"
    using read_known w f buf by simp
  then show ?thesis using w c room len by auto
qed

lemma read_other:
  assumes v: "valid s" and f: "field s k = Some (a, n)" and len: "c \<le> length data" and room: "a + c \<le> length (cells s)"
    and g: "field s k' = Some (b, m)" and dis: "a + c \<le> b \<or> b + m \<le> a"
    and w: "put s k data (int c) = Inr (s', r)" and buf: "m \<le> length buf" "int m \<le> sz"
  shows "get s' k' buf sz = map_sum (\<lambda>x. x) (\<lambda>(_, d, l). (s', d, l)) (get s k' buf sz)"
proof -
  have s': "valid s'" "field s' = field s" and c: "cells s' = patch (cells s) a (take c data)"
    using write_known [OF v f len room] w by auto
  have lc: "length (take c data) = c" using len by simp
  have "take m (drop b (cells s')) = take m (drop b (cells s))"
    unfolding c using lc room dis by (intro window_patch_other) auto
  moreover have "get s' k' buf sz = Inr (s', patch buf 0 (take m (drop b (cells s'))), int m)"
    using read_known s' g buf by simp
  moreover have "get s k' buf sz = Inr (s, patch buf 0 (take m (drop b (cells s))), int m)"
    using read_known v g buf by simp
  ultimately show ?thesis by simp
qed

text \<open>A write of \<open>c\<close> bytes covers every field inside the window it writes, its own or not.\<close>

lemma write_covers:
  assumes v: "valid s" and f: "field s k = Some (a, n)" and len: "c \<le> length data" and room: "a + c \<le> length (cells s)"
    and g: "field s k' = Some (b, m)" and inside: "a \<le> b" "b + m \<le> a + c"
    and buf: "m \<le> length buf" "int m \<le> sz"
  shows "\<exists>s'. put s k data (int c) = Inr (s', 0)
     \<and> get s' k' buf sz = Inr (s', patch buf 0 (take m (drop (b - a) data)), int m)"
proof -
  obtain s' where w: "put s k data (int c) = Inr (s', 0)" and s': "valid s'" "field s' = field s"
    and c: "cells s' = patch (cells s) a (take c data)"
    using write_known [OF v f len room] by auto
  have lc: "length (take c data) = c" using len by simp
  have win: "take c (drop a (cells s')) = take c data"
    using window_patch [of a "take c data" "cells s"] lc room c by simp
  have "take m (drop b (cells s')) = take m (drop (b - a) (take c (drop a (cells s'))))"
    using inside by (simp add: drop_take min_def)
  also have "\<dots> = take m (drop (b - a) (take c data))" by (simp only: win)
  also have "\<dots> = take m (drop (b - a) data)"
    using inside by (simp add: drop_take min_absorb1)
  finally show ?thesis using w s' g buf read_known by simp
qed

lemma write_twice:
  assumes v: "valid s" and f: "field s k = Some (a, n)" and len: "length data = n" "length data' = n"
  shows "\<exists>s1 s2. put s k data (int n) = Inr (s1, 0) \<and> put s1 k data' (int n) = Inr (s2, 0)
     \<and> cells s2 = patch (cells s) a data'"
proof -
  have room: "a + n \<le> length (cells s)" using in_cells v f .
  obtain s1 where 1: "put s k data (int n) = Inr (s1, 0)" "valid s1" "field s1 = field s"
    "cells s1 = patch (cells s) a data"
    using write_known [OF v f, of n data] len room by auto
  obtain s2 where 2: "put s1 k data' (int n) = Inr (s2, 0)" "cells s2 = patch (cells s1) a data'"
    using write_known [of s1 k a n n data'] 1 f len room by auto
  have "patch (patch (cells s) a data) a data' = patch (cells s) a data'"
    using room len by (simp add: patch_def)
  with 1 2 show ?thesis by auto
qed

end

text \<open>A store is in particular a path for accesses that fit its fields.\<close>

sublocale data_store \<subseteq> link: data_link 2147483647 "\<lambda>_. valid" field cells
    "\<lambda>s k data. put s k data (int (length data))" "\<lambda>s k buf. get s k buf (int (length buf))"
proof
  fix s :: 's and k :: 'k and a n :: nat and data buf :: "u8 list"
  assume v: "valid s" and f: "field s k = Some (a, n)"
  show "\<exists>s'. put s k data (int (length data)) = Inr (s', 0) \<and> valid s' \<and> field s' = field s
      \<and> cells s' = patch (cells s) a data" if "a + length data \<le> length (cells s)"
    using write_known [OF v f order_refl that] by simp
  show "\<exists>s'. get s k buf (int (length buf)) = Inr (s', patch buf 0 (take n (drop a (cells s))), int n) \<and> valid s'
      \<and> field s' = field s \<and> cells s' = cells s" if "n \<le> length buf"
    using read_known [OF v f that, of "int (length buf)"] that v by simp
qed

section \<open>The data memory is such a store\<close>

definition unit_fits :: "nat \<Rightarrow> IED_DO_LIST_T \<Rightarrow> DOTTYPE_DO_UNIT_T \<Rightarrow> bool" where
  "unit_fits n d u \<longleftrightarrow> 0 \<le> data_addr d u \<and> 0 \<le> du_dataLen u \<and> data_addr d u + du_dataLen u \<le> int n"

definition do_fits :: "nat \<Rightarrow> IED_DO_LIST_T \<Rightarrow> bool" where
  "do_fits n d \<longleftrightarrow> list_all (unit_fits n d) (elems (dl_pDotList_104 d))
     \<and> list_all (unit_fits n d) (elems (dl_pDotList_698 d))"

definition index_fits :: "nat \<Rightarrow> mem_state \<Rightarrow> bool" where
  "index_fits n m \<longleftrightarrow> list_all (\<lambda>ied. list_all (do_fits n) (elems (ied_pDoList ied)))
     (elems (mm_pIedList (s_memMap m)))"

definition valid_mem :: "mem_state \<Rightarrow> bool" where
  "valid_mem m \<longleftrightarrow> wf_mem m \<and> ieds_free m
     \<and> (case s_pDataMem m of None \<Rightarrow> False | Some mem \<Rightarrow> index_fits (length mem) m)"

definition mem_cells :: "mem_state \<Rightarrow> u8 list" where
  "mem_cells m = (case s_pDataMem m of None \<Rightarrow> [] | Some mem \<Rightarrow> mem)"

definition oop_field :: "mem_state \<Rightarrow> u16 \<times> u32 \<Rightarrow> (nat \<times> nat) option" where
  "oop_field m = (\<lambda>(nPn, nDi). map_option (\<lambda>(i, d, u). (nat (data_addr d u), nat (du_dataLen u)))
     (oop_lookup m nPn nDi))"

lemma oop_lookup_fits:
  assumes "valid_mem m" and "oop_lookup m nPn nDi = Some (i, d, u)"
  shows "unit_fits (length (mem_cells m)) d u"
proof -
  let ?es = "elems (mm_pIedList (s_memMap m))"
  from assms(2) obtain q1 q2 q3 k l where i: "find_ix q1 ?es = Some i"
    and k: "find_ix q2 (elems (ied_pDoList (?es ! i))) = Some k"
    and d: "d = elems (ied_pDoList (?es ! i)) ! k"
    and l: "find_ix q3 (elems (dl_pDotList_698 d)) = Some l"
    and u: "u = elems (dl_pDotList_698 d) ! l"
    by (auto simp: oop_lookup_def Let_def split: option.splits)
  have "index_fits (length (mem_cells m)) m"
    using assms(1) by (auto simp: valid_mem_def mem_cells_def split: option.splits)
  then have "do_fits (length (mem_cells m)) d"
    using find_ix_Some [OF i] find_ix_Some [OF k] d by (simp add: index_fits_def list_all_length)
  then show ?thesis
    using find_ix_Some [OF l] u by (simp add: do_fits_def list_all_length)
qed

lemma valid_mem_cells: "valid_mem m \<Longrightarrow> s_pDataMem m = Some (mem_cells m)"
  by (auto simp: valid_mem_def mem_cells_def split: option.splits)

lemma with_data_simps [simp]:
  "s_memMap (with_data bs m) = s_memMap m" "s_pointMap (with_data bs m) = s_pointMap m"
  "s_pDataMem (with_data bs m) = Some bs" "mem_cells (with_data bs m) = bs"
  "oop_field (with_data bs m) = oop_field m"
  by (simp_all add: with_data_def mem_cells_def oop_field_def oop_lookup_def)

lemma valid_with_data:
  "valid_mem m \<Longrightarrow> length bs = length (mem_cells m) \<Longrightarrow> valid_mem (with_data bs m)"
  by (auto simp: valid_mem_def wf_mem_def ieds_free_def index_fits_def mem_cells_def split: option.splits)

definition write_key :: "mem_state \<Rightarrow> u16 \<times> u32 \<Rightarrow> u8 list \<Rightarrow> int \<Rightarrow> (mem_state \<times> int) res" where
  "write_key m = (\<lambda>(nPn, nDi). rh_mem_data_write_oop m nPn nDi)"

definition read_key ::
  "mem_state \<Rightarrow> u16 \<times> u32 \<Rightarrow> u8 list \<Rightarrow> int \<Rightarrow> (mem_state \<times> u8 list \<times> int) res" where
  "read_key m = (\<lambda>(nPn, nDi). rh_mem_data_read_oop m nPn nDi)"

interpretation oop: data_store valid_mem oop_field mem_cells write_key read_key
proof
  fix m :: mem_state and k :: "u16 \<times> u32" and a n :: nat and data buf :: "u8 list" and c c' :: nat and sz v :: int
  obtain nPn nDi where key: "k = (nPn, nDi)" by (cases k)
  assume m: "valid_mem m"
  then have wf: "wf_mem m" "ieds_free m" by (simp_all add: valid_mem_def)
  note closed = write_oop_closed [OF wf valid_mem_cells [OF m]] read_oop_closed [OF wf valid_mem_cells [OF m]]
  { assume "oop_field m k = None"
    then have "oop_lookup m nPn nDi = None" by (simp add: key oop_field_def)
    then show "write_key m k data v = Inr (m, - 1)" "read_key m k buf sz = Inr (m, buf, - 1)"
      by (simp_all add: key write_key_def read_key_def closed) }
  assume "oop_field m k = Some (a, n)"
  then obtain i d u where l: "oop_lookup m nPn nDi = Some (i, d, u)"
    and a: "a = nat (data_addr d u)" and n: "n = nat (du_dataLen u)"
    by (auto simp: key oop_field_def)
  have fits: "0 \<le> data_addr d u" "0 \<le> du_dataLen u"
      "data_addr d u + du_dataLen u \<le> int (length (mem_cells m))"
    using oop_lookup_fits [OF m l] by (simp_all add: unit_fits_def)
  then show "a + n \<le> length (mem_cells m)" using a n by linarith
  { assume c: "c \<le> length data" "a + c \<le> length (mem_cells m)"
    have "smallcpy (mem_cells m) (data_addr d u) data 0 (int c) = Inr (patch (mem_cells m) a (take c data))"
      using c a fits by (auto simp: smallcpy_closed)
    then have "write_key m k data (int c) = Inr (with_data (patch (mem_cells m) a (take c data)) m, 0)"
      by (simp add: key write_key_def closed l)
    moreover have "length (patch (mem_cells m) a (take c data)) = length (mem_cells m)"
      using c by simp
    ultimately show "\<exists>m'. write_key m k data (int c) = Inr (m', 0) \<and> valid_mem m'
        \<and> oop_field m' = oop_field m \<and> mem_cells m' = patch (mem_cells m) a (take c data)"
      using valid_with_data [OF m] by auto }
  assume buf: "n \<le> length buf" "int n \<le> sz"
  have "smallcpy buf 0 (mem_cells m) (data_addr d u) (min sz (du_dataLen u)) =
      Inr (patch buf 0 (take n (drop a (mem_cells m))))"
    using buf a n fits by (auto simp: smallcpy_closed min_def)
  then show "read_key m k buf sz = Inr (m, patch buf 0 (take n (drop a (mem_cells m))), int n)"
    using n fits by (simp add: key read_key_def closed l)
qed

lemma read_oop_closed_field:
  assumes m: "valid_mem m"
  shows "rh_mem_data_read_oop m nPn nDi buf (int (length buf)) =
     (case oop_field m (nPn, nDi) of
        None \<Rightarrow> Inr (m, buf, - 1)
      | Some (a, n) \<Rightarrow> Inr (m, patch buf 0 (take (min n (length buf)) (drop a (mem_cells m))), int n))"
proof (cases "oop_lookup m nPn nDi")
  case None
  then show ?thesis
    using oop.read_unknown [OF m, of "(nPn, nDi)" buf "int (length buf)"] by (simp add: read_key_def oop_field_def)
next
  case (Some r)
  obtain i d u where r: "r = (i, d, u)" by (cases r) auto
  have wf: "wf_mem m" "ieds_free m" using m by (simp_all add: valid_mem_def)
  have fits: "0 \<le> data_addr d u" "0 \<le> du_dataLen u"
      "data_addr d u + du_dataLen u \<le> int (length (mem_cells m))"
    using oop_lookup_fits [OF m] Some r by (simp_all add: unit_fits_def)
  have nm: "nat (min (int (length buf)) (du_dataLen u)) = min (nat (du_dataLen u)) (length buf)"
    using fits by (simp add: min_def nat_le_iff)
  have "smallcpy buf 0 (mem_cells m) (data_addr d u) (min (int (length buf)) (du_dataLen u)) =
      Inr (patch buf 0 (take (min (nat (du_dataLen u)) (length buf)) (drop (nat (data_addr d u)) (mem_cells m))))"
  proof -
    have "nat (du_dataLen u) \<le> length (mem_cells m) - nat (data_addr d u)" using fits by linarith
    then have clip: "min (length (mem_cells m) - nat (data_addr d u)) (min (nat (du_dataLen u)) (length buf))
        = min (nat (du_dataLen u)) (length buf)" by (intro min_absorb2) simp
    have "min (int (length buf)) (du_dataLen u) \<le> 0 \<Longrightarrow> min (nat (du_dataLen u)) (length buf) = 0"
      using nm by simp
    then show ?thesis using fits nm by (auto simp: smallcpy_closed patch_def clip)
  qed
  then show ?thesis
    using read_oop_closed [OF wf valid_mem_cells [OF m]] Some r fits by (simp add: oop_field_def)
qed

section \<open>Properties\<close>

text \<open>
  A small index for the witnesses: point number 1 has one object of two fields of two and three
  bytes, reached under the identifiers 5 and 6.
\<close>

definition demo_unit :: "u8 \<Rightarrow> int \<Rightarrow> int \<Rightarrow> DOTTYPE_DO_UNIT_T" where
  "demo_unit t off len = \<lparr>du_dotype_tag = [t, 0], du_offset = off, du_dataLen = len, du_id = 0\<rparr>"

definition demo_ied :: IED_LIST_T where
  "demo_ied = \<lparr>ied_tag = [100, 0], ied_nPn = 1, ied_lock = Unlocked, ied_nNum = 1, ied_pDoList = Some
     [\<lparr>dl_do_tag = [111, 0], dl_itemid = 0, dl_offset = 1, dl_dotTypeLen = 0, dl_nNum = 2,
       dl_pDotList_104 = Some [demo_unit 97 0 2, demo_unit 98 2 3],
       dl_pDotList_698 = Some [demo_unit 97 0 2, demo_unit 98 2 3]\<rparr>]\<rparr>"

definition demo_mem :: mem_state where
  "demo_mem =
     \<lparr>s_pointMap = zero_pointMap\<lparr>id_list := \<lparr>il_nNum = 2, il_pItem = Some
        [\<lparr>id_id = 5, id_do_tag = [111, 0], id_dotype_tag = [97, 0]\<rparr>,
         \<lparr>id_id = 6, id_do_tag = [111, 0], id_dotype_tag = [98, 0]\<rparr>]\<rparr>\<rparr>,
      s_memMap = \<lparr>mm_nNum = 1, mm_pIedList = Some [demo_ied]\<rparr>,
      s_pDataMem = Some [10, 11, 12, 13, 14, 15, 16]\<rparr>"

lemma demo_mem:
  "valid_mem demo_mem" "oop_field demo_mem (1, 5) = Some (1, 2)" "oop_field demo_mem (1, 6) = Some (3, 3)"
  "oop_field demo_mem (2, 5) = None" "length (mem_cells demo_mem) = 7" "wf_mem demo_mem"
  "ieds_free demo_mem"
  by code_simp+

text \<open>
  on every index whose counters match its tables and whose names are terminated, the four
  nested searches of the access functions neither fault nor read outside a table, and find
  exactly the first match at each level: the device by point number, the identifier, the object
  and the field by name.
\<close>

theorem find_oop_refines_lookup:
  assumes "wf_mem m"
  shows "find_oop m nPn nDi = Inr (oop_lookup m nPn nDi)"
  using assms by (rule find_oop_closed)

theorem find_oop_refines_lookup_witness: "find_oop demo_mem 1 6 = Inr (oop_lookup demo_mem 1 6)"
  by (rule find_oop_refines_lookup) (rule demo_mem)

text \<open>
  a field written with its own length is read back unchanged, with its length as the return
  value; the store stays valid.
\<close>

theorem oop_read_after_write:
  assumes "valid_mem m" and "oop_field m (nPn, nDi) = Some (a, n)" and "length data = n"
    and "n \<le> length buf" and "int n \<le> sz"
  shows "\<exists>m'. rh_mem_data_write_oop m nPn nDi data (int n) = Inr (m', 0) \<and> valid_mem m'
     \<and> rh_mem_data_read_oop m' nPn nDi buf sz = Inr (m', patch buf 0 data, int n)"
  using oop.read_after_write [of m "(nPn, nDi)" a n data buf sz] assms
  by (simp add: write_key_def read_key_def)

theorem oop_read_after_write_witness:
  "\<exists>m'. rh_mem_data_write_oop demo_mem 1 6 [7, 8, 9] 3 = Inr (m', 0) \<and> valid_mem m'
     \<and> rh_mem_data_read_oop m' 1 6 [0, 0, 0, 0] 4 = Inr (m', [7, 8, 9, 0], 3)"
  using oop_read_after_write [of demo_mem 1 6 3 3 "[7, 8, 9]" "[0, 0, 0, 0]" 4] demo_mem
  by (simp add: patch_def)

text \<open>
  a write leaves every field outside the bytes it writes as it was: reading such a field
  gives the same data and return value before and after.
\<close>

theorem oop_write_frame:
  assumes "valid_mem m" and "oop_field m (nPn, nDi) = Some (a, n)" and "c \<le> length data"
    and "a + c \<le> length (mem_cells m)" and "oop_field m (nPn', nDi') = Some (b, k)"
    and "a + c \<le> b \<or> b + k \<le> a" and "rh_mem_data_write_oop m nPn nDi data (int c) = Inr (m', r)"
    and "k \<le> length buf" and "int k \<le> sz"
  shows "rh_mem_data_read_oop m' nPn' nDi' buf sz =
     map_sum (\<lambda>x. x) (\<lambda>(_, d, l). (m', d, l)) (rh_mem_data_read_oop m nPn' nDi' buf sz)"
  using oop.read_other [of m "(nPn, nDi)" a n c data "(nPn', nDi')" b k m' r buf sz] assms
  by (simp add: write_key_def read_key_def)

lemma demo_write: "\<exists>m'. rh_mem_data_write_oop demo_mem 1 5 [7, 8] (int 2) = Inr (m', 0)"
  using oop.write_known [of demo_mem "(1, 5)" 1 2 2 "[7, 8]"] demo_mem by (auto simp: write_key_def)

theorem oop_write_frame_witness:
  "\<exists>m'. rh_mem_data_write_oop demo_mem 1 5 [7, 8] (int 2) = Inr (m', 0) \<and>
     rh_mem_data_read_oop m' 1 6 [0, 0, 0] 3 =
       map_sum (\<lambda>x. x) (\<lambda>(_, d, l). (m', d, l)) (rh_mem_data_read_oop demo_mem 1 6 [0, 0, 0] 3)"
proof -
  obtain m' where w: "rh_mem_data_write_oop demo_mem 1 5 [7, 8] (int 2) = Inr (m', 0)"
    using demo_write by blast
  have "rh_mem_data_read_oop m' 1 6 [0, 0, 0] 3 =
       map_sum (\<lambda>x. x) (\<lambda>(_, d, l). (m', d, l)) (rh_mem_data_read_oop demo_mem 1 6 [0, 0, 0] 3)"
    by (rule oop_write_frame [where a = 1 and n = 2 and c = 2 and b = 3 and k = 3, OF _ _ _ _ _ _ w])
      (use demo_mem in simp_all)
  with w show ?thesis by blast
qed

text \<open>
  the writer does not compare the length it is given with the length of the field: a longer
  write also replaces the fields that follow, which then read as the tail of the data.
\<close>

theorem oop_long_write_spills:
  assumes "valid_mem m" and "oop_field m (nPn, nDi) = Some (a, n)" and "c \<le> length data"
    and "a + c \<le> length (mem_cells m)" and "oop_field m (nPn', nDi') = Some (b, k)"
    and "a \<le> b" and "b + k \<le> a + c" and "k \<le> length buf" and "int k \<le> sz"
  shows "\<exists>m'. rh_mem_data_write_oop m nPn nDi data (int c) = Inr (m', 0)
     \<and> rh_mem_data_read_oop m' nPn' nDi' buf sz = Inr (m', patch buf 0 (take k (drop (b - a) data)), int k)"
  using oop.write_covers [of m "(nPn, nDi)" a n c data "(nPn', nDi')" b k buf sz] assms
  by (simp add: write_key_def read_key_def)

theorem oop_long_write_spills_witness:
  "\<exists>m'. rh_mem_data_write_oop demo_mem 1 5 [1, 2, 3, 4, 5] 5 = Inr (m', 0)
     \<and> rh_mem_data_read_oop m' 1 6 [0, 0, 0] 3 = Inr (m', [3, 4, 5], 3)"
  using oop_long_write_spills [of demo_mem 1 5 1 2 5 "[1, 2, 3, 4, 5]" 1 6 3 3 "[0, 0, 0]" 3] demo_mem
  by (simp add: patch_def)

text \<open>
  the reader on every branch: an unknown point or identifier gives -1 and an untouched buffer;
  otherwise it copies the smaller of the field's length and the buffer's, but always returns
  the field's length, and never changes the store.
\<close>

theorem oop_read_result:
  assumes "valid_mem m" and "sz = int (length buf)"
  shows "rh_mem_data_read_oop m nPn nDi buf sz =
     (case oop_field m (nPn, nDi) of
        None \<Rightarrow> Inr (m, buf, - 1)
      | Some (a, n) \<Rightarrow> Inr (m, patch buf 0 (take (min n (length buf)) (drop a (mem_cells m))), int n))"
  unfolding assms(2) by (rule read_oop_closed_field [OF assms(1)])

theorem oop_read_result_witness: "rh_mem_data_read_oop demo_mem 1 6 [0, 0] 2 = Inr (demo_mem, [13, 14], 3)"
proof -
  have "take 2 (drop 3 (mem_cells demo_mem)) = [13, 14]" by code_simp
  then show ?thesis using oop_read_result [of demo_mem 2 "[0, 0]" 1 6] demo_mem
    by (simp add: patch_def numeral_2_eq_2)
qed

end
