(* ===== verification/MemInit.thy ===== *)
theory MemInit
  imports MemMap MemStore
begin

text \<open>
  What \<^verbatim>\<open>rh_mem_map_init\<close> builds from a usable configuration.  \<open>good_cfg\<close> is the condition on the
  document: every \<^verbatim>\<open>num\<close> attribute is at most the number of entries that follow, every
  attribute the loader reads is present, names fit their 64 byte fields, and the object
  lengths add up to an \<^verbatim>\<open>int\<close>.  Under it the loader does not fault and its result is the
  index \<open>ieds_of\<close> read off the document: objects are laid out one after another in document
  order, so the windows of different objects are disjoint and inside the memory allocated.
\<close>

section \<open>Reading the document\<close>

definition attr :: "xmlNode \<Rightarrow> string \<Rightarrow> string" where
  "attr n a = (case xmlGetProp n a of None \<Rightarrow> [] | Some s \<Rightarrow> s)"

definition has :: "xmlNode \<Rightarrow> string \<Rightarrow> bool" where
  "has n a \<longleftrightarrow> xmlGetProp n a \<noteq> None"

definition dec_of :: "string \<Rightarrow> int" where
  "dec_of s = (case str2dec (cstr s) of Inl _ \<Rightarrow> 0 | Inr v \<Rightarrow> v)"

definition num_of :: "xmlNode \<Rightarrow> int" where
  "num_of n = (case xmlGetProp n ''num'' of None \<Rightarrow> 0 | Some s \<Rightarrow> dec_of s)"

definition entries :: "xmlNode \<Rightarrow> xmlNode list" where
  "entries n = filter (\<lambda>c. \<not> is_text c) (node_children n)"

definition good_name :: "string \<Rightarrow> bool" where
  "good_name s \<longleftrightarrow> xml_string s \<and> length s < 64"

definition name_over :: "u8 list \<Rightarrow> string \<Rightarrow> u8 list" where
  "name_over old s = patch old 0 (cstr s)"

lemma has_attr: "has n a \<Longrightarrow> xmlGetProp n a = Some (attr n a)"
  by (auto simp: has_def attr_def)

lemma str2dec_cstr: "str2dec (cstr s) = Inr (dec_of s)"
  by (simp add: dec_of_def str2dec_closed)

lemma get_cfg_num_of: "get_cfg_num (Some n) = Inr (num_of n)"
  by (simp add: get_cfg_num_def num_of_def str2dec_cstr split: option.split)

lemma of_char_u8_0: "(of_char c :: u8) = 0 \<longleftrightarrow> (of_char c :: int) = 0"
proof -
  have "(of_char c :: u8) = 0 \<longleftrightarrow> (of_nat (of_char c) :: u8) = 0"
    by (simp only: of_nat_of_char)
  also have "\<dots> \<longleftrightarrow> of_char c = (0 :: nat)"
    using nat_of_char_less_256 [of c]
    by (simp add: word_unat_eq_iff unat_of_nat take_bit_nat_eq_self del: of_nat_of_char)
  also have "\<dots> \<longleftrightarrow> (of_char c :: int) = 0"
    by (metis of_nat_eq_0_iff of_nat_of_char)
  finally show ?thesis .
qed

lemma ccont_cstr:
  assumes "xml_string s"
  shows "ccont (cstr s) = map of_char s"
proof -
  have "0 \<notin> set (map of_char s :: u8 list)"
    using assms of_char_u8_0 by (auto simp: xml_string_def)
  then show ?thesis unfolding cstr_def by (rule ccont_append_zero)
qed

lemma length_cstr [simp]: "length (cstr s) = Suc (length s)"
  by (simp add: cstr_def)

lemma strcpy_name:
  assumes "good_name s" and "length old = 64"
  shows "strcpy old 0 (cstr s) = Inr (name_over old s)"
  using assms ccont_cstr [of s] strlen_terminated [OF terminated_cstr, of s]
  by (simp add: good_name_def strcpy_def name_over_def)

lemma name_over:
  assumes "good_name s" and "length old = 64"
  shows "length (name_over old s) = 64" and "terminated (name_over old s)"
    and "ccont (name_over old s) = map of_char s"
proof -
  show "length (name_over old s) = 64" using assms by (simp add: good_name_def name_over_def)
  show "terminated (name_over old s)" and "ccont (name_over old s) = map of_char s"
    using strcpy_terminated [OF strcpy_name [OF assms]] assms(1)
    by (simp_all add: ccont_cstr good_name_def)
qed

section \<open>Fields\<close>

definition good_unit :: "xmlNode \<Rightarrow> bool" where
  "good_unit n \<longleftrightarrow> has n ''len'' \<and> has n ''offset'' \<and> has n ''tag'' \<and> good_name (attr n ''tag'')"

definition unit_of :: "xmlNode \<Rightarrow> DOTTYPE_DO_UNIT_T \<Rightarrow> DOTTYPE_DO_UNIT_T" where
  "unit_of n u = u\<lparr>du_dataLen := dec_of (attr n ''len''), du_offset := dec_of (attr n ''offset''),
                  du_dotype_tag := name_over (du_dotype_tag u) (attr n ''tag'')\<rparr>"

lemma load_unit_good:
  assumes "good_unit n" and "k < length us" and "length (du_dotype_tag (us ! k)) = 64"
  shows "load_unit (Some us) k n = Inr (Some (us[k := unit_of n (us ! k)]), True)"
  using assms
  by (simp add: load_unit_def good_unit_def has_attr str2dec_cstr upd_unit_def upd_def strcpy_name
      unit_of_def)

lemma load_units_good:
  assumes "length us - k \<le> length (filter (\<lambda>c. \<not> is_text c) ns)" and "k \<le> length us"
    and "list_all good_unit (take (length us - k) (filter (\<lambda>c. \<not> is_text c) ns))"
    and "\<forall>i < length us. k \<le> i \<longrightarrow> length (du_dotype_tag (us ! i)) = 64"
  shows "load_units (int (length us)) ns k (Some us) =
     Inr (Some (take k us @ map2 unit_of (take (length us - k) (filter (\<lambda>c. \<not> is_text c) ns)) (drop k us)),
          length us, True)"
  using assms
proof (induction ns arbitrary: k us)
  case (Cons n ns)
  show ?case
  proof (cases "is_text n")
    case True
    with Cons show ?thesis by simp
  next
    case False
    show ?thesis
    proof (cases "k = length us")
      case True
      with False show ?thesis by simp
    next
      case k: False
      with Cons.prems have lt: "k < length us" by simp
      then have diff: "length us - k = Suc (length us - Suc k)" by simp
      let ?us = "us[k := unit_of n (us ! k)]"
      have good: "good_unit n" using Cons.prems(3) \<open>\<not> is_text n\<close> by (simp add: diff)
      have "load_units (int (length us)) (n # ns) k (Some us) =
          load_units (int (length ?us)) ns (Suc k) (Some ?us)"
        using \<open>\<not> is_text n\<close> lt load_unit_good [OF good lt] Cons.prems(4) by simp
      also have "\<dots> = Inr (Some (take (Suc k) ?us @
          map2 unit_of (take (length ?us - Suc k) (filter (\<lambda>c. \<not> is_text c) ns)) (drop (Suc k) ?us)), length ?us, True)"
        by (rule Cons.IH) (use Cons.prems \<open>\<not> is_text n\<close> lt diff in auto)
      finally show ?thesis
        using \<open>\<not> is_text n\<close> lt diff by (simp add: take_Suc_conv_app_nth Cons_nth_drop_Suc [symmetric])
    qed
  qed
qed simp

lemma copy_units_closed:
  assumes "length xs = length ys" and "i + n \<le> length xs"
  shows "copy_units i n (Some xs) (Some ys) = Inr (Some (patch ys i (take n (drop i xs))))"
  using assms
proof (induction n arbitrary: i ys)
  case (Suc n)
  have "patch (ys[i := xs ! i]) (Suc i) (take n (drop (Suc i) xs)) = patch ys i (take (Suc n) (drop i xs))"
    using Suc.prems patch_append [of i "[xs ! i]" "take n (drop (Suc i) xs)" ys]
    by (simp add: patch_single Cons_nth_drop_Suc [symmetric])
  with Suc show ?case by (simp add: upd_unit_def upd_def)
qed simp

section \<open>Data objects\<close>

text \<open>The node with the fields of an object, when the document is good.\<close>

definition fields_node :: "xmlNode \<Rightarrow> xmlNode \<Rightarrow> xmlNode" where
  "fields_node templ n = (case dotype_node templ n of None \<Rightarrow> n | Some t \<Rightarrow> t)"

definition field_nodes :: "xmlNode \<Rightarrow> xmlNode \<Rightarrow> xmlNode list" where
  "field_nodes templ n = take (nat (num_of (fields_node templ n))) (entries (fields_node templ n))"

definition do_len :: "xmlNode \<Rightarrow> int" where
  "do_len n = dec_of (attr n ''len'')"

definition good_do :: "xmlNode \<Rightarrow> xmlNode \<Rightarrow> bool" where
  "good_do templ n \<longleftrightarrow> has n ''tag'' \<and> good_name (attr n ''tag'') \<and> has n ''len''
     \<and> dotype_node templ n \<noteq> None \<and> 0 \<le> num_of (fields_node templ n)
     \<and> num_of (fields_node templ n) \<le> int (length (entries (fields_node templ n)))
     \<and> list_all good_unit (field_nodes templ n)"

definition units_of :: "alloc_env \<Rightarrow> xmlNode \<Rightarrow> xmlNode \<Rightarrow> DOTTYPE_DO_UNIT_T list" where
  "units_of env templ n =
     map2 unit_of (field_nodes templ n) (map (fresh_unit env) [0 ..< nat (num_of (fields_node templ n))])"

definition do_of :: "alloc_env \<Rightarrow> xmlNode \<Rightarrow> int \<Rightarrow> xmlNode \<Rightarrow> IED_DO_LIST_T" where
  "do_of env templ len n =
     zero_do\<lparr>dl_do_tag := name_over zero_tag (attr n ''tag''), dl_offset := word_of_int len,
       dl_nNum := num_of (fields_node templ n), dl_pDotList_104 := Some (units_of env templ n),
       dl_pDotList_698 := Some (units_of env templ n)\<rparr>"

lemma length_fresh_unit [simp]: "length (du_dotype_tag (fresh_unit env i)) = 64"
  by (simp add: fresh_unit_def)

lemma length_units_of:
  "good_do templ n \<Longrightarrow> length (units_of env templ n) = nat (num_of (fields_node templ n))"
  by (auto simp: good_do_def units_of_def field_nodes_def nat_le_iff intro!: min_absorb2)

lemma load_do_good:
  assumes good: "good_do templ n" and ok: "\<And>s. malloc_ok env s"
  shows "load_do env templ i j len n zero_do = Inr (do_of env templ len n, do_len n, True)"
proof -
  let ?t = "fields_node templ n"
  let ?us = "map (fresh_unit env) [0 ..< nat (num_of ?t)]"
  have t: "dotype_node templ n = Some ?t" using good by (auto simp: good_do_def fields_node_def)
  have num: "0 \<le> num_of ?t" "num_of ?t \<le> int (length (entries ?t))" using good by (simp_all add: good_do_def)
  then have len: "int (length ?us) = num_of ?t" by simp
  have "load_units (int (length ?us)) (node_children ?t) 0 (Some ?us) =
      Inr (Some (take 0 ?us @ map2 unit_of
        (take (length ?us - 0) (filter (\<lambda>c. \<not> is_text c) (node_children ?t))) (drop 0 ?us)), length ?us, True)"
    by (rule load_units_good)
      (use good num in \<open>auto simp: good_do_def field_nodes_def entries_def nat_le_iff\<close>)
  then have units: "load_units (num_of ?t) (node_children ?t) 0 (Some ?us) =
      Inr (Some (units_of env templ n), nat (num_of ?t), True)"
    unfolding len by (simp add: field_nodes_def entries_def units_of_def)
  have "copy_units 0 (nat (num_of ?t)) (Some (units_of env templ n)) (Some ?us) =
      Inr (Some (patch ?us 0 (take (nat (num_of ?t)) (drop 0 (units_of env templ n)))))"
    using length_units_of [OF good] by (intro copy_units_closed) simp_all
  also have "\<dots> = Inr (Some (units_of env templ n))"
    using length_units_of [OF good, of env] by (simp add: patch_def)
  finally have copy: "copy_units 0 (nat (num_of ?t)) (Some (units_of env templ n)) (Some ?us) =
      Inr (Some (units_of env templ n))" .
  show ?thesis
    using good ok num t units copy
    by (simp add: load_do_def good_do_def has_attr strcpy_name zero_do_def str2dec_cstr
        get_cfg_num_of alloc_def Let_def do_of_def do_len_def)
qed

fun dos_of :: "alloc_env \<Rightarrow> xmlNode \<Rightarrow> int \<Rightarrow> xmlNode list \<Rightarrow> IED_DO_LIST_T list" where
  "dos_of env templ len [] = []"
| "dos_of env templ len (n # ns) = do_of env templ len n # dos_of env templ (len + do_len n) ns"

definition span :: "xmlNode list \<Rightarrow> int" where
  "span ns = sum_list (map do_len ns)"

lemma span_simps [simp]:
  "span [] = 0" "span (n # ns) = do_len n + span ns" "span (ns @ ms) = span ns + span ms"
  by (simp_all add: span_def)

lemma span_nonneg: "list_all (\<lambda>n. 0 \<le> do_len n) ns \<Longrightarrow> 0 \<le> span ns"
  by (induction ns) auto

lemma length_dos_of [simp]: "length (dos_of env templ len ns) = length ns"
  by (induction ns arbitrary: len) auto

lemma dos_of_append: "dos_of env templ len (ns @ ms) = dos_of env templ len ns @ dos_of env templ (len + span ns) ms"
  by (induction ns arbitrary: len) (auto simp: add.assoc)

lemma nth_dos_of: "i < length ns \<Longrightarrow> dos_of env templ len ns ! i = do_of env templ (len + span (take i ns)) (ns ! i)"
  by (induction ns arbitrary: len i) (auto simp: nth_Cons add.assoc split: nat.split)

lemma load_dos_good:
  assumes "length dos - k \<le> length (filter (\<lambda>c. \<not> is_text c) ns)" and "k \<le> length dos"
    and "list_all (good_do templ) (take (length dos - k) (filter (\<lambda>c. \<not> is_text c) ns))"
    and "list_all (\<lambda>n. 0 \<le> do_len n) (take (length dos - k) (filter (\<lambda>c. \<not> is_text c) ns))"
    and "\<forall>i < length dos. k \<le> i \<longrightarrow> dos ! i = zero_do" and "\<And>s. malloc_ok env s"
    and "0 \<le> len" and "len + span (take (length dos - k) (filter (\<lambda>c. \<not> is_text c) ns)) \<le> 2147483647"
  shows "load_dos env templ i (int (length dos)) ns k len dos =
     Inr (take k dos @ dos_of env templ len (take (length dos - k) (filter (\<lambda>c. \<not> is_text c) ns)),
          len + span (take (length dos - k) (filter (\<lambda>c. \<not> is_text c) ns)), True)"
  using assms
proof (induction ns arbitrary: k len dos)
  case (Cons n ns)
  let ?es = "filter (\<lambda>c. \<not> is_text c) ns"
  show ?case
  proof (cases "is_text n \<or> k = length dos")
    case True
    with Cons show ?thesis by auto
  next
    case False
    with Cons.prems(2) have lt: "k < length dos" and nt: "\<not> is_text n" by auto
    then have diff: "length dos - k = Suc (length dos - Suc k)" by simp
    let ?dos = "dos[k := do_of env templ len n]"
    have good: "good_do templ n" and pos: "0 \<le> do_len n"
      using Cons.prems(3,4) nt by (simp_all add: diff)
    have rest: "0 \<le> span (take (length dos - Suc k) ?es)"
      using Cons.prems(4) nt by (intro span_nonneg) (simp add: diff)
    have sum: "len + do_len n + span (take (length dos - Suc k) ?es) \<le> 2147483647"
      using Cons.prems(8) nt by (simp add: diff)
    have "addi len (do_len n) = Inr (len + do_len n)"
      using sum rest pos Cons.prems(7) by (simp add: addi_def)
    then have "load_dos env templ i (int (length dos)) (n # ns) k len dos =
        load_dos env templ i (int (length ?dos)) ns (Suc k) (len + do_len n) ?dos"
      using nt lt load_do_good [OF good Cons.prems(6)] Cons.prems(5) by simp
    also have "\<dots> = Inr (take (Suc k) ?dos @ dos_of env templ (len + do_len n) (take (length ?dos - Suc k) ?es),
        len + do_len n + span (take (length ?dos - Suc k) ?es), True)"
      by (rule Cons.IH) (use Cons.prems nt lt diff pos sum in auto)
    finally show ?thesis
      using nt lt diff by (simp add: take_Suc_conv_app_nth add.assoc)
  qed
qed simp

section \<open>Devices\<close>

definition do_nodes :: "xmlNode \<Rightarrow> xmlNode list" where
  "do_nodes n = take (nat (num_of n)) (entries n)"

definition good_ied :: "xmlNode \<Rightarrow> xmlNode \<Rightarrow> bool" where
  "good_ied templ n \<longleftrightarrow> good_name (attr n ''tag'') \<and> has n ''pn'' \<and> 0 < num_of n
     \<and> num_of n \<le> int (length (entries n)) \<and> list_all (good_do templ) (do_nodes n)
     \<and> list_all (\<lambda>d. 0 \<le> do_len d) (do_nodes n)"

definition ied_of :: "alloc_env \<Rightarrow> xmlNode \<Rightarrow> int \<Rightarrow> xmlNode \<Rightarrow> IED_LIST_T" where
  "ied_of env templ len n =
     \<lparr>ied_tag = name_over zero_tag (attr n ''tag''), ied_nPn = word_of_int (dec_of (attr n ''pn'')),
      ied_lock = Unlocked, ied_nNum = num_of n, ied_pDoList = Some (dos_of env templ len (do_nodes n))\<rparr>"

lemma length_do_nodes: "good_ied templ n \<Longrightarrow> length (do_nodes n) = nat (num_of n)"
  by (auto simp: good_ied_def do_nodes_def nat_le_iff intro!: min_absorb2)

lemma load_ied_good:
  assumes good: "good_ied templ n" and ok: "\<And>s. malloc_ok env s"
    and len: "0 \<le> len" "len + span (do_nodes n) \<le> 2147483647"
  shows "load_ied env templ i len n (attr n ''tag'') zero_ied =
     Inr (ied_of env templ len n, len + span (do_nodes n), True)"
proof -
  let ?dos = "replicate (nat (num_of n)) zero_do"
  have "load_dos env templ i (int (length ?dos)) (node_children n) 0 len ?dos =
      Inr (take 0 ?dos @ dos_of env templ len (take (length ?dos - 0) (filter (\<lambda>c. \<not> is_text c) (node_children n))),
           len + span (take (length ?dos - 0) (filter (\<lambda>c. \<not> is_text c) (node_children n))), True)"
    by (rule load_dos_good)
      (use good ok len in \<open>auto simp: good_ied_def do_nodes_def entries_def nat_le_iff\<close>)
  moreover have "int (length ?dos) = num_of n" using good by (simp add: good_ied_def)
  ultimately have dos: "load_dos env templ i (num_of n) (node_children n) 0 len ?dos =
      Inr (dos_of env templ len (do_nodes n), len + span (do_nodes n), True)"
    by (simp add: do_nodes_def entries_def)
  show ?thesis
    using good ok dos
    by (simp add: load_ied_def good_ied_def strcpy_name zero_ied_def has_attr str2dec_cstr
        get_cfg_num_of alloc_def Let_def ied_of_def)
qed

fun ieds_of :: "alloc_env \<Rightarrow> xmlNode \<Rightarrow> int \<Rightarrow> xmlNode list \<Rightarrow> IED_LIST_T list" where
  "ieds_of env templ len [] = []"
| "ieds_of env templ len (n # ns) =
     ied_of env templ len n # ieds_of env templ (len + span (do_nodes n)) ns"

definition is_ied :: "xmlNode \<Rightarrow> bool" where
  "is_ied n \<longleftrightarrow> xmlStrcmp (node_name n) ''IED'' = 0"

definition device_nodes :: "xmlNode list \<Rightarrow> xmlNode list" where
  "device_nodes ns = filter (\<lambda>n. is_ied n \<and> xmlStrcmp (attr n ''tag'') ''104tstied'' \<noteq> 0) ns"

lemma length_ieds_of [simp]: "length (ieds_of env templ len ns) = length ns"
  by (induction ns arbitrary: len) auto

lemma load_ieds_good:
  assumes "length ieds - k \<le> length (device_nodes ns)" and "k \<le> length ieds"
    and "list_all (good_ied templ) (take (length ieds - k) (device_nodes ns))"
    and "list_all (\<lambda>n. is_ied n \<longrightarrow> has n ''tag'') ns"
    and "\<forall>i < length ieds. k \<le> i \<longrightarrow> ieds ! i = zero_ied" and "\<And>s. malloc_ok env s"
    and "0 \<le> len"
    and "len + span (concat (map do_nodes (take (length ieds - k) (device_nodes ns)))) \<le> 2147483647"
  shows "load_ieds env templ (int (length ieds)) ns k len ieds =
     Inr (take k ieds @ ieds_of env templ len (take (length ieds - k) (device_nodes ns)),
          len + span (concat (map do_nodes (take (length ieds - k) (device_nodes ns)))), True)"
  using assms
proof (induction ns arbitrary: k len ieds)
  case Nil
  then show ?case by (simp add: device_nodes_def)
next
  case (Cons n ns)
  note skip = Cons.prems
  show ?case
  proof (cases "is_ied n \<and> xmlStrcmp (attr n ''tag'') ''104tstied'' \<noteq> 0")
    case False
    then have "load_ieds env templ (int (length ieds)) (n # ns) k len ieds =
        load_ieds env templ (int (length ieds)) ns k len ieds"
      using Cons.prems(4) has_attr [of n "''tag''"] by (auto simp: is_ied_def)
    moreover have "device_nodes (n # ns) = device_nodes ns" using False by (simp add: device_nodes_def)
    ultimately show ?thesis using Cons by simp
  next
    case dev: True
    then have tag: "xmlGetProp n ''tag'' = Some (attr n ''tag'')" using Cons.prems(4) has_attr by simp
    have dn: "device_nodes (n # ns) = n # device_nodes ns" using dev by (simp add: device_nodes_def)
    show ?thesis
    proof (cases "k = length ieds")
      case True
      with dev tag show ?thesis by (simp add: is_ied_def)
    next
      case False
      with Cons.prems(2) have lt: "k < length ieds" by simp
      then have diff: "length ieds - k = Suc (length ieds - Suc k)" by simp
      let ?rest = "take (length ieds - Suc k) (device_nodes ns)"
      let ?ieds = "ieds[k := ied_of env templ len n]" and ?len = "len + span (do_nodes n)"
      have good: "good_ied templ n" and goods: "list_all (good_ied templ) ?rest"
        using Cons.prems(3) by (simp_all add: diff dn)
      have pos: "0 \<le> span (do_nodes n)" using good by (simp add: good_ied_def span_nonneg)
      have rest: "0 \<le> span (concat (map do_nodes ?rest))"
        using goods by (intro span_nonneg) (auto simp: list_all_iff good_ied_def)
      have sum: "?len + span (concat (map do_nodes ?rest)) \<le> 2147483647"
        using Cons.prems(8) by (simp add: diff dn)
      have "load_ied env templ k len n (attr n ''tag'') zero_ied = Inr (ied_of env templ len n, ?len, True)"
        using good Cons.prems(6,7) sum rest by (intro load_ied_good) auto
      then have "load_ieds env templ (int (length ieds)) (n # ns) k len ieds =
          load_ieds env templ (int (length ?ieds)) ns (Suc k) ?len ?ieds"
        using dev tag lt Cons.prems(5) by (simp add: is_ied_def)
      also have "\<dots> = Inr (take (Suc k) ?ieds @ ieds_of env templ ?len (take (length ?ieds - Suc k) (device_nodes ns)),
          ?len + span (concat (map do_nodes (take (length ?ieds - Suc k) (device_nodes ns)))), True)"
        by (rule Cons.IH) (use Cons.prems lt diff dn pos sum in auto)
      finally show ?thesis
        using lt diff dn by (simp add: take_Suc_conv_app_nth add.assoc)
    qed
  qed
qed

section \<open>The document\<close>

text \<open>The three nodes the loader starts from, with an empty element where one is missing.\<close>

definition no_node :: xmlNode where "no_node = Element [] [] []"

definition root_of :: "xmlDoc \<Rightarrow> xmlNode" where
  "root_of d = (case xmlDocGetRootElement d of None \<Rightarrow> no_node | Some n \<Rightarrow> n)"

definition section_of :: "xmlDoc \<Rightarrow> string \<Rightarrow> xmlNode" where
  "section_of d name = (case find_by_name (node_children (root_of d)) name of None \<Rightarrow> no_node | Some n \<Rightarrow> n)"

definition devices :: "xmlDoc \<Rightarrow> xmlNode list" where
  "devices d = take (nat (num_of (section_of d ''IED_CFG'')))
     (device_nodes (node_children (section_of d ''IED_CFG'')))"

definition objects :: "xmlDoc \<Rightarrow> xmlNode list" where
  "objects d = concat (map do_nodes (devices d))"

definition good_cfg :: "xmlDoc \<Rightarrow> bool" where
  "good_cfg d \<longleftrightarrow> xmlDocGetRootElement d \<noteq> None
     \<and> find_by_name (node_children (root_of d)) ''IED_CFG'' \<noteq> None
     \<and> find_by_name (node_children (root_of d)) ''DataTypeTempltes'' \<noteq> None
     \<and> 0 < num_of (section_of d ''IED_CFG'')
     \<and> num_of (section_of d ''IED_CFG'') \<le> int (length (device_nodes (node_children (section_of d ''IED_CFG''))))
     \<and> list_all (\<lambda>n. is_ied n \<longrightarrow> has n ''tag'') (node_children (section_of d ''IED_CFG''))
     \<and> list_all (good_ied (section_of d ''DataTypeTempltes'')) (devices d)
     \<and> span (objects d) \<le> 2147483647"

definition index_of :: "alloc_env \<Rightarrow> xmlDoc \<Rightarrow> MEM_MAP_T" where
  "index_of env d = \<lparr>mm_nNum = num_of (section_of d ''IED_CFG''),
     mm_pIedList = Some (ieds_of env (section_of d ''DataTypeTempltes'') 0 (devices d))\<rparr>"

lemma map_init_closed:
  assumes good: "good_cfg d" and ok: "\<And>s. malloc_ok env s"
  shows "rh_mem_map_init env (Some d) = Inr (index_of env d, span (objects d))"
proof -
  let ?cfg = "section_of d ''IED_CFG''" and ?t = "section_of d ''DataTypeTempltes''"
  let ?ieds = "replicate (nat (num_of ?cfg)) zero_ied"
  have root: "xmlDocGetRootElement d = Some (root_of d)"
    and cfg: "find_by_name (node_children (root_of d)) ''IED_CFG'' = Some ?cfg"
    and t: "find_by_name (node_children (root_of d)) ''DataTypeTempltes'' = Some ?t"
    using good by (auto simp: good_cfg_def root_of_def section_of_def)
  have "load_ieds env ?t (int (length ?ieds)) (node_children ?cfg) 0 0 ?ieds =
      Inr (take 0 ?ieds @ ieds_of env ?t 0 (take (length ?ieds - 0) (device_nodes (node_children ?cfg))),
           0 + span (concat (map do_nodes (take (length ?ieds - 0) (device_nodes (node_children ?cfg))))), True)"
    by (rule load_ieds_good)
      (use good ok in \<open>auto simp: good_cfg_def devices_def objects_def nat_le_iff\<close>)
  moreover have "int (length ?ieds) = num_of ?cfg" using good by (simp add: good_cfg_def)
  ultimately have ieds: "load_ieds env ?t (num_of ?cfg) (node_children ?cfg) 0 0 ?ieds =
      Inr (ieds_of env ?t 0 (devices d), span (objects d), True)"
    by (simp add: devices_def objects_def)
  show ?thesis
    using good ok root cfg t ieds
    by (simp add: rh_mem_map_init_def good_cfg_def get_cfg_num_of alloc_def Let_def zero_memMap_def
        index_of_def)
qed

end
