(* ===== verification/MemLoad.thy ===== *)
theory MemLoad
  imports MemTypes
begin

text \<open>
  The configuration loaders of \<^verbatim>\<open>code/mem.c\<close>: \<^verbatim>\<open>point_path_parse\<close>, \<^verbatim>\<open>rh_point_list_load\<close> and
  \<^verbatim>\<open>rh_mem_map_init\<close>.  Each loader returns the global it fills together with its C return value,
  so the partially filled tables of an early \<^verbatim>\<open>return -1\<close> are visible; inside, a flag \<open>ok\<close> is
  false once such a return has happened.
\<close>

section \<open>Point paths\<close>

text \<open>
  One segment of a path: bytes are stored until a dot, which is replaced by the terminator; at
  the end of the path no terminator is stored.  The result holds \<open>i - offset\<close>.
\<close>

fun copy_seg :: "u8 list \<Rightarrow> u8 list \<Rightarrow> nat \<Rightarrow> (u8 list \<times> nat) res" where
  "copy_seg tag [] k = Inr (tag, k)"
| "copy_seg tag (c # cs) k =
     (if c \<noteq> 46 then bindR (wr tag k c) (\<lambda>tag'. copy_seg tag' cs (Suc k))
      else bindR (wr tag k 0) (\<lambda>tag'. Inr (tag', k)))"

fun copy_rest :: "u8 list \<Rightarrow> u8 list \<Rightarrow> nat \<Rightarrow> (u8 list \<times> nat) res" where
  "copy_rest tag [] k = Inr (tag, k)"
| "copy_rest tag (c # cs) k = bindR (wr tag k c) (\<lambda>tag'. copy_rest tag' cs (Suc k))"

definition point_path_parse :: "POINT_ITEM_T \<Rightarrow> u8 list option \<Rightarrow> POINT_ITEM_T res" where
  "point_path_parse pItem path =
     (case path of
        None \<Rightarrow> Inr pItem
      | Some s \<Rightarrow>
          bindR (strlen s) (\<lambda>len.
            let p = take len s in
            bindR (copy_seg (pt_ied_tag pItem) p 0) (\<lambda>(t1, i).
            let offset = i + 1 in
            bindR (copy_seg (pt_do_tag pItem) (drop offset p) 0) (\<lambda>(t2, k).
            let offset = offset + k + 1 in
            bindR (copy_rest (pt_dotype_tag pItem) (drop offset p) 0) (\<lambda>(t3, n).
            bindR (wr t3 n 0) (\<lambda>t3.
              Inr (pItem\<lparr>pt_ied_tag := t1, pt_do_tag := t2, pt_dotype_tag := t3\<rparr>)))))))"

section \<open>The point tables\<close>

text \<open>
  One \<^verbatim>\<open>do\<close> element of each of the three tables.  A telemetry (YC) entry must have both
  attributes; a signal (YX) entry may lack either; the counter (YM) loop passes \<^verbatim>\<open>addr\<close> on
  without looking.
\<close>

definition yc_item :: "POINT_ITEM_T list \<Rightarrow> nat \<Rightarrow> xmlNode \<Rightarrow> (POINT_ITEM_T list \<times> bool) res" where
  "yc_item pts ycNum doNode =
     (case xmlGetProp doNode ''addr'' of
        None \<Rightarrow> Inr (pts, False)
      | Some a \<Rightarrow>
          bindR (str2dec (cstr a)) (\<lambda>v.
          bindR (upd pts ycNum (\<lambda>p. Inr (p\<lparr>pt_addr := v\<rparr>))) (\<lambda>pts.
          case xmlGetProp doNode ''path'' of
            None \<Rightarrow> Inr (pts, False)
          | Some s \<Rightarrow>
              bindR (upd pts ycNum (\<lambda>p. point_path_parse p (Some (cstr s)))) (\<lambda>pts.
                Inr (pts, True)))))"

definition yx_item :: "POINT_ITEM_T list \<Rightarrow> nat \<Rightarrow> xmlNode \<Rightarrow> (POINT_ITEM_T list \<times> bool) res" where
  "yx_item pts yxNum doNode =
     bindR (case xmlGetProp doNode ''addr'' of
              None \<Rightarrow> Inr pts
            | Some a \<Rightarrow> bindR (str2dec (cstr a)) (\<lambda>v.
                          upd pts yxNum (\<lambda>p. Inr (p\<lparr>pt_addr := v\<rparr>)))) (\<lambda>pts.
     bindR (case xmlGetProp doNode ''path'' of
              None \<Rightarrow> Inr pts
            | Some s \<Rightarrow> upd pts yxNum (\<lambda>p. point_path_parse p (Some (cstr s)))) (\<lambda>pts.
       Inr (pts, True)))"

definition ym_item :: "POINT_ITEM_T list \<Rightarrow> nat \<Rightarrow> xmlNode \<Rightarrow> (POINT_ITEM_T list \<times> bool) res" where
  "ym_item pts ymNum doNode =
     bindR (deref (xmlGetProp doNode ''addr'')) (\<lambda>a.
     bindR (str2dec a) (\<lambda>v.
     bindR (upd pts ymNum (\<lambda>p. Inr (p\<lparr>pt_addr := v\<rparr>))) (\<lambda>pts.
     bindR (upd pts ymNum (\<lambda>p. point_path_parse p (map_option cstr (xmlGetProp doNode ''path'')))) (\<lambda>pts.
       Inr (pts, True)))))"

text \<open>The loop over the children; the guard is \<^verbatim>\<open>if( ycNum > nNum ) break\<close>.\<close>

fun load_items ::
  "(POINT_ITEM_T list \<Rightarrow> nat \<Rightarrow> xmlNode \<Rightarrow> (POINT_ITEM_T list \<times> bool) res) \<Rightarrow>
   int \<Rightarrow> xmlNode list \<Rightarrow> nat \<Rightarrow> POINT_ITEM_T list \<Rightarrow> (POINT_ITEM_T list \<times> bool) res" where
  "load_items item nNum [] k pts = Inr (pts, True)"
| "load_items item nNum (n # ns) k pts =
     (if int k > nNum then Inr (pts, True)
      else bindR (item pts k n) (\<lambda>(pts, ok).
             if ok then load_items item nNum ns (Suc k) pts else Inr (pts, False)))"

definition load_point_list ::
  "alloc_env \<Rightarrow> DATA_TYPE_E \<Rightarrow> string \<Rightarrow>
   (POINT_ITEM_T list \<Rightarrow> nat \<Rightarrow> xmlNode \<Rightarrow> (POINT_ITEM_T list \<times> bool) res) \<Rightarrow>
   xmlNode \<Rightarrow> POINT_LIST_T \<Rightarrow> (POINT_LIST_T \<times> bool) res" where
  "load_point_list env ty t item iedNode pl =
     (case find_by_tag (node_children iedNode) t of
        None \<Rightarrow> Inr (pl, True)
      | Some node \<Rightarrow>
          bindR (deref (xmlGetProp node ''num'')) (\<lambda>s.
          bindR (str2dec s) (\<lambda>n.
          let pl = pl\<lparr>pl_nNum := n\<rparr> in
          if \<not> alloc env (PointLock ty) 1 then Inr (pl, False)
          else
            let pl = pl\<lparr>pl_lock := Unlocked\<rparr> in
            if n > 0 \<and> alloc env (PointItems ty) n then
              bindR (load_items item n (node_children node) 0 (map (fresh_point env) [0 ..< nat n]))
                (\<lambda>(pts, ok). Inr (pl\<lparr>pl_point := Some pts\<rparr>, ok))
            else Inr (pl, True))))"

definition load_yc :: "alloc_env \<Rightarrow> xmlNode \<Rightarrow> POINT_MAP_T \<Rightarrow> (POINT_MAP_T \<times> bool) res" where
  "load_yc env iedNode pm =
     bindR (load_point_list env DATA_YC ''YC'' yc_item iedNode (yc_list pm)) (\<lambda>(pl, ok).
       Inr (pm\<lparr>yc_list := pl\<rparr>, ok))"

definition load_yx :: "alloc_env \<Rightarrow> xmlNode \<Rightarrow> POINT_MAP_T \<Rightarrow> (POINT_MAP_T \<times> bool) res" where
  "load_yx env iedNode pm =
     bindR (load_point_list env DATA_YX ''YX'' yx_item iedNode (yx_list pm)) (\<lambda>(pl, ok).
       Inr (pm\<lparr>yx_list := pl\<rparr>, ok))"

definition load_ym :: "alloc_env \<Rightarrow> xmlNode \<Rightarrow> POINT_MAP_T \<Rightarrow> (POINT_MAP_T \<times> bool) res" where
  "load_ym env iedNode pm =
     bindR (load_point_list env DATA_YM ''YM'' ym_item iedNode (ym_list pm)) (\<lambda>(pl, ok).
       Inr (pm\<lparr>ym_list := pl\<rparr>, ok))"

text \<open>
  The identifier table.  The names are copied with \<^verbatim>\<open>strcpy\<close> into 64 byte fields; the
  identifier is scanned into a four byte variable with a limit of eight bytes.
\<close>

definition id_item :: "ID_ITEM_T \<Rightarrow> xmlNode \<Rightarrow> ID_ITEM_T res" where
  "id_item it idNode =
     bindR (deref (xmlGetProp idNode ''name'')) (\<lambda>nm.
     bindR (strcpy (id_do_tag it) 0 nm) (\<lambda>t1.
     bindR (deref (xmlGetProp idNode ''tag'')) (\<lambda>tg.
     bindR (strcpy (id_dotype_tag it) 0 tg) (\<lambda>t2.
     bindR (deref (xmlGetProp idNode ''id'')) (\<lambda>h.
     bindR (str2hex h (le32 0) 0 8) (\<lambda>(id, k).
     bindR (reversecpy (le32 (id_id it)) id 4) (\<lambda>b.
       Inr \<lparr>id_id = u32_le b, id_do_tag = t1, id_dotype_tag = t2\<rparr>)))))))"

fun load_ids :: "int \<Rightarrow> xmlNode list \<Rightarrow> nat \<Rightarrow> ID_ITEM_T list \<Rightarrow> ID_ITEM_T list res" where
  "load_ids nNum [] k items = Inr items"
| "load_ids nNum (n # ns) k items =
     (if int k \<ge> nNum then Inr items
      else bindR (upd items k (\<lambda>it. id_item it n)) (\<lambda>items. load_ids nNum ns (Suc k) items))"

definition load_id :: "alloc_env \<Rightarrow> xmlNode \<Rightarrow> POINT_MAP_T \<Rightarrow> (POINT_MAP_T \<times> bool) res" where
  "load_id env rootNode pm =
     (case find_by_name (node_children rootNode) ''ID_CFG'' of
        None \<Rightarrow> Inr (pm, True)
      | Some cfg \<Rightarrow>
          bindR (deref (xmlGetProp cfg ''num'')) (\<lambda>s.
          bindR (str2dec s) (\<lambda>n.
          let pm = pm\<lparr>id_list := (id_list pm)\<lparr>il_nNum := n\<rparr>\<rparr> in
          if \<not> alloc env IdItems n then Inr (pm, False)
          else
            bindR (load_ids n (node_children cfg) 0 (map (fresh_id env) [0 ..< nat n])) (\<lambda>items.
              Inr (pm\<lparr>id_list := (id_list pm)\<lparr>il_pItem := Some items\<rparr>\<rparr>, True)))))"

definition rh_point_list_load :: "alloc_env \<Rightarrow> xmlDoc option \<Rightarrow> (POINT_MAP_T \<times> int) res" where
  "rh_point_list_load env doc =
     (case doc of
        None \<Rightarrow> Inr (zero_pointMap, - 1)
      | Some d \<Rightarrow>
     (case xmlDocGetRootElement d of
        None \<Rightarrow> Inr (zero_pointMap, - 1)
      | Some rootNode \<Rightarrow>
     (case find_by_name (node_children rootNode) ''IED_CFG'' of
        None \<Rightarrow> Inr (zero_pointMap, - 1)
      | Some iedCfgNode \<Rightarrow>
     (case find_by_tag (node_children iedCfgNode) ''104tstied'' of
        None \<Rightarrow> Inr (zero_pointMap, - 1)
      | Some iedNode \<Rightarrow>
          bindR (load_yc env iedNode zero_pointMap) (\<lambda>(pm, ok).
          if \<not> ok then Inr (pm, - 1) else
          bindR (load_yx env iedNode pm) (\<lambda>(pm, ok).
          if \<not> ok then Inr (pm, - 1) else
          bindR (load_ym env iedNode pm) (\<lambda>(pm, ok).
          if \<not> ok then Inr (pm, - 1) else
          bindR (load_id env rootNode pm) (\<lambda>(pm, ok).
          if \<not> ok then Inr (pm, - 1) else Inr (pm, 0)))))))))"

end
