(* ===== verification/MemPoints.thy ===== *)
theory MemPoints
  imports MemInit MemLoad
begin

text \<open>
  What the loaders of the point and identifier tables compute.  A path \<^verbatim>\<open>ied.do.type\<close> is split
  at its first two dots; a section whose entries all carry an address and such a path, and are
  no more than its \<^verbatim>\<open>num\<close>, is read entry by entry into the fresh table.  One entry too many is
  an access outside the table, because the guard of the loop is off by one.
\<close>

section \<open>Paths\<close>

lemma copy_seg_dot:
  assumes "46 \<notin> set a" and "k + length a < length tag"
  shows "copy_seg tag (a @ 46 # rest) k = Inr (patch tag k (a @ [0]), k + length a)"
  using assms
proof (induction a arbitrary: tag k)
  case Nil
  then show ?case by (simp add: patch_single)
next
  case (Cons c a)
  have "patch (tag[k := c]) (Suc k) (a @ [0]) = patch tag k ((c # a) @ [0])"
    using patch_append [of k "[c]" "a @ [0]" tag] Cons.prems by (simp add: patch_single)
  with Cons show ?case by simp
qed

lemma copy_rest_closed:
  "k + length cs \<le> length tag \<Longrightarrow> copy_rest tag cs k = Inr (patch tag k cs, k + length cs)"
proof (induction cs arbitrary: tag k)
  case (Cons c cs)
  have "patch (tag[k := c]) (Suc k) cs = patch tag k (c # cs)"
    using patch_append [of k "[c]" cs tag] Cons.prems by (simp add: patch_single)
  with Cons show ?case by simp
qed simp

text \<open>Without a dot, a segment that fits is stored without a terminator.\<close>

lemma copy_seg_no_dot:
  "46 \<notin> set a \<Longrightarrow> k + length a \<le> length tag \<Longrightarrow> copy_seg tag a k = Inr (patch tag k a, k + length a)"
proof (induction a arbitrary: tag k)
  case (Cons c a)
  have "patch (tag[k := c]) (Suc k) a = patch tag k (c # a)"
    using patch_append [of k "[c]" a tag] Cons.prems by (simp add: patch_single)
  with Cons show ?case by simp
qed simp

lemma strlen_append_zero: "0 \<notin> set p \<Longrightarrow> strlen (p @ 0 # rest) = Inr (length p)"
  using ccont_append_zero [of p rest] by (simp add: strlen_terminated)

lemma path_parse_closed:
  assumes "wf_point pt" and "46 \<notin> set a" and "46 \<notin> set b" and "0 \<notin> set (a @ b @ c)"
    and "length a < 64" and "length b < 64" and "length c < 64"
  shows "point_path_parse pt (Some (a @ 46 # b @ 46 # c @ 0 # rest)) =
     Inr (pt\<lparr>pt_ied_tag := patch (pt_ied_tag pt) 0 (a @ [0]), pt_do_tag := patch (pt_do_tag pt) 0 (b @ [0]),
             pt_dotype_tag := patch (pt_dotype_tag pt) 0 (c @ [0])\<rparr>)"
proof -
  let ?p = "a @ 46 # b @ 46 # c"
  have "strlen (?p @ 0 # rest) = Inr (length ?p)"
    using assms(4) by (intro strlen_append_zero) auto
  then have len: "strlen (a @ 46 # b @ 46 # c @ 0 # rest) = Inr (length ?p)" by simp
  have tk: "take (length ?p) (a @ 46 # b @ 46 # c @ 0 # rest) = ?p" by simp
  have 1: "copy_seg (pt_ied_tag pt) ?p 0 = Inr (patch (pt_ied_tag pt) 0 (a @ [0]), length a)"
    using copy_seg_dot [of a 0 "pt_ied_tag pt"] assms by (simp add: wf_point_def)
  have 2: "copy_seg (pt_do_tag pt) (drop (length a + 1) ?p) 0 = Inr (patch (pt_do_tag pt) 0 (b @ [0]), length b)"
    using copy_seg_dot [of b 0 "pt_do_tag pt"] assms by (simp add: wf_point_def)
  have 3: "copy_rest (pt_dotype_tag pt) (drop (length a + 1 + length b + 1) ?p) 0
      = Inr (patch (pt_dotype_tag pt) 0 c, length c)"
    using copy_rest_closed [of 0 c "pt_dotype_tag pt"] assms by (simp add: wf_point_def)
  have 4: "wr (patch (pt_dotype_tag pt) 0 c) (length c) 0 = Inr (patch (pt_dotype_tag pt) 0 (c @ [0]))"
    using patch_snoc [of 0 c "pt_dotype_tag pt" 0] assms by (simp add: wf_point_def)
  show ?thesis
    using len tk 1 2 3 4 by (simp add: point_path_parse_def Let_def)
qed

section \<open>Entries\<close>

definition bytes :: "string \<Rightarrow> u8 list" where
  "bytes s = map of_char s"

fun split_dot :: "u8 list \<Rightarrow> (u8 list \<times> u8 list) option" where
  "split_dot [] = None"
| "split_dot (c # cs) =
     (if c = 46 then Some ([], cs)
      else case split_dot cs of None \<Rightarrow> None | Some (a, r) \<Rightarrow> Some (c # a, r))"

lemma split_dot_Some: "split_dot p = Some (a, r) \<Longrightarrow> p = a @ 46 # r \<and> 46 \<notin> set a"
  by (induction p arbitrary: a r) (auto split: if_splits option.splits)

definition split_path :: "u8 list \<Rightarrow> (u8 list \<times> u8 list \<times> u8 list) option" where
  "split_path p =
     (case split_dot p of None \<Rightarrow> None | Some (a, r) \<Rightarrow>
      (case split_dot r of None \<Rightarrow> None | Some (b, c) \<Rightarrow> Some (a, b, c)))"

definition good_path :: "string \<Rightarrow> bool" where
  "good_path s \<longleftrightarrow> xml_string s \<and>
     (case split_path (bytes s) of None \<Rightarrow> False
      | Some (a, b, c) \<Rightarrow> length a < 64 \<and> length b < 64 \<and> length c < 64)"

definition good_point :: "xmlNode \<Rightarrow> bool" where
  "good_point n \<longleftrightarrow> has n ''addr'' \<and> has n ''path'' \<and> good_path (attr n ''path'')"

definition point_of :: "xmlNode \<Rightarrow> POINT_ITEM_T \<Rightarrow> POINT_ITEM_T" where
  "point_of n pt =
     (case split_path (bytes (attr n ''path'')) of None \<Rightarrow> pt
      | Some (a, b, c) \<Rightarrow>
          \<lparr>pt_ied_tag = patch (pt_ied_tag pt) 0 (a @ [0]), pt_do_tag = patch (pt_do_tag pt) 0 (b @ [0]),
           pt_dotype_tag = patch (pt_dotype_tag pt) 0 (c @ [0]), pt_addr = dec_of (attr n ''addr'')\<rparr>)"

lemma parse_good:
  assumes "good_path s" and "wf_point pt"
  shows "\<exists>a b c. split_path (bytes s) = Some (a, b, c) \<and>
     point_path_parse pt (Some (cstr s)) =
     Inr (pt\<lparr>pt_ied_tag := patch (pt_ied_tag pt) 0 (a @ [0]), pt_do_tag := patch (pt_do_tag pt) 0 (b @ [0]),
             pt_dotype_tag := patch (pt_dotype_tag pt) 0 (c @ [0])\<rparr>)"
proof -
  from assms(1) obtain a b c where s: "split_path (bytes s) = Some (a, b, c)"
    and len: "length a < 64" "length b < 64" "length c < 64"
    by (auto simp: good_path_def split: option.splits)
  then have p: "bytes s = a @ 46 # b @ 46 # c" and dots: "46 \<notin> set a" "46 \<notin> set b"
    by (auto simp: split_path_def split: option.splits dest!: split_dot_Some)
  have "0 \<notin> set (bytes s)"
    using assms(1) of_char_u8_0 by (auto simp: good_path_def xml_string_def bytes_def)
  then have z: "0 \<notin> set (a @ b @ c)" by (auto simp: p)
  have "cstr s = a @ 46 # b @ 46 # c @ 0 # []" using p by (simp add: cstr_def bytes_def)
  then show ?thesis using path_parse_closed [OF assms(2) dots z len, of "[]"] s by auto
qed

lemma point_of_items:
  assumes "good_point n" and "k < length pts" and "wf_point (pts ! k)"
  shows "yc_item pts k n = Inr (pts[k := point_of n (pts ! k)], True)"
    and "yx_item pts k n = Inr (pts[k := point_of n (pts ! k)], True)"
    and "ym_item pts k n = Inr (pts[k := point_of n (pts ! k)], True)"
proof -
  let ?pt = "(pts ! k)\<lparr>pt_addr := dec_of (attr n ''addr'')\<rparr>"
  have "wf_point ?pt" using assms(3) by (simp add: wf_point_def)
  then obtain a b c where s: "split_path (bytes (attr n ''path'')) = Some (a, b, c)"
    and parse: "point_path_parse ?pt (Some (cstr (attr n ''path''))) =
     Inr (?pt\<lparr>pt_ied_tag := patch (pt_ied_tag ?pt) 0 (a @ [0]), pt_do_tag := patch (pt_do_tag ?pt) 0 (b @ [0]),
             pt_dotype_tag := patch (pt_dotype_tag ?pt) 0 (c @ [0])\<rparr>)"
    using parse_good assms(1) unfolding good_point_def by blast
  then have "point_path_parse ?pt (Some (cstr (attr n ''path''))) = Inr (point_of n (pts ! k))"
    by (simp add: point_of_def)
  then show "yc_item pts k n = Inr (pts[k := point_of n (pts ! k)], True)"
    and "yx_item pts k n = Inr (pts[k := point_of n (pts ! k)], True)"
    and "ym_item pts k n = Inr (pts[k := point_of n (pts ! k)], True)"
    using assms by (simp_all add: yc_item_def yx_item_def ym_item_def good_point_def has_attr
        str2dec_cstr upd_def)
qed

section \<open>Sections\<close>

text \<open>What the loop needs of the treatment of one entry.\<close>

definition reads_points :: "(POINT_ITEM_T list \<Rightarrow> nat \<Rightarrow> xmlNode \<Rightarrow> (POINT_ITEM_T list \<times> bool) res) \<Rightarrow> bool" where
  "reads_points item \<longleftrightarrow> (\<forall>pts k n. good_point n \<and> k < length pts \<and> wf_point (pts ! k) \<longrightarrow>
     item pts k n = Inr (pts[k := point_of n (pts ! k)], True))"

lemma reads_points: "reads_points yc_item" "reads_points yx_item" "reads_points ym_item"
  by (simp_all add: reads_points_def point_of_items)

lemma load_items_good:
  assumes "reads_points item" and "list_all good_point ns" and "k + length ns \<le> length pts"
    and "\<forall>i < length pts. k \<le> i \<longrightarrow> wf_point (pts ! i)"
  shows "load_items item (int (length pts)) ns k pts =
     Inr (patch pts k (map2 point_of ns (take (length ns) (drop k pts))), True)"
  using assms
proof (induction ns arbitrary: k pts)
  case (Cons n ns)
  let ?pts = "pts[k := point_of n (pts ! k)]"
  have k: "k < length pts" using Cons.prems(3) by simp
  have "item pts k n = Inr (?pts, True)"
    using Cons.prems k by (simp add: reads_points_def)
  then have "load_items item (int (length pts)) (n # ns) k pts = load_items item (int (length ?pts)) ns (Suc k) ?pts"
    using k by simp
  also have "\<dots> = Inr (patch ?pts (Suc k) (map2 point_of ns (take (length ns) (drop (Suc k) ?pts))), True)"
    by (rule Cons.IH) (use Cons.prems k in auto)
  also have "patch ?pts (Suc k) (map2 point_of ns (take (length ns) (drop (Suc k) ?pts))) =
      patch pts k (map2 point_of (n # ns) (take (length (n # ns)) (drop k pts)))"
    using patch_append [of k "[point_of n (pts ! k)]" "map2 point_of ns (take (length ns) (drop (Suc k) pts))" pts] k Cons.prems(3)
    by (simp add: patch_single Cons_nth_drop_Suc [symmetric])
  finally show ?case .
qed simp

text \<open>One entry more than the table holds is written behind it.\<close>

lemma load_items_overrun:
  assumes "reads_points item" and "list_all good_point ns" and "k \<le> length pts"
    and "length pts < k + length ns" and "\<forall>i < length pts. k \<le> i \<longrightarrow> wf_point (pts ! i)"
    and out: "\<And>qs n. good_point n \<Longrightarrow> item qs (length qs) n = Inl OutOfBounds"
  shows "load_items item (int (length pts)) ns k pts = Inl OutOfBounds"
  using assms(1-5)
proof (induction ns arbitrary: k pts)
  case (Cons n ns)
  show ?case
  proof (cases "k = length pts")
    case True
    with Cons.prems out show ?thesis by simp
  next
    case False
    then have k: "k < length pts" using Cons.prems(3) by simp
    let ?pts = "pts[k := point_of n (pts ! k)]"
    have "item pts k n = Inr (?pts, True)"
      using Cons.prems k by (simp add: reads_points_def)
    then have "load_items item (int (length pts)) (n # ns) k pts = load_items item (int (length ?pts)) ns (Suc k) ?pts"
      using k by simp
    also have "\<dots> = Inl OutOfBounds"
      by (rule Cons.IH) (use Cons.prems k in auto)
    finally show ?thesis .
  qed
qed simp

lemma upd_out: "upd xs (length xs) f = Inl OutOfBounds"
  by (simp add: upd_def)

lemma items_overrun:
  assumes "good_point n"
  shows "yc_item qs (length qs) n = Inl OutOfBounds" "yx_item qs (length qs) n = Inl OutOfBounds"
    "ym_item qs (length qs) n = Inl OutOfBounds"
  using assms
  by (simp_all add: yc_item_def yx_item_def ym_item_def good_point_def has_attr str2dec_cstr upd_out)

text \<open>A section that is absent, or good.\<close>

definition good_section :: "string \<Rightarrow> xmlNode \<Rightarrow> bool" where
  "good_section t n =
     (case find_by_tag (node_children n) t of None \<Rightarrow> True
      | Some s \<Rightarrow> has s ''num'' \<and> int (length (node_children s)) \<le> num_of s
          \<and> list_all good_point (node_children s))"

definition points_of :: "alloc_env \<Rightarrow> xmlNode \<Rightarrow> POINT_ITEM_T list" where
  "points_of env s =
     patch (map (fresh_point env) [0 ..< nat (num_of s)]) 0
       (map2 point_of (node_children s) (map (fresh_point env) [0 ..< length (node_children s)]))"

definition section_points :: "alloc_env \<Rightarrow> string \<Rightarrow> xmlNode \<Rightarrow> POINT_LIST_T" where
  "section_points env t n =
     (case find_by_tag (node_children n) t of None \<Rightarrow> zero_point_list
      | Some s \<Rightarrow> \<lparr>pl_nNum = num_of s,
          pl_point = (if 0 < num_of s then Some (points_of env s) else None), pl_lock = Unlocked\<rparr>)"

lemma load_point_list_good:
  assumes "reads_points item" and "good_section t n" and ok: "\<And>s. malloc_ok env s"
  shows "load_point_list env ty t item n zero_point_list = Inr (section_points env t n, True)"
proof (cases "find_by_tag (node_children n) t")
  case None
  then show ?thesis by (simp add: load_point_list_def section_points_def)
next
  case (Some s)
  with assms(2) have num: "has s ''num''" and len: "int (length (node_children s)) \<le> num_of s"
    and good: "list_all good_point (node_children s)"
    by (simp_all add: good_section_def)
  have dec: "dec_of (attr s ''num'') = num_of s" using num by (simp add: num_of_def has_attr)
  let ?pts = "map (fresh_point env) [0 ..< nat (num_of s)]"
  show ?thesis
  proof (cases "0 < num_of s")
    case True
    have tk: "take (length (node_children s)) ?pts = map (fresh_point env) [0 ..< length (node_children s)]"
      using len by (simp add: take_map take_upt)
    have "load_items item (int (length ?pts)) (node_children s) 0 ?pts =
        Inr (patch ?pts 0 (map2 point_of (node_children s) (take (length (node_children s)) (drop 0 ?pts))), True)"
      by (rule load_items_good) (use assms(1) good len in \<open>auto simp: wf_fresh_point\<close>)
    then have "load_items item (num_of s) (node_children s) 0 ?pts = Inr (points_of env s, True)"
      using True tk by (simp add: points_of_def)
    with Some num dec ok True show ?thesis
      by (simp add: load_point_list_def has_attr str2dec_cstr alloc_def Let_def section_points_def zero_point_list_def)
  next
    case False
    with Some num dec ok show ?thesis
      by (simp add: load_point_list_def has_attr str2dec_cstr alloc_def Let_def section_points_def zero_point_list_def)
  qed
qed

section \<open>Identifiers\<close>

definition id_value :: "string \<Rightarrow> u32" where
  "id_value s = (case str2hex (cstr s) (le32 0) 0 8 of Inl _ \<Rightarrow> 0 | Inr (b, k) \<Rightarrow> u32_le (rev b))"

definition good_id :: "xmlNode \<Rightarrow> bool" where
  "good_id n \<longleftrightarrow> has n ''name'' \<and> has n ''tag'' \<and> has n ''id'' \<and> good_name (attr n ''name'')
     \<and> good_name (attr n ''tag'')
     \<and> (case str2hex (cstr (attr n ''id'')) (le32 0) 0 8 of Inl _ \<Rightarrow> False | Inr _ \<Rightarrow> True)"

definition id_of :: "xmlNode \<Rightarrow> ID_ITEM_T \<Rightarrow> ID_ITEM_T" where
  "id_of n it = \<lparr>id_id = id_value (attr n ''id''), id_do_tag = name_over (id_do_tag it) (attr n ''name''),
     id_dotype_tag = name_over (id_dotype_tag it) (attr n ''tag'')\<rparr>"

lemma str2hex_length: "str2hex s buf 0 n = Inr (b, k) \<Longrightarrow> length b = length buf"
  using str2hex_loop_bounds [of s buf 0 n 0 False 0 b k] by (auto simp: str2hex_def)

lemma id_item_good:
  assumes "good_id n" and "length (id_do_tag it) = 64" and "length (id_dotype_tag it) = 64"
  shows "id_item it n = Inr (id_of n it)"
proof -
  from assms(1) obtain b k where h: "str2hex (cstr (attr n ''id'')) (le32 0) 0 8 = Inr (b, k)"
    by (auto simp: good_id_def split: sum.splits)
  then have "length b = 4" using str2hex_length by fastforce
  then have "reversecpy (le32 (id_id it)) b 4 = Inr (rev b)"
    using reversecpy_closed [of 4 "le32 (id_id it)" b] by simp
  with h assms show ?thesis
    by (simp add: id_item_def good_id_def has_attr strcpy_name id_of_def id_value_def)
qed

lemma length_fresh_id [simp]: "length (id_do_tag (fresh_id env i)) = 64" "length (id_dotype_tag (fresh_id env i)) = 64"
  by (simp_all add: fresh_id_def)

lemma load_ids_good:
  assumes "length items - k \<le> length ns" and "k \<le> length items"
    and "list_all good_id (take (length items - k) ns)"
    and "\<forall>i < length items. k \<le> i \<longrightarrow> length (id_do_tag (items ! i)) = 64 \<and> length (id_dotype_tag (items ! i)) = 64"
  shows "load_ids (int (length items)) ns k items =
     Inr (take k items @ map2 id_of (take (length items - k) ns) (drop k items))"
  using assms
proof (induction ns arbitrary: k items)
  case (Cons n ns)
  show ?case
  proof (cases "k = length items")
    case False
    with Cons.prems(2) have k: "k < length items" by simp
    then have diff: "length items - k = Suc (length items - Suc k)" by simp
    let ?items = "items[k := id_of n (items ! k)]"
    have "id_item (items ! k) n = Inr (id_of n (items ! k))"
      using Cons.prems k by (intro id_item_good) (simp_all add: diff)
    then have "load_ids (int (length items)) (n # ns) k items = load_ids (int (length ?items)) ns (Suc k) ?items"
      using k by (simp add: upd_def)
    also have "\<dots> = Inr (take (Suc k) ?items @ map2 id_of (take (length ?items - Suc k) ns) (drop (Suc k) ?items))"
      by (rule Cons.IH) (use Cons.prems k diff in auto)
    finally show ?thesis
      using k diff by (simp add: take_Suc_conv_app_nth Cons_nth_drop_Suc [symmetric])
  qed simp
qed simp

definition good_ids :: "xmlNode \<Rightarrow> bool" where
  "good_ids root =
     (case find_by_name (node_children root) ''ID_CFG'' of None \<Rightarrow> True
      | Some c \<Rightarrow> has c ''num'' \<and> 0 \<le> num_of c \<and> num_of c \<le> int (length (node_children c))
          \<and> list_all good_id (take (nat (num_of c)) (node_children c)))"

definition ids_of :: "alloc_env \<Rightarrow> xmlNode \<Rightarrow> ID_LIST_T" where
  "ids_of env root =
     (case find_by_name (node_children root) ''ID_CFG'' of None \<Rightarrow> \<lparr>il_nNum = 0, il_pItem = None\<rparr>
      | Some c \<Rightarrow> \<lparr>il_nNum = num_of c, il_pItem = Some
          (map2 id_of (take (nat (num_of c)) (node_children c)) (map (fresh_id env) [0 ..< nat (num_of c)]))\<rparr>)"

lemma load_id_good:
  assumes "good_ids root" and ok: "\<And>s. malloc_ok env s" and "id_list pm = \<lparr>il_nNum = 0, il_pItem = None\<rparr>"
  shows "load_id env root pm = Inr (pm\<lparr>id_list := ids_of env root\<rparr>, True)"
proof (cases "find_by_name (node_children root) ''ID_CFG''")
  case None
  with assms(3) show ?thesis by (simp add: load_id_def ids_of_def)
next
  case (Some c)
  with assms(1) have num: "has c ''num''" "0 \<le> num_of c" "num_of c \<le> int (length (node_children c))"
    and good: "list_all good_id (take (nat (num_of c)) (node_children c))"
    by (simp_all add: good_ids_def)
  have dec: "dec_of (attr c ''num'') = num_of c" using num by (simp add: num_of_def has_attr)
  let ?items = "map (fresh_id env) [0 ..< nat (num_of c)]"
  have "load_ids (int (length ?items)) (node_children c) 0 ?items =
      Inr (take 0 ?items @ map2 id_of (take (length ?items - 0) (node_children c)) (drop 0 ?items))"
    by (rule load_ids_good) (use num good in auto)
  with num have "load_ids (num_of c) (node_children c) 0 ?items =
      Inr (map2 id_of (take (nat (num_of c)) (node_children c)) ?items)" by simp
  with Some num dec ok show ?thesis
    by (simp add: load_id_def has_attr str2dec_cstr alloc_def Let_def ids_of_def)
qed

section \<open>The document\<close>

definition point_node :: "xmlDoc \<Rightarrow> xmlNode" where
  "point_node d = (case find_by_tag (node_children (section_of d ''IED_CFG'')) ''104tstied'' of
     None \<Rightarrow> no_node | Some n \<Rightarrow> n)"

definition good_points :: "xmlDoc \<Rightarrow> bool" where
  "good_points d \<longleftrightarrow> xmlDocGetRootElement d \<noteq> None
     \<and> find_by_name (node_children (root_of d)) ''IED_CFG'' \<noteq> None
     \<and> find_by_tag (node_children (section_of d ''IED_CFG'')) ''104tstied'' \<noteq> None
     \<and> good_section ''YC'' (point_node d) \<and> good_section ''YX'' (point_node d)
     \<and> good_section ''YM'' (point_node d) \<and> good_ids (root_of d)"

definition pointMap_of :: "alloc_env \<Rightarrow> xmlDoc \<Rightarrow> POINT_MAP_T" where
  "pointMap_of env d =
     \<lparr>ym_list = section_points env ''YM'' (point_node d), yx_list = section_points env ''YX'' (point_node d),
      yc_list = section_points env ''YC'' (point_node d), id_list = ids_of env (root_of d)\<rparr>"

lemma zero_pointMap_sel:
  "yx_list zero_pointMap = zero_point_list" "ym_list zero_pointMap = zero_point_list"
  "id_list zero_pointMap = \<lparr>il_nNum = 0, il_pItem = None\<rparr>"
  by (simp_all add: zero_pointMap_def)

lemma point_list_load_closed:
  assumes good: "good_points d" and ok: "\<And>s. malloc_ok env s"
  shows "rh_point_list_load env (Some d) = Inr (pointMap_of env d, 0)"
proof -
  let ?n = "point_node d"
  have root: "xmlDocGetRootElement d = Some (root_of d)"
    and cfg: "find_by_name (node_children (root_of d)) ''IED_CFG'' = Some (section_of d ''IED_CFG'')"
    and node: "find_by_tag (node_children (section_of d ''IED_CFG'')) ''104tstied'' = Some ?n"
    using good by (auto simp: good_points_def root_of_def section_of_def point_node_def)
  have yc: "load_yc env ?n zero_pointMap = Inr (zero_pointMap\<lparr>yc_list := section_points env ''YC'' ?n\<rparr>, True)"
    using load_point_list_good [OF reads_points(1) _ ok] good
    by (simp add: load_yc_def good_points_def zero_pointMap_def)
  have yx: "load_yx env ?n pm = Inr (pm\<lparr>yx_list := section_points env ''YX'' ?n\<rparr>, True)"
    if "yx_list pm = zero_point_list" for pm
    using load_point_list_good [OF reads_points(2) _ ok] good that by (simp add: load_yx_def good_points_def)
  have ym: "load_ym env ?n pm = Inr (pm\<lparr>ym_list := section_points env ''YM'' ?n\<rparr>, True)"
    if "ym_list pm = zero_point_list" for pm
    using load_point_list_good [OF reads_points(3) _ ok] good that by (simp add: load_ym_def good_points_def)
  have "good_ids (root_of d)" using good by (simp add: good_points_def)
  then show ?thesis
    by (simp add: rh_point_list_load_def root cfg node yc yx ym load_id_good ok zero_pointMap_sel)
      (simp add: zero_pointMap_def pointMap_of_def)
qed

lemma wf_ids_of:
  assumes "good_ids root"
  shows "table wf_id (il_pItem (ids_of env root)) (il_nNum (ids_of env root))"
proof (cases "find_by_name (node_children root) ''ID_CFG''")
  case None
  then show ?thesis by (simp add: ids_of_def table_def)
next
  case (Some c)
  with assms have num: "0 \<le> num_of c" "num_of c \<le> int (length (node_children c))"
    and good: "list_all good_id (take (nat (num_of c)) (node_children c))"
    by (simp_all add: good_ids_def)
  have "wf_id (id_of n (fresh_id env i))" if "good_id n" for n i
    using that by (simp add: wf_id_def id_of_def good_id_def name_over(2))
  with good have "list_all wf_id (map2 id_of (take (nat (num_of c)) (node_children c)) (map (fresh_id env) [0 ..< nat (num_of c)]))"
    by (auto simp: list_all_iff elim!: in_set_zipE)
  moreover have "min (length (node_children c)) (nat (num_of c)) = nat (num_of c)"
    using num by (simp add: nat_le_iff min_absorb2)
  ultimately show ?thesis using Some num by (simp add: ids_of_def table_def)
qed

section \<open>Properties\<close>

text \<open>An entry of a table just allocated, for the witnesses.\<close>

definition demo_point :: POINT_ITEM_T where
  "demo_point = \<lparr>pt_ied_tag = replicate 64 7, pt_do_tag = replicate 64 7, pt_dotype_tag = replicate 64 7,
     pt_addr = 9\<rparr>"

lemma wf_demo_point: "wf_point demo_point"
  by (simp add: wf_point_def demo_point_def)

lemma ccont_patch_zero:
  "0 \<notin> set a \<Longrightarrow> length a < length tag \<Longrightarrow> ccont (patch tag 0 (a @ [0])) = a"
  using ccont_append_zero [of a] by (simp add: patch_def)

text \<open>
  a path of three parts, each shorter than a name field and the first two without a dot, is
  split into exactly these parts as terminated strings, whatever the entry held before; the
  address is not touched.
\<close>

theorem point_path_parse_splits:
  assumes "wf_point pt" and "46 \<notin> set a" and "46 \<notin> set b" and "0 \<notin> set (a @ b @ c)"
    and "length a < 64" and "length b < 64" and "length c < 64"
  shows "\<exists>pt'. point_path_parse pt (Some (a @ 46 # b @ 46 # c @ 0 # rest)) = Inr pt'
     \<and> ccont (pt_ied_tag pt') = a \<and> ccont (pt_do_tag pt') = b \<and> ccont (pt_dotype_tag pt') = c
     \<and> pt_addr pt' = pt_addr pt \<and> wf_point pt'"
  using path_parse_closed [OF assms, of rest] assms
  by (simp add: ccont_patch_zero wf_point_def)

theorem point_path_parse_splits_witness:
  "\<exists>pt'. point_path_parse demo_point
       (Some ([109] @ 46 # [69, 97] @ 46 # [110, 46, 111] @ 0 # [1])) = Inr pt'
     \<and> ccont (pt_ied_tag pt') = [109] \<and> ccont (pt_do_tag pt') = [69, 97]
     \<and> ccont (pt_dotype_tag pt') = [110, 46, 111]
     \<and> pt_addr pt' = pt_addr demo_point \<and> wf_point pt'"
  by (rule point_path_parse_splits) (simp_all add: wf_demo_point)

text \<open>
  a path without a dot is stored in the device name without a terminator: the bytes behind it
  keep what the freshly allocated entry held, the object name is not written at all and the
  type name becomes empty.
\<close>

theorem path_without_dot_unterminated:
  assumes "wf_point pt" and "46 \<notin> set a" and "0 \<notin> set a" and "length a \<le> 64"
  shows "\<exists>pt'. point_path_parse pt (Some (a @ 0 # rest)) = Inr pt'
     \<and> take (length a) (pt_ied_tag pt') = a \<and> drop (length a) (pt_ied_tag pt') = drop (length a) (pt_ied_tag pt)
     \<and> pt_do_tag pt' = pt_do_tag pt \<and> ccont (pt_dotype_tag pt') = []"
proof -
  have len: "strlen (a @ 0 # rest) = Inr (length a)" using assms(3) by (rule strlen_append_zero)
  have seg: "copy_seg (pt_ied_tag pt) a 0 = Inr (patch (pt_ied_tag pt) 0 a, length a)"
    using copy_seg_no_dot [of a 0 "pt_ied_tag pt"] assms by (simp add: wf_point_def)
  have "ccont ((pt_dotype_tag pt)[0 := 0]) = []"
    by (cases "pt_dotype_tag pt") (simp_all add: ccont_def)
  then show ?thesis
    using len seg assms by (simp add: point_path_parse_def Let_def wf_point_def patch_def)
qed

theorem path_without_dot_unterminated_witness:
  "\<exists>pt'. point_path_parse demo_point (Some ([109, 49] @ 0 # [])) = Inr pt'
     \<and> take (length [109, 49 :: u8]) (pt_ied_tag pt') = [109, 49]
     \<and> drop (length [109, 49 :: u8]) (pt_ied_tag pt') = drop (length [109, 49 :: u8]) (pt_ied_tag demo_point)
     \<and> pt_do_tag pt' = pt_do_tag demo_point \<and> ccont (pt_dotype_tag pt') = []"
  by (rule path_without_dot_unterminated) (simp_all add: wf_demo_point)

text \<open>
  a point section with more entries than its \<^verbatim>\<open>num\<close> attribute makes each of the three loaders
  write one entry behind the table it allocated: the guard of the loops is \<^verbatim>\<open>k > nNum\<close> where it
  would have to be \<^verbatim>\<open>k >= nNum\<close>.
\<close>

theorem point_section_overrun:
  assumes "item \<in> {yc_item, yx_item, ym_item}" and s: "find_by_tag (node_children n) t = Some s"
    and num: "has s ''num''" "0 < num_of s" "num_of s < int (length (node_children s))"
    and good: "list_all good_point (node_children s)" and ok: "\<forall>site. malloc_ok env site"
  shows "load_point_list env ty t item n pl = Inl OutOfBounds"
proof -
  let ?pts = "map (fresh_point env) [0 ..< nat (num_of s)]"
  have dec: "dec_of (attr s ''num'') = num_of s" using num by (simp add: num_of_def has_attr)
  have "reads_points item" using assms(1) reads_points by auto
  moreover have "\<And>qs n. good_point n \<Longrightarrow> item qs (length qs) n = Inl OutOfBounds"
    using assms(1) items_overrun by auto
  ultimately have "load_items item (int (length ?pts)) (node_children s) 0 ?pts = Inl OutOfBounds"
    using good num by (intro load_items_overrun) (auto simp: wf_fresh_point)
  with s num dec ok show ?thesis
    by (simp add: load_point_list_def has_attr str2dec_cstr alloc_def Let_def)
qed

theorem point_section_overrun_witness:
  "load_point_list \<lparr>malloc_ok = (\<lambda>_. True), junk = (\<lambda>_. 0)\<rparr> DATA_YX ''YX'' yx_item
     (Element ''IED'' [] [Element ''LD'' [(''tag'', ''YX''), (''num'', ''1'')]
        [Element ''DO'' [(''addr'', ''1''), (''path'', ''a.b.c'')] [],
         Element ''DO'' [(''addr'', ''2''), (''path'', ''a.b.d'')] []]]) zero_point_list = Inl OutOfBounds"
  by (rule point_section_overrun [where s = "Element ''LD'' [(''tag'', ''YX''), (''num'', ''1'')]
        [Element ''DO'' [(''addr'', ''1''), (''path'', ''a.b.c'')] [],
         Element ''DO'' [(''addr'', ''2''), (''path'', ''a.b.d'')] []]"]) (simp, code_simp, code_simp, code_simp, code_simp, code_simp, simp)

end
