(* ===== verification/MemLayout.thy ===== *)
theory MemLayout
  imports MemPoints
begin

text \<open>
  The consequences of the closed forms of the loaders: the objects of the index tile the data
  memory, every field lies inside its object provided the document says so (\<open>fits_cfg\<close>), and the
  tables together with a zeroed memory of the announced size are a valid data store.
\<close>

section \<open>The objects of the index\<close>

definition index_objects :: "MEM_MAP_T \<Rightarrow> IED_DO_LIST_T list" where
  "index_objects mm = concat (map (\<lambda>ied. elems (ied_pDoList ied)) (elems (mm_pIedList mm)))"

lemma concat_ieds_of:
  "concat (map (\<lambda>ied. elems (ied_pDoList ied)) (ieds_of env templ len ns)) =
     dos_of env templ len (concat (map do_nodes ns))"
  by (induction ns arbitrary: len) (auto simp: ied_of_def elems_def dos_of_append)

lemma index_objects_of: "index_objects (index_of env d) = dos_of env (section_of d ''DataTypeTempltes'') 0 (objects d)"
  by (simp add: index_objects_def index_of_def elems_def [where p = "Some _"] concat_ieds_of objects_def)

lemma span_take_mono:
  assumes "list_all (\<lambda>n. 0 \<le> do_len n) ns" and "i \<le> j"
  shows "span (take i ns) \<le> span (take j ns)"
proof -
  obtain k where j: "j = i + k" using assms(2) le_Suc_ex by blast
  have "0 \<le> span (take k (drop i ns))"
    using assms(1) by (intro span_nonneg) (auto simp: list_all_iff dest: in_set_takeD in_set_dropD)
  then show ?thesis by (simp add: j take_add)
qed

lemma good_cfg_lens: "good_cfg d \<Longrightarrow> list_all (\<lambda>n. 0 \<le> do_len n) (objects d)"
  by (auto simp: good_cfg_def objects_def list_all_iff good_ied_def)

lemma good_cfg_dos: "good_cfg d \<Longrightarrow> n \<in> set (objects d) \<Longrightarrow> good_do (section_of d ''DataTypeTempltes'') n"
  by (auto simp: good_cfg_def objects_def list_all_iff good_ied_def)

text \<open>Object \<open>i\<close> starts where the lengths of the objects before it end.\<close>

lemma object_offset:
  assumes "good_cfg d" and "i < length (objects d)"
  shows "uint (dl_offset (index_objects (index_of env d) ! i)) = span (take i (objects d))"
    and "0 \<le> span (take i (objects d))" and "span (take (Suc i) (objects d)) \<le> span (objects d)"
proof -
  note lens = good_cfg_lens [OF assms(1)]
  show pos: "0 \<le> span (take i (objects d))" using span_take_mono [OF lens, of 0 i] by simp
  show le: "span (take (Suc i) (objects d)) \<le> span (objects d)"
    using span_take_mono [OF lens, of "Suc i" "length (objects d)"] assms(2) by simp
  have "span (take i (objects d)) \<le> 2147483647"
    using span_take_mono [OF lens, of i "length (objects d)"] assms by (simp add: good_cfg_def)
  then show "uint (dl_offset (index_objects (index_of env d) ! i)) = span (take i (objects d))"
    using assms pos by (simp add: index_objects_of nth_dos_of do_of_def uint_word_of_int)
qed

section \<open>Fields inside their objects\<close>

definition fits_unit :: "int \<Rightarrow> xmlNode \<Rightarrow> bool" where
  "fits_unit len n \<longleftrightarrow> 0 \<le> dec_of (attr n ''offset'') \<and> 0 \<le> dec_of (attr n ''len'')
     \<and> dec_of (attr n ''offset'') + dec_of (attr n ''len'') \<le> len"

definition fits_do :: "xmlNode \<Rightarrow> xmlNode \<Rightarrow> bool" where
  "fits_do templ n \<longleftrightarrow> list_all (fits_unit (do_len n)) (field_nodes templ n)"

definition fits_cfg :: "xmlDoc \<Rightarrow> bool" where
  "fits_cfg d \<longleftrightarrow> list_all (fits_do (section_of d ''DataTypeTempltes'')) (objects d)"

lemma units_of_fits:
  assumes "fits_do templ n" and "u \<in> set (units_of env templ n)"
  shows "0 \<le> du_offset u \<and> 0 \<le> du_dataLen u \<and> du_offset u + du_dataLen u \<le> do_len n"
proof -
  from assms(2) obtain c u0 where "c \<in> set (field_nodes templ n)" and "u = unit_of c u0"
    by (auto simp: units_of_def dest!: set_zip_leftD [of _ _ "field_nodes templ n"] elim!: in_set_zipE)
  with assms(1) show ?thesis by (auto simp: fits_do_def list_all_iff fits_unit_def unit_of_def)
qed

text \<open>Every field of object \<open>i\<close> lies in the window of that object.\<close>

lemma field_in_object:
  assumes "good_cfg d" and "fits_cfg d" and i: "i < length (objects d)"
    and u: "u \<in> set (elems (dl_pDotList_104 o'))  \<union> set (elems (dl_pDotList_698 o'))"
    and o: "o' = index_objects (index_of env d) ! i"
  shows "span (take i (objects d)) \<le> data_addr o' u" and "0 \<le> du_dataLen u"
    and "data_addr o' u + du_dataLen u \<le> span (take (Suc i) (objects d))"
proof -
  let ?t = "section_of d ''DataTypeTempltes''"
  have "u \<in> set (units_of env ?t (objects d ! i))"
    using u i by (auto simp: o index_objects_of nth_dos_of do_of_def elems_def)
  moreover have "fits_do ?t (objects d ! i)" using assms(2) i by (simp add: fits_cfg_def list_all_length)
  ultimately have "0 \<le> du_offset u \<and> 0 \<le> du_dataLen u \<and> du_offset u + du_dataLen u \<le> do_len (objects d ! i)"
    by (rule units_of_fits [rotated])
  then show "span (take i (objects d)) \<le> data_addr o' u" and "0 \<le> du_dataLen u"
    and "data_addr o' u + du_dataLen u \<le> span (take (Suc i) (objects d))"
    using object_offset(1) [OF assms(1) i, of env] i
    by (simp_all add: data_addr_def o take_Suc_conv_app_nth)
qed

lemma index_fits_of:
  assumes "good_cfg d" and "fits_cfg d" and "s_memMap m = index_of env d"
  shows "index_fits (nat (span (objects d))) m"
proof -
  have tot: "0 \<le> span (objects d)" using span_nonneg good_cfg_lens assms(1) by blast
  have "do_fits (nat (span (objects d))) o'" if o: "o' \<in> set (index_objects (index_of env d))" for o'
  proof -
    have "length (index_objects (index_of env d)) = length (objects d)" by (simp add: index_objects_of)
    with o obtain i where i: "i < length (objects d)" and oi: "o' = index_objects (index_of env d) ! i"
      by (auto simp: in_set_conv_nth)
    show ?thesis
      using field_in_object [OF assms(1,2) i _ oi] object_offset(2,3) [OF assms(1) i] tot
      by (fastforce simp: do_fits_def list_all_iff unit_fits_def)
  qed
  then show ?thesis
    by (auto simp: index_fits_def list_all_iff assms(3) index_objects_def)
qed

section \<open>Well-formedness\<close>

lemma table_Some: "table ok (Some xs) n \<longleftrightarrow> n = int (length xs) \<and> list_all ok xs"
  by (simp add: table_def)

lemma wf_units_of:
  assumes "good_do templ n"
  shows "list_all wf_unit (units_of env templ n)"
proof -
  have "wf_unit (unit_of c (fresh_unit env k))" if "c \<in> set (field_nodes templ n)" for c k
  proof -
    have "good_name (attr c ''tag'')"
      using assms that by (auto simp: good_do_def list_all_iff good_unit_def)
    then show ?thesis by (simp add: wf_unit_def unit_of_def name_over(2))
  qed
  then show ?thesis by (auto simp: units_of_def list_all_iff elim!: in_set_zipE)
qed

lemma wf_do_of:
  assumes "good_do templ n"
  shows "wf_do (do_of env templ len n)"
proof -
  have "int (length (units_of env templ n)) = num_of (fields_node templ n)"
    using length_units_of [OF assms] assms by (simp add: good_do_def)
  with assms wf_units_of [OF assms] show ?thesis
    by (simp add: wf_do_def do_of_def table_Some name_over(2) good_do_def)
qed

lemma wf_ied_of:
  assumes "good_ied templ n"
  shows "wf_ied (ied_of env templ len n)"
proof -
  have "list_all wf_do (dos_of env templ len (do_nodes n))"
    using assms wf_do_of by (auto simp: list_all_length nth_dos_of good_ied_def)
  moreover have "int (length (do_nodes n)) = num_of n"
    using length_do_nodes [OF assms] assms by (simp add: good_ied_def)
  ultimately show ?thesis
    using assms by (simp add: wf_ied_def ied_of_def table_Some name_over(2) good_ied_def)
qed

lemma wf_index_of:
  assumes "good_cfg d"
  shows "table wf_ied (mm_pIedList (index_of env d)) (mm_nNum (index_of env d))"
    and "list_all (\<lambda>ied. ied_lock ied = Unlocked) (elems (mm_pIedList (index_of env d)))"
proof -
  let ?t = "section_of d ''DataTypeTempltes''"
  have "list_all wf_ied (ieds_of env ?t len ns)" if "list_all (good_ied ?t) ns" for len ns
    using that by (induction ns arbitrary: len) (auto simp: wf_ied_of)
  moreover have "int (length (devices d)) = num_of (section_of d ''IED_CFG'')"
    using assms by (auto simp: good_cfg_def devices_def nat_le_iff min_absorb2)
  ultimately show "table wf_ied (mm_pIedList (index_of env d)) (mm_nNum (index_of env d))"
    using assms by (simp add: index_of_def table_Some good_cfg_def)
  have "list_all (\<lambda>ied. ied_lock ied = Unlocked) (ieds_of env ?t len ns)" for len ns
    by (induction ns arbitrary: len) (auto simp: ied_of_def)
  then show "list_all (\<lambda>ied. ied_lock ied = Unlocked) (elems (mm_pIedList (index_of env d)))"
    by (simp add: index_of_def elems_def)
qed

section \<open>The loaded state\<close>

definition loaded_mem :: "alloc_env \<Rightarrow> xmlDoc \<Rightarrow> xmlDoc \<Rightarrow> mem_state" where
  "loaded_mem env d1 d2 = \<lparr>s_pointMap = pointMap_of env d1, s_memMap = index_of env d2,
     s_pDataMem = Some (replicate (nat (span (objects d2))) 0)\<rparr>"

lemma valid_loaded:
  assumes "good_points d1" and "good_cfg d2" and "fits_cfg d2"
  shows "valid_mem (loaded_mem env d1 d2)"
proof -
  let ?m = "loaded_mem env d1 d2"
  have "good_ids (root_of d1)" using assms(1) by (simp add: good_points_def)
  then have "wf_mem ?m"
    using wf_index_of(1) [OF assms(2)] wf_ids_of by (simp add: wf_mem_def loaded_mem_def pointMap_of_def)
  moreover have "ieds_free ?m"
    using wf_index_of(2) [OF assms(2)] by (simp add: ieds_free_def loaded_mem_def list_all_iff)
  moreover have "index_fits (nat (span (objects d2))) ?m"
    by (rule index_fits_of [OF assms(2,3)]) (simp add: loaded_mem_def)
  ultimately show ?thesis by (simp add: valid_mem_def) (simp add: loaded_mem_def)
qed

section \<open>Properties\<close>

text \<open>
  A small configuration for the witnesses: one device with point number 1 and two objects, the
  second described by a template, one telemetry point and two identifiers.
\<close>

definition demo_doc :: xmlDoc where
  "demo_doc = [Element ''ROOT'' []
     [Element ''IED_CFG'' [(''num'', ''1'')]
       [Element ''IED'' [(''tag'', ''104tstied'')]
         [Element ''LD'' [(''tag'', ''YC''), (''num'', ''1'')]
           [Element ''DO'' [(''addr'', ''16385''), (''path'', ''m1.E.now'')] []]],
        Element ''IED'' [(''tag'', ''m1''), (''pn'', ''1''), (''num'', ''2'')]
         [Element ''DO'' [(''tag'', ''U''), (''len'', ''4''), (''num'', ''1'')]
           [Element ''DA'' [(''tag'', ''a''), (''len'', ''4''), (''offset'', ''0'')] []],
          Element ''DO'' [(''tag'', ''E''), (''len'', ''8''), (''dotype'', ''pair'')] []]],
      Element ''DataTypeTempltes'' []
       [Element ''DOType'' [(''tag'', ''pair''), (''num'', ''2'')]
         [Element ''DA'' [(''tag'', ''now''), (''len'', ''4''), (''offset'', ''0'')] [],
          Element ''DA'' [(''tag'', ''old''), (''len'', ''4''), (''offset'', ''4'')] []]],
      Element ''ID_CFG'' [(''num'', ''2'')]
       [Element ''ID'' [(''name'', ''E''), (''tag'', ''now''), (''id'', ''00010000'')] [],
        Element ''ID'' [(''name'', ''E''), (''tag'', ''old''), (''id'', ''0001ff01'')] []]]]"

definition demo_env :: alloc_env where
  "demo_env = \<lparr>malloc_ok = (\<lambda>_. True), junk = (\<lambda>n. of_nat n + 3)\<rparr>"

lemma demo_doc: "good_points demo_doc" "good_cfg demo_doc" "fits_cfg demo_doc"
  by code_simp+

text \<open>
  C20: on every well-formed configuration \<^verbatim>\<open>rh_mem_map_init\<close> succeeds and lays the objects of all devices
  out one after another: object \<open>i\<close> begins where the lengths of the objects before it end, and
  the size it returns for the data memory is the sum of all lengths (the comment above the
  function promises 0, its caller uses the size).
\<close>

theorem map_init_tiles_memory:
  assumes "good_cfg d" and "\<And>s. malloc_ok env s"
  shows "\<exists>mm. rh_mem_map_init env (Some d) = Inr (mm, sum_list (map do_len (objects d)))
     \<and> length (index_objects mm) = length (objects d)
     \<and> (\<forall>i < length (objects d). uint (dl_offset (index_objects mm ! i)) = sum_list (map do_len (take i (objects d))))"
  using map_init_closed [OF assms] object_offset(1) [OF assms(1), of _ env]
  by (simp add: index_objects_of span_def)

theorem map_init_tiles_memory_witness:
  "\<exists>mm. rh_mem_map_init demo_env (Some demo_doc) = Inr (mm, 12) \<and> length (index_objects mm) = 2
     \<and> uint (dl_offset (index_objects mm ! 1)) = 4"
proof -
  have m: "malloc_ok demo_env x" for x by (simp add: demo_env_def)
  have o: "length (objects demo_doc) = 2" "sum_list (map do_len (objects demo_doc)) = 12"
    "sum_list (map do_len (take 1 (objects demo_doc))) = 4" by code_simp+
  obtain mm where mm: "rh_mem_map_init demo_env (Some demo_doc) = Inr (mm, sum_list (map do_len (objects demo_doc)))"
    "length (index_objects mm) = length (objects demo_doc)"
    "\<forall>i < length (objects demo_doc). uint (dl_offset (index_objects mm ! i)) = sum_list (map do_len (take i (objects demo_doc)))"
    using map_init_tiles_memory [OF demo_doc(2) m] by blast
  from mm(3) [rule_format, of 1] mm(1,2) show ?thesis unfolding o by simp
qed

text \<open>
  C21: the fields of different objects of a loaded index never overlap: if the document keeps every
  field inside its object, a field of an earlier object ends before any field of a later one
  begins, and the last ends inside the data memory.
\<close>

theorem fields_of_objects_disjoint:
  assumes "good_cfg d" and "fits_cfg d" and "\<And>s. malloc_ok env s" and "i < j" and "j < length (objects d)"
    and init: "rh_mem_map_init env (Some d) = Inr (mm, total_len)"
    and "u \<in> set (elems (dl_pDotList_698 (index_objects mm ! i)))"
    and "v \<in> set (elems (dl_pDotList_698 (index_objects mm ! j)))"
  shows "0 \<le> data_addr (index_objects mm ! i) u
     \<and> data_addr (index_objects mm ! i) u + du_dataLen u \<le> data_addr (index_objects mm ! j) v
     \<and> data_addr (index_objects mm ! j) v + du_dataLen v \<le> total_len"
proof -
  have mm: "mm = index_of env d" "total_len = span (objects d)" using map_init_closed [OF assms(1,3)] init by simp_all
  have i: "i < length (objects d)" using assms(4,5) by simp
  have "span (take (Suc i) (objects d)) \<le> span (take j (objects d))"
    using span_take_mono [OF good_cfg_lens [OF assms(1)]] assms(4) by simp
  then show ?thesis
    using field_in_object [OF assms(1,2) i _ refl, of u env] field_in_object [OF assms(1,2,5) _ refl, of v env]
      object_offset(2) [OF assms(1) i] object_offset(3) [OF assms(1,5)] assms(7,8) mm by force
qed

theorem fields_of_objects_disjoint_witness:
  "\<exists>mm u v. rh_mem_map_init demo_env (Some demo_doc) = Inr (mm, 12)
     \<and> data_addr (index_objects mm ! 0) u + du_dataLen u \<le> data_addr (index_objects mm ! 1) v
     \<and> u \<in> set (elems (dl_pDotList_698 (index_objects mm ! 0))) \<and> v \<in> set (elems (dl_pDotList_698 (index_objects mm ! 1)))"
proof -
  have m: "malloc_ok demo_env x" for x by (simp add: demo_env_def)
  have o: "length (objects demo_doc) = 2" "span (objects demo_doc) = 12" by code_simp+
  let ?mm = "index_of demo_env demo_doc"
  have init: "rh_mem_map_init demo_env (Some demo_doc) = Inr (?mm, 12)"
    using map_init_closed [OF demo_doc(2) m] o by simp
  have "elems (dl_pDotList_698 (index_objects ?mm ! 0)) \<noteq> []" "elems (dl_pDotList_698 (index_objects ?mm ! 1)) \<noteq> []"
    by code_simp+
  then obtain u v where u: "u \<in> set (elems (dl_pDotList_698 (index_objects ?mm ! 0)))"
    and v: "v \<in> set (elems (dl_pDotList_698 (index_objects ?mm ! 1)))" by (meson last_in_set)
  have "data_addr (index_objects ?mm ! 0) u + du_dataLen u \<le> data_addr (index_objects ?mm ! 1) v"
    using fields_of_objects_disjoint [OF demo_doc(2,3) m _ _ init u v] o by simp
  with init u v show ?thesis by blast
qed

end
