(* ===== verification/XdrCodec.thy ===== *)
theory XdrCodec
  imports ElCommon
begin

text \<open>
  The second half of \<^verbatim>\<open>code/elCommon.c\<close>: the wire codec (\<^verbatim>\<open>xdr_*\<close>) of message payloads.
  What a codec promises its clients is the locale \<open>xdr_codec\<close>: the encoder overwrites exactly
  the window of the value's encoding or faults, and the decoder reads that window back.  The
  locale is interpreted for every encoder of the file; \<open>xdr_pair\<close> composes two of them in
  sequence, as the request builders do.
\<close>

section \<open>The wire codec\<close>

text \<open>
  Every encoder writes into \<open>pBuf\<close> from offset \<open>p\<close> and returns the number of bytes; every
  decoder reads from offset \<open>p\<close> and returns the value with the number of bytes consumed.
\<close>

definition xdr_add_uint8 :: "u8 list \<Rightarrow> nat \<Rightarrow> u8 \<Rightarrow> (u8 list \<times> int) res" where
  "xdr_add_uint8 pBuf p val = bindR (wr pBuf p val) (\<lambda>b. Inr (b, 1))"

definition xdr_get_uint8 :: "u8 list \<Rightarrow> nat \<Rightarrow> (u8 \<times> int) res" where
  "xdr_get_uint8 pBuf p = bindR (rd pBuf p) (\<lambda>v. Inr (v, 1))"

definition xdr_add_uint16 :: "u8 list \<Rightarrow> nat \<Rightarrow> u16 \<Rightarrow> (u8 list \<times> int) res" where
  "xdr_add_uint16 pBuf p val =
     bindR (wr pBuf p (ucast (drop_bit 8 val))) (\<lambda>b.
     bindR (wr b (p + 1) (ucast val)) (\<lambda>b. Inr (b, 2)))"

definition xdr_get_uint16 :: "u8 list \<Rightarrow> nat \<Rightarrow> (u16 \<times> int) res" where
  "xdr_get_uint16 pBuf p =
     bindR (rd pBuf p) (\<lambda>b1.
     bindR (rd pBuf (p + 1)) (\<lambda>b0. Inr (u16_le [b0, b1], 2)))"

definition xdr_add_uint32 :: "u8 list \<Rightarrow> nat \<Rightarrow> u32 \<Rightarrow> (u8 list \<times> int) res" where
  "xdr_add_uint32 pBuf p val =
     bindR (wr pBuf p (ucast (drop_bit 24 val))) (\<lambda>b.
     bindR (wr b (p + 1) (ucast (drop_bit 16 val))) (\<lambda>b.
     bindR (wr b (p + 2) (ucast (drop_bit 8 val))) (\<lambda>b.
     bindR (wr b (p + 3) (ucast val)) (\<lambda>b. Inr (b, 4)))))"

definition xdr_get_uint32 :: "u8 list \<Rightarrow> nat \<Rightarrow> (u32 \<times> int) res" where
  "xdr_get_uint32 pBuf p =
     bindR (rd pBuf p) (\<lambda>b3.
     bindR (rd pBuf (p + 1)) (\<lambda>b2.
     bindR (rd pBuf (p + 2)) (\<lambda>b1.
     bindR (rd pBuf (p + 3)) (\<lambda>b0. Inr (u32_le [b0, b1, b2, b3], 4)))))"

text \<open>
  The variable length: one byte up to 127, otherwise a byte \<open>0x80 + n\<close> and \<open>n\<close> bytes, most
  significant first, read off the little-endian image of \<open>nSize\<close>.
\<close>

definition nBytes_of :: "u32 \<Rightarrow> u8" where
  "nBytes_of nSize =
     1 + (if nSize > 0xFF then 1 else 0) + (if nSize > 0xFFFF then 1 else 0)
       + (if nSize > 0xFFFFFF then 1 else 0)"

text \<open>The loop \<^verbatim>\<open>for(i=nBytes-1;i>=0;i--)\<close>: \<open>k\<close> is \<open>i + 1\<close>.\<close>

fun add_len_loop :: "u8 list \<Rightarrow> nat \<Rightarrow> u8 list \<Rightarrow> nat \<Rightarrow> (u8 list \<times> nat) res" where
  "add_len_loop pBuf q bytes 0 = Inr (pBuf, q)"
| "add_len_loop pBuf q bytes (Suc k) =
     bindR (rd bytes k) (\<lambda>v. bindR (wr pBuf q v) (\<lambda>b. add_len_loop b (Suc q) bytes k))"

definition xdr_add_variantlen :: "u8 list \<Rightarrow> nat \<Rightarrow> u32 \<Rightarrow> (u8 list \<times> int) res" where
  "xdr_add_variantlen pBuf p nSize =
     (if nSize \<le> 127 then bindR (wr pBuf p (ucast nSize)) (\<lambda>b. Inr (b, 1))
      else bindR (wr pBuf p (or (nBytes_of nSize) 0x80)) (\<lambda>b.
           bindR (add_len_loop b (p + 1) (le32 nSize) (unat (nBytes_of nSize))) (\<lambda>(b, q).
             Inr (b, int q - int p))))"

text \<open>
  The decoder stores the length bytes into the four bytes of \<open>*nLen\<close>; a count above four
  stores outside it.
\<close>

fun get_len_loop :: "u8 list \<Rightarrow> nat \<Rightarrow> u8 list \<Rightarrow> nat \<Rightarrow> (u8 list \<times> nat) res" where
  "get_len_loop pBuf q nLen 0 = Inr (nLen, q)"
| "get_len_loop pBuf q nLen (Suc k) =
     bindR (rd pBuf q) (\<lambda>v. bindR (wr nLen k v) (\<lambda>l. get_len_loop pBuf (Suc q) l k))"

definition xdr_get_variantlen :: "u8 list \<Rightarrow> nat \<Rightarrow> (u32 \<times> int) res" where
  "xdr_get_variantlen pBuf p =
     bindR (rd pBuf p) (\<lambda>nBytes.
       if and nBytes 0x80 = 0 then Inr (ucast nBytes, 1)
       else bindR (get_len_loop pBuf (p + 1) (le32 0) (unat (and nBytes 0x7F))) (\<lambda>(l, q).
              Inr (u32_le l, int q - int p)))"

definition xdr_add_OCTET_STRING ::
  "u8 list \<Rightarrow> nat \<Rightarrow> u8 list \<Rightarrow> u32 \<Rightarrow> (u8 list \<times> int) res" where
  "xdr_add_OCTET_STRING pBuf p pData nSize =
     bindR (xdr_add_variantlen pBuf p nSize) (\<lambda>(b, n).
     bindR (memcpy b (p + nat n) pData 0 (unat nSize)) (\<lambda>b.
       Inr (b, n + uint nSize)))"

text \<open>The result is the destination \<open>pData\<close>, the size stored in \<open>*nSize\<close> and the return value.\<close>

definition xdr_get_OCTET_STRING ::
  "u8 list \<Rightarrow> nat \<Rightarrow> u8 list \<Rightarrow> u32 \<Rightarrow> (u8 list \<times> u32 \<times> int) res" where
  "xdr_get_OCTET_STRING pBuf p pData len =
     bindR (xdr_get_variantlen pBuf p) (\<lambda>(nSize, nRet).
       if nRet < 0 then Inr (pData, 0, - 1)
       else if nSize > len then Inr (pData, 0, - 1)
       else bindR (memcpy pData 0 pBuf (p + nat nRet) (unat nSize)) (\<lambda>pData'.
              Inr (pData', nSize, nRet + uint nSize)))"

section \<open>What a codec promises\<close>

locale xdr_codec =
  fixes add :: "u8 list \<Rightarrow> nat \<Rightarrow> 'v \<Rightarrow> (u8 list \<times> int) res"
    and get :: "u8 list \<Rightarrow> nat \<Rightarrow> ('v \<times> int) res"
    and enc :: "'v \<Rightarrow> u8 list"
    and ok :: "'v \<Rightarrow> bool"
  assumes add_enc: "ok v \<Longrightarrow> add buf p v =
      (if p + length (enc v) \<le> length buf
       then Inr (patch buf p (enc v), int (length (enc v))) else Inl OutOfBounds)"
    and get_enc: "ok v \<Longrightarrow> p + length (enc v) \<le> length buf \<Longrightarrow>
      take (length (enc v)) (drop p buf) = enc v \<Longrightarrow> get buf p = Inr (v, int (length (enc v)))"
begin

lemma add_Inr:
  "ok v \<Longrightarrow> add buf p v = Inr (buf', n) \<longleftrightarrow>
     p + length (enc v) \<le> length buf \<and> buf' = patch buf p (enc v) \<and> n = int (length (enc v))"
  by (auto simp: add_enc)

lemma roundtrip: "ok v \<Longrightarrow> add buf p v = Inr (buf', n) \<Longrightarrow> get buf' p = Inr (v, n)"
  by (auto simp: add_Inr intro!: get_enc)

lemma add_length: "ok v \<Longrightarrow> add buf p v = Inr (buf', n) \<Longrightarrow> length buf' = length buf"
  by (auto simp: add_Inr)

lemma add_frame:
  assumes "ok v" and "add buf p v = Inr (buf', n)" and "i + k \<le> p \<or> p + nat n \<le> i"
  shows "take k (drop i buf') = take k (drop i buf)"
  using assms by (auto simp: add_Inr intro!: window_patch_other)

text \<open>Two values whose encodings both start the same buffer are the same value.\<close>

lemma unique_decoding:
  assumes "ok v" and "ok w" and "p + length (enc v) \<le> length buf" and "p + length (enc w) \<le> length buf"
    and "take (length (enc v)) (drop p buf) = enc v" and "take (length (enc w)) (drop p buf) = enc w"
  shows "v = w"
  using get_enc [of v p buf] get_enc [of w p buf] assms by simp

end

text \<open>Two codecs in sequence, as the request builders use them: the fields do not disturb each other.\<close>

locale xdr_pair =
  c1: xdr_codec add1 get1 enc1 ok1 + c2: xdr_codec add2 get2 enc2 ok2
  for add1 :: "u8 list \<Rightarrow> nat \<Rightarrow> 'v \<Rightarrow> (u8 list \<times> int) res" and get1 enc1 ok1
    and add2 :: "u8 list \<Rightarrow> nat \<Rightarrow> 'w \<Rightarrow> (u8 list \<times> int) res" and get2 enc2 ok2
begin

lemma pair_roundtrip:
  assumes "ok1 v" and "ok2 w" and a1: "add1 buf p v = Inr (b1, n)" and a2: "add2 b1 (p + nat n) w = Inr (b2, m)"
  shows "get1 b2 p = Inr (v, n) \<and> get2 b2 (p + nat n) = Inr (w, m)"
proof
  show "get2 b2 (p + nat n) = Inr (w, m)" using assms by (blast intro: c2.roundtrip)
  from a1 \<open>ok1 v\<close> have n: "n = int (length (enc1 v))" and fits: "p + length (enc1 v) \<le> length buf"
    and b1: "b1 = patch buf p (enc1 v)" by (auto simp: c1.add_Inr)
  from a2 \<open>ok2 w\<close> have len: "length b2 = length b1" by (rule c2.add_length [rotated])
  have "take (length (enc1 v)) (drop p b2) = take (length (enc1 v)) (drop p b1)"
    using c2.add_frame [OF \<open>ok2 w\<close> a2, of p "length (enc1 v)"] n by simp
  then have "take (length (enc1 v)) (drop p b2) = enc1 v" using fits by (simp add: b1)
  then show "get1 b2 p = Inr (v, n)"
    using \<open>ok1 v\<close> fits len n by (simp add: b1 c1.get_enc)
qed

lemma pair_add:
  assumes "ok1 v" and "ok2 w" and "p + length (enc1 v) + length (enc2 w) \<le> length buf"
  shows "\<exists>b1. add1 buf p v = Inr (b1, int (length (enc1 v)))
    \<and> add2 b1 (p + length (enc1 v)) w =
        Inr (patch buf p (enc1 v @ enc2 w), int (length (enc2 w)))"
  using assms by (simp add: c1.add_enc c2.add_enc patch_append)

end

section \<open>The encoders of the file\<close>

definition enc_uint16 :: "u16 \<Rightarrow> u8 list" where
  "enc_uint16 v = rev (le16 v)"

definition enc_uint32 :: "u32 \<Rightarrow> u8 list" where
  "enc_uint32 v = rev (le32 v)"

definition enc_variantlen :: "u32 \<Rightarrow> u8 list" where
  "enc_variantlen v =
     (if v \<le> 127 then [ucast v]
      else or (nBytes_of v) 0x80 # rev (take (unat (nBytes_of v)) (le32 v)))"

lemma window_nth:
  "take n (drop p buf) = w \<Longrightarrow> i < n \<Longrightarrow> p + n \<le> length buf \<Longrightarrow> buf ! (p + i) = w ! i"
  by auto

interpretation xdr_u8: xdr_codec xdr_add_uint8 xdr_get_uint8 "\<lambda>v. [v]" "\<lambda>_. True"
proof
  fix buf :: "u8 list" and p v
  show "xdr_add_uint8 buf p v = (if p + length [v] \<le> length buf
      then Inr (patch buf p [v], int (length [v])) else Inl OutOfBounds)"
    by (auto simp: xdr_add_uint8_def wr_def patch_single)
  show "xdr_get_uint8 buf p = Inr (v, int (length [v]))"
    if "p + length [v] \<le> length buf" "take (length [v]) (drop p buf) = [v]"
    using window_nth [OF that(2), of 0] that(1) by (simp add: xdr_get_uint8_def)
qed

interpretation xdr_u16: xdr_codec xdr_add_uint16 xdr_get_uint16 enc_uint16 "\<lambda>_. True"
proof
  fix buf :: "u8 list" and p v
  have two: "patch buf p [a, b] = (buf[p := a])[Suc p := b]" if "p + 2 \<le> length buf" for a b
    using that patch_snoc [of p "[a]" buf b] by (simp add: patch_single)
  show "xdr_add_uint16 buf p v = (if p + length (enc_uint16 v) \<le> length buf
      then Inr (patch buf p (enc_uint16 v), int (length (enc_uint16 v))) else Inl OutOfBounds)"
    by (auto simp: xdr_add_uint16_def enc_uint16_def le16_def wr_def two)
  assume fits: "p + length (enc_uint16 v) \<le> length buf"
    and win: "take (length (enc_uint16 v)) (drop p buf) = enc_uint16 v"
  have "buf ! (p + i) = enc_uint16 v ! i" if "i < 2" for i
    using window_nth [OF win, of i] fits that by (simp add: enc_uint16_def)
  from this [of 0] this [of 1] have "[buf ! (p + 1), buf ! p] = le16 v"
    by (simp add: enc_uint16_def le16_def)
  then show "xdr_get_uint16 buf p = Inr (v, int (length (enc_uint16 v)))"
    using fits by (simp add: xdr_get_uint16_def enc_uint16_def)
qed

interpretation xdr_u32: xdr_codec xdr_add_uint32 xdr_get_uint32 enc_uint32 "\<lambda>_. True"
proof
  fix buf :: "u8 list" and p v
  have four: "patch buf p [a, b, c, d] = (((buf[p := a])[p + 1 := b])[p + 2 := c])[p + 3 := d]"
    if "p + 4 \<le> length buf" for a b c d
    using that patch_snoc [of p "[a]" buf b] patch_snoc [of p "[a, b]" buf c]
      patch_snoc [of p "[a, b, c]" buf d]
    by (simp add: patch_single eval_nat_numeral)
  show "xdr_add_uint32 buf p v = (if p + length (enc_uint32 v) \<le> length buf
      then Inr (patch buf p (enc_uint32 v), int (length (enc_uint32 v))) else Inl OutOfBounds)"
    by (auto simp: xdr_add_uint32_def enc_uint32_def le32_def wr_def four)
  assume fits: "p + length (enc_uint32 v) \<le> length buf"
    and win: "take (length (enc_uint32 v)) (drop p buf) = enc_uint32 v"
  have "buf ! (p + i) = enc_uint32 v ! i" if "i < 4" for i
    using window_nth [OF win, of i] fits that by (simp add: enc_uint32_def)
  from this [of 0] this [of 1] this [of 2] this [of 3]
  have "[buf ! (p + 3), buf ! (p + 2), buf ! (p + 1), buf ! p] = le32 v"
    by (simp add: enc_uint32_def le32_def)
  then show "xdr_get_uint32 buf p = Inr (v, int (length (enc_uint32 v)))"
    using fits by (simp add: xdr_get_uint32_def enc_uint32_def)
qed

section \<open>The variable length\<close>

lemma add_len_loop_closed:
  assumes "k \<le> length bytes" and "q \<le> length buf"
  shows "add_len_loop buf q bytes k =
     (if q + k \<le> length buf then Inr (patch buf q (rev (take k bytes)), q + k)
      else Inl OutOfBounds)"
  using assms
proof (induction k arbitrary: buf q)
  case (Suc k)
  have snoc: "rev (take (Suc k) bytes) = bytes ! k # rev (take k bytes)"
    using Suc.prems by (simp add: take_Suc_conv_app_nth)
  show ?case
  proof (cases "q < length buf")
    case True
    have "patch (buf[q := bytes ! k]) (Suc q) (rev (take k bytes)) = patch buf q (rev (take (Suc k) bytes))"
      if "q + Suc k \<le> length buf"
      using that True Suc.prems patch_append [of q "[bytes ! k]" "rev (take k bytes)" buf]
      by (simp add: patch_single snoc)
    with True Suc show ?thesis by simp
  qed (use Suc.prems in auto)
qed simp

lemma get_len_loop_closed:
  assumes "k \<le> length nLen" and "q + k \<le> length buf"
  shows "get_len_loop buf q nLen k = Inr (rev (take k (drop q buf)) @ drop k nLen, q + k)"
  using assms
proof (induction k arbitrary: nLen q)
  case (Suc k)
  have "drop q buf = buf ! q # drop (Suc q) buf"
    using Suc.prems by (simp add: Cons_nth_drop_Suc)
  moreover have "drop k (nLen[k := v]) = v # drop (Suc k) nLen" for v
    using Suc.prems by (simp add: drop_update_swap Cons_nth_drop_Suc [symmetric])
  ultimately show ?case using Suc by simp
qed simp

lemma get_len_loop_overrun:
  assumes "length nLen < k"
  shows "get_len_loop buf q nLen k = Inl OutOfBounds"
  using assms by (cases k) (auto simp: rd_def)

lemma unat_u32_less: "unat (w :: u32) < 4294967296"
  using unsigned_less [of w, where ?'a = nat] by simp

lemma high_byte_0:
  fixes w :: u32
  assumes "unat w < 2 ^ n"
  shows "(ucast (drop_bit n w) :: u8) = 0"
proof -
  have "unat (drop_bit n w) = 0"
    using assms by (simp only: unat_drop_bit_eq) (simp add: drop_bit_eq_div)
  then have "drop_bit n w = 0" by (simp add: unat_eq_0)
  then show ?thesis by simp
qed

text \<open>The count byte is 1 to 4 and the bytes above it are zero.\<close>

lemma nBytes_of_cases:
  fixes w :: u32
  obtains
    "nBytes_of w = 1" "drop 1 (le32 w) = [0, 0, 0]" "w \<le> 0xFF"
  | "nBytes_of w = 2" "drop 2 (le32 w) = [0, 0]" "0xFF < w" "w \<le> 0xFFFF"
  | "nBytes_of w = 3" "drop 3 (le32 w) = [0]" "0xFFFF < w" "w \<le> 0xFFFFFF"
  | "nBytes_of w = 4" "drop 4 (le32 w) = []" "0xFFFFFF < w"
proof -
  have z: "unat w < 2 ^ 8 \<Longrightarrow> unat w < 2 ^ 16" "unat w < 2 ^ 8 \<Longrightarrow> unat w < 2 ^ 24"
    "unat w < 2 ^ 16 \<Longrightarrow> unat w < 2 ^ 24" by simp_all
  consider "w \<le> 0xFF" | "0xFF < w" "w \<le> 0xFFFF" | "0xFFFF < w" "w \<le> 0xFFFFFF" | "0xFFFFFF < w"
    by force
  then show thesis
  proof cases
    case 1
    then have "unat w < 2 ^ 8" by (simp add: word_le_nat_alt)
    with 1 z show thesis
      by (intro that(1)) (auto simp: nBytes_of_def le32_def high_byte_0 word_le_nat_alt word_less_nat_alt)
  next
    case 2
    then have "unat w < 2 ^ 16" by (simp add: word_le_nat_alt)
    with 2 z show thesis
      by (intro that(2)) (auto simp: nBytes_of_def le32_def high_byte_0 word_le_nat_alt word_less_nat_alt)
  next
    case 3
    then have "unat w < 2 ^ 24" by (simp add: word_le_nat_alt)
    with 3 z show thesis
      by (intro that(3)) (auto simp: nBytes_of_def le32_def high_byte_0 word_le_nat_alt word_less_nat_alt)
  next
    case 4
    then show thesis
      by (intro that(4)) (auto simp: nBytes_of_def le32_def word_le_nat_alt word_less_nat_alt)
  qed
qed

lemma small_length_byte:
  fixes w :: u32
  assumes "w \<le> 127"
  shows "and (ucast w :: u8) 0x80 = 0" and "ucast (ucast w :: u8) = w"
proof -
  have "take_bit 7 w = w"
    using assms by (simp add: word_le_nat_alt take_bit_eq_mod word_unat_eq_iff unat_mod)
  then have low: "bit w n \<Longrightarrow> n < 7" for n by (metis bit_take_bit_iff)
  have "(0x80 :: u8) = 2 ^ 7" by simp
  then show "and (ucast w :: u8) 0x80 = 0"
    using low by (auto simp only: and_exp_eq_0_iff_not_bit bit_ucast_iff)
  show "ucast (ucast w :: u8) = w"
    using low by (intro bit_word_eqI) (auto simp: bit_simps dest: low)
qed

lemma length_enc_variantlen: "length (enc_variantlen w) \<in> {1, 2, 3, 4, 5}"
  by (rule nBytes_of_cases [of w]) (auto simp: enc_variantlen_def)

lemma count_byte:
  "and (or (nBytes_of w) 0x80) 0x80 \<noteq> 0"
  "and (or (nBytes_of w) 0x80) 0x7F = nBytes_of w"
  "unat (nBytes_of w) \<le> 4"
  "take (unat (nBytes_of w)) (le32 w) @ drop (unat (nBytes_of w)) (le32 0) = le32 w"
  by (rule nBytes_of_cases [of w]; force simp: le32_def)+

lemma length_enc_large:
  "\<not> w \<le> 127 \<Longrightarrow> length (enc_variantlen w) = Suc (unat (nBytes_of w))"
  using count_byte(3) [of w] by (simp add: enc_variantlen_def)

interpretation xdr_len: xdr_codec xdr_add_variantlen xdr_get_variantlen enc_variantlen "\<lambda>_. True"
proof
  fix buf :: "u8 list" and p v
  let ?k = "unat (nBytes_of v)"
  show "xdr_add_variantlen buf p v = (if p + length (enc_variantlen v) \<le> length buf
      then Inr (patch buf p (enc_variantlen v), int (length (enc_variantlen v))) else Inl OutOfBounds)"
  proof (cases "v \<le> 127")
    case True
    then show ?thesis
      by (auto simp: xdr_add_variantlen_def enc_variantlen_def wr_def patch_single)
  next
    case False
    let ?h = "or (nBytes_of v) 0x80"
    have "patch (buf[p := ?h]) (p + 1) (rev (take ?k (le32 v))) = patch buf p (enc_variantlen v)"
      if "p + Suc ?k \<le> length buf"
      using that False count_byte(3) [of v] patch_append [of p "[?h]" "rev (take ?k (le32 v))" buf]
      by (simp add: enc_variantlen_def patch_single)
    then show ?thesis
      using False count_byte(3) [of v] length_enc_large [of v]
      by (auto simp: xdr_add_variantlen_def wr_def add_len_loop_closed)
  qed
  assume fits: "p + length (enc_variantlen v) \<le> length buf"
    and win: "take (length (enc_variantlen v)) (drop p buf) = enc_variantlen v"
  have first: "buf ! p = hd (enc_variantlen v)" and p: "p < length buf"
    using window_nth [OF win, of 0] fits by (auto simp: enc_variantlen_def split: if_splits)
  show "xdr_get_variantlen buf p = Inr (v, int (length (enc_variantlen v)))"
  proof (cases "v \<le> 127")
    case True
    then show ?thesis
      using first p by (simp add: xdr_get_variantlen_def enc_variantlen_def small_length_byte)
  next
    case False
    then have bp: "buf ! p = or (nBytes_of v) 0x80" using first by (simp add: enc_variantlen_def)
    have "take (Suc ?k) (drop p buf) = enc_variantlen v"
      using win length_enc_large [OF False] by simp
    then have "take ?k (drop (Suc p) buf) = rev (take ?k (le32 v))"
      using False p by (simp add: enc_variantlen_def Cons_nth_drop_Suc [symmetric])
    then have "get_len_loop buf (Suc p) (le32 0) ?k = Inr (le32 v, Suc p + ?k)"
      using fits length_enc_large [OF False] count_byte [of v]
      by (simp add: get_len_loop_closed)
    then show ?thesis
      using p bp count_byte [of v] length_enc_large [OF False]
      by (simp add: xdr_get_variantlen_def)
  qed
qed

section \<open>Octet strings\<close>

text \<open>
  An octet string is its length and its bytes.  The codec view fixes how the callers use the
  two functions: the sender passes the bytes and their number, the receiver a buffer of \<open>cap\<close>
  bytes and its size.
\<close>

definition enc_octets :: "u8 list \<Rightarrow> u8 list" where
  "enc_octets bs = enc_variantlen (of_nat (length bs)) @ bs"

definition add_octets :: "u8 list \<Rightarrow> nat \<Rightarrow> u8 list \<Rightarrow> (u8 list \<times> int) res" where
  "add_octets buf p bs = xdr_add_OCTET_STRING buf p bs (of_nat (length bs))"

definition get_octets :: "nat \<Rightarrow> u8 list \<Rightarrow> nat \<Rightarrow> (u8 list \<times> int) res" where
  "get_octets cap buf p =
     bindR (xdr_get_OCTET_STRING buf p (replicate cap 0) (of_nat cap)) (\<lambda>(d, n, r).
       Inr (take (unat n) d, r))"

lemma add_OCTET_STRING_closed:
  assumes "unat n \<le> length pData"
  shows "xdr_add_OCTET_STRING buf p pData n =
     (if p + length (enc_variantlen n) + unat n \<le> length buf
      then Inr (patch buf p (enc_variantlen n @ take (unat n) pData),
                int (length (enc_variantlen n)) + uint n)
      else Inl OutOfBounds)"
  using assms
  by (auto simp: xdr_add_OCTET_STRING_def xdr_len.add_enc memcpy_def patch_append min_def
      ac_simps)

lemma add_OCTET_STRING_short:
  assumes "length pData < unat n"
  shows "xdr_add_OCTET_STRING buf p pData n = Inl OutOfBounds"
  using assms by (auto simp: xdr_add_OCTET_STRING_def xdr_len.add_enc memcpy_def)

lemma get_OCTET_STRING_window:
  assumes fits: "p + length (enc_variantlen n) + unat n \<le> length buf"
    and len: "take (length (enc_variantlen n)) (drop p buf) = enc_variantlen n"
    and cap: "n \<le> cap" and room: "unat n \<le> length pData"
  shows "xdr_get_OCTET_STRING buf p pData cap =
     Inr (patch pData 0 (take (unat n) (drop (p + length (enc_variantlen n)) buf)), n,
          int (length (enc_variantlen n)) + uint n)"
  using assms xdr_len.get_enc [of p n buf] by (simp add: xdr_get_OCTET_STRING_def leD)

lemma get_OCTET_STRING_too_long:
  assumes "p + length (enc_variantlen n) \<le> length buf"
    and "take (length (enc_variantlen n)) (drop p buf) = enc_variantlen n"
    and "cap < n"
  shows "xdr_get_OCTET_STRING buf p pData cap = Inr (pData, 0, - 1)"
  using assms xdr_len.get_enc [of p n buf] by (simp add: xdr_get_OCTET_STRING_def leD)

text \<open>The server's receive buffer has 128 bytes.\<close>

interpretation xdr_oct: xdr_codec add_octets "get_octets 128" enc_octets "\<lambda>bs. length bs \<le> 128"
proof
  fix buf v :: "u8 list" and p
  assume v: "length v \<le> 128"
  then have n: "unat (of_nat (length v) :: u32) = length v" by (intro unat_of_nat32) simp
  have u: "uint (of_nat (length v) :: u32) = int (length v)" using n by (metis uint_nat)
  show "add_octets buf p v = (if p + length (enc_octets v) \<le> length buf
      then Inr (patch buf p (enc_octets v), int (length (enc_octets v))) else Inl OutOfBounds)"
    using n u by (simp add: add_octets_def enc_octets_def add_OCTET_STRING_closed add.assoc)
  assume fits: "p + length (enc_octets v) \<le> length buf"
    and win: "take (length (enc_octets v)) (drop p buf) = enc_octets v"
  let ?l = "enc_variantlen (of_nat (length v))"
  have "take (length ?l) (drop p buf) = ?l"
    using arg_cong [OF win, of "take (length ?l)"] by (simp add: enc_octets_def min_def)
  moreover have "take (length v) (drop (p + length ?l) buf) = v"
    using arg_cong [OF win, of "drop (length ?l)"] by (simp add: enc_octets_def drop_take add.commute)
  moreover have "(of_nat (length v) :: u32) \<le> 128"
    using v n by (simp add: word_le_nat_alt)
  ultimately have "xdr_get_OCTET_STRING buf p (replicate 128 0) (of_nat 128) =
      Inr (patch (replicate 128 0) 0 v, of_nat (length v), int (length ?l) + int (length v))"
    using fits n u v get_OCTET_STRING_window [of p "of_nat (length v)" buf "of_nat 128" "replicate 128 0"]
    by (simp add: enc_octets_def)
  then show "get_octets 128 buf p = Inr (v, int (length (enc_octets v)))"
    using n by (simp only: get_octets_def) (simp add: enc_octets_def patch_def)
qed

interpretation xdr_pn_id: xdr_pair xdr_add_uint16 xdr_get_uint16 enc_uint16 "\<lambda>_. True"
    xdr_add_uint32 xdr_get_uint32 enc_uint32 "\<lambda>_. True" ..

section \<open>Properties\<close>

text \<open>
  C40: a variable-length number survives the wire: what \<^verbatim>\<open>xdr_add_variantlen\<close> stored at a position
  is what \<^verbatim>\<open>xdr_get_variantlen\<close> reads there, both report the same number of bytes (1 to 5), and
  the bytes before and after the encoding are as before.
\<close>

theorem variantlen_roundtrip:
  assumes "xdr_add_variantlen buf p n = Inr (buf', k)"
  shows "xdr_get_variantlen buf' p = Inr (n, k) \<and> 1 \<le> k \<and> k \<le> 5 \<and> length buf' = length buf
     \<and> take p buf' = take p buf \<and> drop (p + nat k) buf' = drop (p + nat k) buf"
proof -
  have buf': "p + length (enc_variantlen n) \<le> length buf" "buf' = patch buf p (enc_variantlen n)"
    and k: "k = int (length (enc_variantlen n))"
    using assms by (simp_all add: xdr_len.add_Inr)
  then have "take p buf' = take p buf \<and> drop (p + nat k) buf' = drop (p + nat k) buf"
    by (simp add: patch_def)
  moreover have "1 \<le> k \<and> k \<le> 5" using length_enc_variantlen [of n] k by auto
  ultimately show ?thesis
    using xdr_len.roundtrip [OF TrueI assms] xdr_len.add_length [OF TrueI assms] by simp
qed

theorem variantlen_roundtrip_witness:
  "xdr_get_variantlen [9, 0x82, 1, 0x2c, 9] 1 = Inr (300, 3)"
proof -
  have "xdr_add_variantlen [9, 9, 9, 9, 9] 1 300 = Inr ([9, 0x82, 1, 0x2c, 9], 3)" by code_simp
  from variantlen_roundtrip [OF this] show ?thesis by simp
qed

lemma get_add_OCTET_STRING:
  assumes add: "xdr_add_OCTET_STRING buf p pData n = Inr (buf', k)" and room: "unat n \<le> length out"
  shows "xdr_get_OCTET_STRING buf' p out cap =
     (if n \<le> cap then Inr (patch out 0 (take (unat n) pData), n, k) else Inr (out, 0, - 1))"
proof -
  let ?l = "enc_variantlen n"
  have src: "unat n \<le> length pData"
    using add add_OCTET_STRING_short [of pData n buf p] by fastforce
  with add have fits: "p + length ?l + unat n \<le> length buf"
    and buf': "buf' = patch buf p (?l @ take (unat n) pData)" and k: "k = int (length ?l) + uint n"
    by (auto simp: add_OCTET_STRING_closed split: if_splits)
  have here: "drop p buf' = ?l @ take (unat n) pData @ drop (p + length ?l + unat n) buf"
    using fits src unfolding buf' by (subst drop_patch) (simp_all add: min_def ac_simps)
  then have len: "take (length ?l) (drop p buf') = ?l" by simp
  have "drop (p + length ?l) buf' = drop (length ?l) (drop p buf')" by (simp add: add.commute)
  then have data: "take (unat n) (drop (p + length ?l) buf') = take (unat n) pData"
    using src unfolding here by simp
  have lb: "length buf' = length buf" using fits src unfolding buf' by simp
  show ?thesis
  proof (cases "n \<le> cap")
    case True
    with fits len room data lb k show ?thesis by (simp add: get_OCTET_STRING_window)
  next
    case False
    then have "xdr_get_OCTET_STRING buf' p out cap = Inr (out, 0, - 1)"
      using fits len lb by (intro get_OCTET_STRING_too_long) (simp_all add: not_le)
    with False show ?thesis by simp
  qed
qed

text \<open>
  C39: an octet string survives the wire: the receiver gets the bytes sent, their number and the
  size of the encoding, as long as its buffer is large enough; with a smaller limit it gets
  length 0, the return value -1 and an untouched buffer.
\<close>

theorem octet_string_roundtrip:
  assumes "xdr_add_OCTET_STRING buf p pData n = Inr (buf', k)" and "unat n \<le> length out"
  shows "xdr_get_OCTET_STRING buf' p out cap =
     (if n \<le> cap then Inr (patch out 0 (take (unat n) pData), n, k) else Inr (out, 0, - 1))"
  using assms by (rule get_add_OCTET_STRING)

theorem octet_string_roundtrip_witness:
  "xdr_get_OCTET_STRING [2, 7, 8, 0] 0 [0, 0, 0] 3 = Inr ([7, 8, 0], 2, 3)"
  using octet_string_roundtrip [of "[0, 0, 0, 0]" 0 "[7, 8, 9]" 2 "[2, 7, 8, 0]" 3 "[0, 0, 0]" 3]
  by (simp add: add_OCTET_STRING_closed enc_variantlen_def patch_def)

text \<open>
  \<^verbatim>\<open>xdr_get_variantlen\<close> does not check the count byte: a count above four makes it write
  outside the \<^verbatim>\<open>unsigned int\<close> it stores the number in, whatever the rest of the message is.
\<close>

theorem variantlen_count_overrun:
  assumes "p < length buf" and "0x84 < buf ! p"
  shows "xdr_get_variantlen buf p = Inl OutOfBounds"
proof -
  let ?b = "buf ! p"
  have "unat ?b div 128 = 1"
    using assms(2) unat_u8_less [of ?b] by (simp add: word_less_nat_alt)
  then have "bit (unat ?b) 7" by (simp add: bit_iff_odd)
  then have set: "bit ?b 7" by (simp add: bit_unsigned_iff)
  have "and ?b 0x80 \<noteq> 0"
  proof
    assume "and ?b 0x80 = 0"
    then have "\<not> bit (and ?b 0x80) 7" by simp
    with set show False by (simp add: bit_simps)
  qed
  moreover have "4 < unat (and ?b 0x7F)"
  proof -
    have "and ?b 0x7F = take_bit 7 ?b" by (simp add: take_bit_eq_mask mask_eq_exp_minus_1)
    then have "unat (and ?b 0x7F) = take_bit 7 (unat ?b)" by (simp only: unsigned_take_bit_eq)
    then have "unat (and ?b 0x7F) = unat ?b mod 128" by (simp add: take_bit_eq_mod)
    moreover have "132 < unat ?b" "unat ?b < 256"
      using assms(2) unat_u8_less [of ?b] by (simp_all add: word_less_nat_alt)
    ultimately show ?thesis by (simp add: le_mod_geq)
  qed
  ultimately show ?thesis
    using assms(1) get_len_loop_overrun [of "le32 0" "unat (and ?b 0x7F)" buf "p + 1"]
    by (simp add: xdr_get_variantlen_def)
qed

theorem variantlen_count_overrun_witness: "xdr_get_variantlen [0x85, 1, 2, 3, 4, 5] 0 = Inl OutOfBounds"
  by (rule variantlen_count_overrun) simp_all

end
