(* ===== verification/MsgTypes.thy ===== *)
theory MsgTypes
  imports XdrCodec
begin

text \<open>
  The message buffer of \<^verbatim>\<open>rh_msg_channel.h\<close>.  The head is a record; the union of request
  (\<^verbatim>\<open>MSG_T\<close>) and reply (\<^verbatim>\<open>ACK_T\<close>) is the 2060 bytes both share, read and written at the
  offsets the compiler gives their members (natural alignment, bit fields from the low end):

    \<^item> \<^verbatim>\<open>MSG_T\<close>: \<^verbatim>\<open>tag\<close> 0, \<^verbatim>\<open>nSize\<close> 4, \<^verbatim>\<open>resv\<close> 6, \<^verbatim>\<open>pValue\<close> 8 to 2055;
    \<^item> \<^verbatim>\<open>ACK_T\<close>: \<^verbatim>\<open>tag\<close> 0, \<^verbatim>\<open>nSize\<close> 4, \<^verbatim>\<open>errNo\<close> 8, \<^verbatim>\<open>pValue\<close> 12 to 2059;
    \<^item> \<^verbatim>\<open>TAG_U\<close>: \<^verbatim>\<open>iop\<close> in the low and \<^verbatim>\<open>iid\<close> in the high half.

  So a request payload and a reply's error number overlap, as they do in the code.  The lemmas
  are the laws of these members: reading what was written, and which writes disturb which reads.
\<close>

definition APP_NAME_LEN :: nat where "APP_NAME_LEN = 64"
definition MAX_MSG_BUF_LEN :: nat where "MAX_MSG_BUF_LEN = 2048"
definition MAX_MSG_TIMEOUT :: u32 where "MAX_MSG_TIMEOUT = 30"

definition MSG_REQ :: u8 where "MSG_REQ = 0x55"
definition MSG_ACK :: u8 where "MSG_ACK = 0xAA"
definition MSG_IDLE :: u8 where "MSG_IDLE = 0xFF"

lemma msg_flags_distinct [simp]:
  "MSG_REQ \<noteq> MSG_ACK" "MSG_ACK \<noteq> MSG_REQ" "MSG_REQ \<noteq> MSG_IDLE" "MSG_IDLE \<noteq> MSG_REQ"
  "MSG_ACK \<noteq> MSG_IDLE" "MSG_IDLE \<noteq> MSG_ACK"
  by (simp_all add: MSG_REQ_def MSG_ACK_def MSG_IDLE_def)

record RH_MSG_BUFFER_T =
  h_state :: u8
  h_sync :: u8
  h_index :: u16
  h_resv :: u16
  h_szSrce :: "u8 list"
  h_szDest :: "u8 list"
  m_body :: "u8 list"

definition wf_msg :: "RH_MSG_BUFFER_T \<Rightarrow> bool" where
  "wf_msg m \<longleftrightarrow> length (h_szSrce m) = 64 \<and> length (h_szDest m) = 64 \<and> length (m_body m) = 2060"

text \<open>\<^verbatim>\<open>memset(&msg, 0x00, sizeof(msg))\<close>, also the content of a segment just created.\<close>

definition zero_msg :: RH_MSG_BUFFER_T where
  "zero_msg = \<lparr>h_state = 0, h_sync = 0, h_index = 0, h_resv = 0,
     h_szSrce = replicate 64 0, h_szDest = replicate 64 0, m_body = replicate 2060 0\<rparr>"

lemma wf_zero_msg [simp]: "wf_msg zero_msg"
  by (simp add: wf_msg_def zero_msg_def)

section \<open>Members of the union\<close>

definition win :: "nat \<Rightarrow> nat \<Rightarrow> RH_MSG_BUFFER_T \<Rightarrow> u8 list" where
  "win off n m = take n (drop off (m_body m))"

definition set_win :: "nat \<Rightarrow> u8 list \<Rightarrow> RH_MSG_BUFFER_T \<Rightarrow> RH_MSG_BUFFER_T" where
  "set_win off bs m = m\<lparr>m_body := patch (m_body m) off bs\<rparr>"

definition tag_iop :: "RH_MSG_BUFFER_T \<Rightarrow> u16" where "tag_iop m = u16_le (win 0 2 m)"
definition tag_iid :: "RH_MSG_BUFFER_T \<Rightarrow> u16" where "tag_iid m = u16_le (win 2 2 m)"
definition set_iop :: "u16 \<Rightarrow> RH_MSG_BUFFER_T \<Rightarrow> RH_MSG_BUFFER_T" where "set_iop v = set_win 0 (le16 v)"
definition set_iid :: "u16 \<Rightarrow> RH_MSG_BUFFER_T \<Rightarrow> RH_MSG_BUFFER_T" where "set_iid v = set_win 2 (le16 v)"

definition nSize_of :: "RH_MSG_BUFFER_T \<Rightarrow> u16" where "nSize_of m = u16_le (win 4 2 m)"
definition set_nSize :: "u16 \<Rightarrow> RH_MSG_BUFFER_T \<Rightarrow> RH_MSG_BUFFER_T" where "set_nSize v = set_win 4 (le16 v)"

definition ack_errNo :: "RH_MSG_BUFFER_T \<Rightarrow> int" where "ack_errNo m = sint (u32_le (win 8 4 m))"
definition set_errNo :: "int \<Rightarrow> RH_MSG_BUFFER_T \<Rightarrow> RH_MSG_BUFFER_T" where
  "set_errNo v = set_win 8 (le32 (word_of_int v))"

definition msg_pValue :: "RH_MSG_BUFFER_T \<Rightarrow> u8 list" where "msg_pValue m = win 8 2048 m"
definition set_msg_pValue :: "u8 list \<Rightarrow> RH_MSG_BUFFER_T \<Rightarrow> RH_MSG_BUFFER_T" where "set_msg_pValue = set_win 8"
definition ack_pValue :: "RH_MSG_BUFFER_T \<Rightarrow> u8 list" where "ack_pValue m = win 12 2048 m"
definition set_ack_pValue :: "u8 list \<Rightarrow> RH_MSG_BUFFER_T \<Rightarrow> RH_MSG_BUFFER_T" where "set_ack_pValue = set_win 12"

lemmas member_defs =
  tag_iop_def tag_iid_def set_iop_def set_iid_def nSize_of_def set_nSize_def
  ack_errNo_def set_errNo_def msg_pValue_def set_msg_pValue_def ack_pValue_def set_ack_pValue_def

text \<open>The two name fields are filled with \<^verbatim>\<open>strcpy\<close>.\<close>

definition set_srce :: "u8 list \<Rightarrow> RH_MSG_BUFFER_T \<Rightarrow> RH_MSG_BUFFER_T res" where
  "set_srce s m = bindR (strcpy (h_szSrce m) 0 s) (\<lambda>t. Inr (m\<lparr>h_szSrce := t\<rparr>))"

definition set_dest :: "u8 list \<Rightarrow> RH_MSG_BUFFER_T \<Rightarrow> RH_MSG_BUFFER_T res" where
  "set_dest s m = bindR (strcpy (h_szDest m) 0 s) (\<lambda>t. Inr (m\<lparr>h_szDest := t\<rparr>))"

section \<open>Laws of the members\<close>

lemma wf_set_win [simp]:
  "wf_msg m \<Longrightarrow> off + length bs \<le> 2060 \<Longrightarrow> wf_msg (set_win off bs m)"
  by (simp add: wf_msg_def set_win_def)

lemma win_set_win [simp]:
  "wf_msg m \<Longrightarrow> off + length bs \<le> 2060 \<Longrightarrow> n = length bs \<Longrightarrow> win off n (set_win off bs m) = bs"
  by (simp add: wf_msg_def win_def set_win_def)

lemma win_set_other [simp]:
  "wf_msg m \<Longrightarrow> off + length bs \<le> 2060 \<Longrightarrow> i + n \<le> off \<or> off + length bs \<le> i \<Longrightarrow>
    win i n (set_win off bs m) = win i n m"
  by (simp add: wf_msg_def win_def set_win_def window_patch_other)

lemma length_win [simp]: "wf_msg m \<Longrightarrow> off + n \<le> 2060 \<Longrightarrow> length (win off n m) = n"
  by (simp add: wf_msg_def win_def)

lemma head_set_win [simp]:
  "h_state (set_win off bs m) = h_state m" "h_sync (set_win off bs m) = h_sync m"
  "h_index (set_win off bs m) = h_index m" "h_resv (set_win off bs m) = h_resv m"
  "h_szSrce (set_win off bs m) = h_szSrce m" "h_szDest (set_win off bs m) = h_szDest m"
  by (simp_all add: set_win_def)

lemma win_head [simp]:
  "win off n (m\<lparr>h_state := a\<rparr>) = win off n m" "win off n (m\<lparr>h_sync := a\<rparr>) = win off n m"
  "win off n (m\<lparr>h_index := i\<rparr>) = win off n m" "win off n (m\<lparr>h_resv := i\<rparr>) = win off n m"
  "win off n (m\<lparr>h_szSrce := s\<rparr>) = win off n m" "win off n (m\<lparr>h_szDest := s\<rparr>) = win off n m"
  by (simp_all add: win_def)

lemma wf_head [simp]:
  "wf_msg (m\<lparr>h_state := a\<rparr>) = wf_msg m" "wf_msg (m\<lparr>h_sync := a\<rparr>) = wf_msg m"
  "wf_msg (m\<lparr>h_index := i\<rparr>) = wf_msg m"
  "length s = 64 \<Longrightarrow> wf_msg m \<Longrightarrow> wf_msg (m\<lparr>h_szSrce := s\<rparr>)"
  "length s = 64 \<Longrightarrow> wf_msg m \<Longrightarrow> wf_msg (m\<lparr>h_szDest := s\<rparr>)"
  by (simp_all add: wf_msg_def)

lemma length_pValue [simp]:
  "wf_msg m \<Longrightarrow> length (msg_pValue m) = 2048" "wf_msg m \<Longrightarrow> length (ack_pValue m) = 2048"
  by (simp_all add: member_defs)

text \<open>
  The overlap of the union: the first four bytes of a request's payload are the reply's error
  number.
\<close>

lemma errNo_overlaps_payload:
  assumes "wf_msg m" and "length bs = 2048"
  shows "ack_errNo (set_msg_pValue bs m) = sint (u32_le (take 4 bs))"
proof -
  have "win 8 4 (set_win 8 bs m) = take 4 (win 8 2048 (set_win 8 bs m))"
    by (simp add: win_def)
  also have "\<dots> = take 4 bs" using assms by simp
  finally show ?thesis by (simp add: member_defs)
qed

lemma ack_pValue_of_msg_pValue:
  assumes "wf_msg m" and "length bs = 2048"
  shows "take 2044 (ack_pValue (set_msg_pValue bs m)) = drop 4 bs"
proof -
  have "take 2044 (win 12 2048 (set_win 8 bs m)) = drop 4 (win 8 2048 (set_win 8 bs m))"
    by (simp add: win_def drop_take min_def)
  then show ?thesis using assms by (simp add: member_defs)
qed

end
