(* ===== verification/MsgChannel.thy ===== *)
theory MsgChannel
  imports MsgTypes
begin

text \<open>
  \<^verbatim>\<open>code/rh_msg_channel.c\<close>: a mailbox of one message in System V shared memory.  A segment
  is found by its key; \<open>segs\<close> maps the keys that exist to their content.  The process has one
  mutex, \<open>s_lock\<close>.  What the operating system answers is the parameter \<open>os\<close>: whether
  \<^verbatim>\<open>shmget\<close>, \<^verbatim>\<open>shmctl\<close> and the \<^verbatim>\<open>malloc\<close> of the mutex succeed and what \<^verbatim>\<open>shmat\<close> returns.  On
  failure \<^verbatim>\<open>shmat\<close> returns \<^verbatim>\<open>(void *) -1\<close>, which is not the null pointer the code tests for.
\<close>

datatype shmat_result = ShmNull | ShmFailed | ShmMapped

record os_env =
  shmget_ok :: bool
  shmat_ret :: shmat_result
  shmctl_ok :: bool
  lock_malloc_ok :: bool
  pthread_create_ok :: bool

definition good_os :: os_env where
  "good_os = \<lparr>shmget_ok = True, shmat_ret = ShmMapped, shmctl_ok = True, lock_malloc_ok = True,
     pthread_create_ok = True\<rparr>"

datatype lockst = LkNull | LkFree | LkHeld

record chan =
  ch_segs :: "u32 \<Rightarrow> RH_MSG_BUFFER_T option"
  ch_lock :: lockst

section \<open>Mutex\<close>

definition SmMutexInit :: "os_env \<Rightarrow> chan \<Rightarrow> chan res" where
  "SmMutexInit os ch = (if lock_malloc_ok os then Inr (ch\<lparr>ch_lock := LkFree\<rparr>) else Inl NullPtr)"

definition SmMutexLock :: "chan \<Rightarrow> chan res" where
  "SmMutexLock ch =
     (case ch_lock ch of
        LkNull \<Rightarrow> Inl NullPtr | LkFree \<Rightarrow> Inr (ch\<lparr>ch_lock := LkHeld\<rparr>) | LkHeld \<Rightarrow> Inl Deadlock)"

definition SmMutexUnlock :: "chan \<Rightarrow> chan res" where
  "SmMutexUnlock ch =
     (case ch_lock ch of
        LkNull \<Rightarrow> Inl NullPtr | LkFree \<Rightarrow> Inl BadUnlock | LkHeld \<Rightarrow> Inr (ch\<lparr>ch_lock := LkFree\<rparr>))"

section \<open>Segments\<close>

text \<open>
  \<^verbatim>\<open>shmget(key, size, 0666|IPC_CREAT)\<close>: the identifier of the segment of that key, created
  zero-filled if there is none.  The identifier stands for the key; identifiers are
  non-negative \<^verbatim>\<open>int\<close>s, so keys are below \<open>2 ^ 31\<close> (the programs use the one key 1024).
\<close>

definition SmGetMsgQue :: "os_env \<Rightarrow> u32 \<Rightarrow> chan \<Rightarrow> chan \<times> int" where
  "SmGetMsgQue os keyid ch =
     (if \<not> shmget_ok os then (ch, - 1)
      else (case ch_segs ch keyid of
              None \<Rightarrow> ch\<lparr>ch_segs := (ch_segs ch)(keyid := Some zero_msg)\<rparr>
            | Some _ \<Rightarrow> ch, uint keyid))"

definition shmat :: "os_env \<Rightarrow> int \<Rightarrow> shmat_result" where
  "shmat os shmid = (if shmid < 0 then ShmFailed else shmat_ret os)"

text \<open>Access through the mapped pointer; \<^verbatim>\<open>(void *) -1\<close> is no object.\<close>

definition seg_get :: "shmat_result \<Rightarrow> u32 \<Rightarrow> chan \<Rightarrow> RH_MSG_BUFFER_T res" where
  "seg_get p keyid ch =
     (case p of
        ShmNull \<Rightarrow> Inl NullPtr
      | ShmFailed \<Rightarrow> Inl OutOfBounds
      | ShmMapped \<Rightarrow> (case ch_segs ch keyid of None \<Rightarrow> Inl OutOfBounds | Some seg \<Rightarrow> Inr seg))"

definition seg_put :: "shmat_result \<Rightarrow> u32 \<Rightarrow> RH_MSG_BUFFER_T \<Rightarrow> chan \<Rightarrow> chan res" where
  "seg_put p keyid seg ch =
     bindR (seg_get p keyid ch) (\<lambda>_. Inr (ch\<lparr>ch_segs := (ch_segs ch)(keyid := Some seg)\<rparr>))"

text \<open>
  \<^verbatim>\<open>SmMsgInit\<close> keeps the identifier in an \<^verbatim>\<open>unsigned int\<close>, so its test \<^verbatim>\<open>shmId >= 0\<close> always
  holds and a failed \<^verbatim>\<open>shmget\<close> goes on to \<^verbatim>\<open>shmat\<close> with identifier -1.
\<close>

definition SmMsgInit :: "os_env \<Rightarrow> u32 \<Rightarrow> chan \<Rightarrow> chan res" where
  "SmMsgInit os keyid ch =
     (let (ch, h) = SmGetMsgQue os keyid ch;
          shmId = (word_of_int h :: u32)
      in bindR
           (if shmId \<ge> 0 then
              (let pMem = shmat os (sint shmId) in
               if pMem \<noteq> ShmNull
               then bindR (seg_get pMem keyid ch) (\<lambda>seg. seg_put pMem keyid (seg\<lparr>h_state := MSG_IDLE\<rparr>) ch)
               else Inr ch)
            else Inr ch)
           (SmMutexInit os))"

definition SmDestroyMsgQue :: "os_env \<Rightarrow> int \<Rightarrow> chan \<Rightarrow> chan \<times> int" where
  "SmDestroyMsgQue os handle ch =
     (if shmctl_ok os then (ch\<lparr>ch_segs := (ch_segs ch)(word_of_int handle := None)\<rparr>, 0) else (ch, - 1))"

section \<open>Receiving and answering\<close>

text \<open>The results are the channel, the caller's buffer \<^verbatim>\<open>*pMsg\<close> and the return value.\<close>

definition SmMsgRecv ::
  "os_env \<Rightarrow> u8 list \<Rightarrow> u32 \<Rightarrow> RH_MSG_BUFFER_T \<Rightarrow> chan \<Rightarrow> (chan \<times> RH_MSG_BUFFER_T \<times> int) res" where
  "SmMsgRecv os szName keyid pMsg ch =
     (let (ch, shmId) = SmGetMsgQue os keyid ch in
      if shmId < 0 then Inr (ch, pMsg, - 1)
      else
        let pMem = shmat os shmId in
        if pMem = ShmNull then Inr (ch, pMsg, - 2)
        else
          bindR (seg_get pMem keyid ch) (\<lambda>seg.
            if h_state seg \<noteq> MSG_REQ then Inr (ch, pMsg, - 3)
            else bindR (strcmp (h_szDest seg) szName) (\<lambda>c.
              if c = 0
              then bindR (seg_put pMem keyid (seg\<lparr>h_state := MSG_IDLE\<rparr>) ch) (\<lambda>ch. Inr (ch, seg, 0))
              else Inr (ch, pMsg, - 4))))"

definition SmMsgSendEcho :: "os_env \<Rightarrow> u32 \<Rightarrow> RH_MSG_BUFFER_T \<Rightarrow> chan \<Rightarrow> (chan \<times> int) res" where
  "SmMsgSendEcho os keyid pMsg ch =
     bindR (SmMutexLock ch) (\<lambda>ch.
     let (ch, shmId) = SmGetMsgQue os keyid ch in
     if shmId < 0 then bindR (SmMutexUnlock ch) (\<lambda>ch. Inr (ch, - 1))
     else
       let pMem = shmat os shmId in
       if pMem = ShmNull then bindR (SmMutexUnlock ch) (\<lambda>ch. Inr (ch, - 2))
       else
         bindR (seg_get pMem keyid ch) (\<lambda>seg.
           if h_state seg \<noteq> MSG_IDLE then bindR (SmMutexUnlock ch) (\<lambda>ch. Inr (ch, - 3))
           else bindR (seg_put pMem keyid pMsg ch) (\<lambda>ch.
                bindR (SmMutexUnlock ch) (\<lambda>ch. Inr (ch, 0)))))"

section \<open>Sending and waiting for the answer\<close>

text \<open>
  \<^verbatim>\<open>SmMsgSendWait\<close> polls the segment between sleeps.  What the other processes do to the
  segment, and to the rest of the world \<open>'w\<close>, during the \<open>k\<close>-th sleep is the parameter
  \<open>env k\<close>.  The code of \<^verbatim>\<open>code/\<close>, \<^verbatim>\<open>client/\<close> and \<^verbatim>\<open>server/\<close> counts in seconds (\<open>step = 1\<close>,
  \<open>unit = 1\<close>); that of \<^verbatim>\<open>enegy_loss/\<close> counts milliseconds in steps of 100 (\<open>step = 100\<close>,
  \<open>unit = 1000\<close>).  The conjunct \<open>0 < step\<close> only serves the termination proof.
\<close>

type_synonym 'w tick_env = "nat \<Rightarrow> RH_MSG_BUFFER_T \<times> 'w \<Rightarrow> RH_MSG_BUFFER_T \<times> 'w"

text \<open>Waiting for the mailbox to be idle; the results are \<open>time\<close>, the sleeps so far and the world.\<close>

function send_poll ::
  "'w tick_env \<Rightarrow> nat \<Rightarrow> nat \<Rightarrow> RH_MSG_BUFFER_T \<Rightarrow> nat \<Rightarrow> nat \<Rightarrow> RH_MSG_BUFFER_T \<times> 'w \<Rightarrow>
   nat \<times> nat \<times> RH_MSG_BUFFER_T \<times> 'w" where
  "send_poll env step W pMsg k time sw =
     (if time < W \<and> 0 < step then
        (let (seg, w) = env k sw in
         if h_state seg \<noteq> MSG_IDLE then send_poll env step W pMsg (Suc k) (time + step) (seg, w)
         else (time, Suc k, pMsg, w))
      else (time, k, sw))"
  by pat_completeness auto
termination
  by (relation "measure (\<lambda>(env, step, W, pMsg, k, time, sw). W - time)") auto

text \<open>Waiting for the matching acknowledgement, copied to \<^verbatim>\<open>*pRet\<close> before the mailbox is freed.\<close>

function recv_poll ::
  "'w tick_env \<Rightarrow> nat \<Rightarrow> nat \<Rightarrow> u8 list \<Rightarrow> RH_MSG_BUFFER_T \<Rightarrow> nat \<Rightarrow> nat \<Rightarrow> RH_MSG_BUFFER_T \<times> 'w \<Rightarrow>
   (RH_MSG_BUFFER_T option \<times> nat \<times> RH_MSG_BUFFER_T \<times> 'w) res" where
  "recv_poll env step W szSrc pMsg k time sw =
     (if time < W \<and> 0 < step then
        (let (seg, w) = env k sw in
         if h_state seg \<noteq> MSG_ACK then recv_poll env step W szSrc pMsg (Suc k) (time + step) (seg, w)
         else if h_sync seg = 0 then recv_poll env step W szSrc pMsg (Suc k) (time + step) (seg, w)
         else if h_index seg \<noteq> h_index pMsg
         then recv_poll env step W szSrc pMsg (Suc k) (time + step) (seg, w)
         else bindR (strcmp (h_szDest seg) szSrc) (\<lambda>c.
                if c \<noteq> 0 then recv_poll env step W szSrc pMsg (Suc k) (time + step) (seg, w)
                else Inr (Some seg, Suc k, seg\<lparr>h_state := MSG_IDLE\<rparr>, w)))
      else Inr (None, k, sw))"
  by pat_completeness auto
termination
  by (relation "measure (\<lambda>(env, step, W, szSrc, pMsg, k, time, sw). W - time)") auto

declare send_poll.simps [simp del] recv_poll.simps [simp del]

definition clamp_wait :: "u32 \<Rightarrow> u32" where
  "clamp_wait nWaittime =
     (if nWaittime \<le> 0 \<or> nWaittime > MAX_MSG_TIMEOUT then MAX_MSG_TIMEOUT else nWaittime)"

definition send_wait ::
  "nat \<Rightarrow> nat \<Rightarrow> os_env \<Rightarrow> 'w tick_env \<Rightarrow> u8 list \<Rightarrow> u32 \<Rightarrow> RH_MSG_BUFFER_T \<Rightarrow> RH_MSG_BUFFER_T \<Rightarrow>
   u32 \<Rightarrow> chan \<Rightarrow> 'w \<Rightarrow> (chan \<times> 'w \<times> RH_MSG_BUFFER_T \<times> int) res" where
  "send_wait step unit os env szSrc keyid pMsg pRet nWaittime ch w =
     (let (ch, shmId) = SmGetMsgQue os keyid ch in
      if shmId < 0 then Inr (ch, w, pRet, - 1)
      else
        bindR (SmMutexLock ch) (\<lambda>ch.
        let pMem = shmat os shmId in
        if pMem = ShmNull then bindR (SmMutexUnlock ch) (\<lambda>ch. Inr (ch, w, pRet, - 2))
        else
          let W = unat (clamp_wait nWaittime) * unit in
          bindR (seg_get pMem keyid ch) (\<lambda>seg.
          let (time, k, seg, w) = send_poll env step W pMsg 0 0 (seg, w) in
          if time \<ge> W then
            bindR (seg_put pMem keyid (seg\<lparr>h_state := MSG_IDLE\<rparr>) ch) (\<lambda>ch.
            bindR (SmMutexUnlock ch) (\<lambda>ch. Inr (ch, w, pRet, - 3)))
          else
            bindR (recv_poll env step W szSrc pMsg k time (seg, w)) (\<lambda>(r, k, seg, w).
            bindR (seg_put pMem keyid (seg\<lparr>h_state := MSG_IDLE\<rparr>) ch) (\<lambda>ch.
            bindR (SmMutexUnlock ch) (\<lambda>ch.
              case r of
                Some ret \<Rightarrow> Inr (ch, w, ret, 0)
              | None \<Rightarrow> Inr (ch, w, pRet, - 4)))))))"

definition SmMsgSendWait ::
  "os_env \<Rightarrow> 'w tick_env \<Rightarrow> u8 list \<Rightarrow> u32 \<Rightarrow> RH_MSG_BUFFER_T \<Rightarrow> RH_MSG_BUFFER_T \<Rightarrow>
   u32 \<Rightarrow> chan \<Rightarrow> 'w \<Rightarrow> (chan \<times> 'w \<times> RH_MSG_BUFFER_T \<times> int) res" where
  "SmMsgSendWait = send_wait 1 1"

end
