(* ===== verification/RhDbase.thy ===== *)
theory RhDbase
  imports MsgChannel MemAccess MemLoad MemMap
begin

text \<open>
  \<^verbatim>\<open>code/elDbase.c\<close>: the data server.  Its thread takes requests from the mailbox, looks the
  data up with the functions of \<^verbatim>\<open>mem.c\<close> and answers through the mailbox; its two client
  functions ask the energy-loss application.  A process is its mutex and its view of the shared
  memory (\<open>dp_chan\<close>) and its message counter (\<open>dp_seq\<close>); the server also has the data
  memory (\<open>dp_mem\<close>).
\<close>

definition EL_KEY_ID :: u32 where "EL_KEY_ID = 1024"
definition EL_APP_NAME :: "u8 list" where "EL_APP_NAME = cstr ''elAPP''"
definition RH_APP_NAME :: "u8 list" where "RH_APP_NAME = cstr ''rhApp''"
definition IID_EL :: u16 where "IID_EL = 1"
definition WAITE_TIMEOUT :: u32 where "WAITE_TIMEOUT = 30"
definition IOP_DBASE_READ :: u8 where "IOP_DBASE_READ = 0x10"
definition IOP_DBASE_WRITE :: u8 where "IOP_DBASE_WRITE = 0x11"

record dbase_proc =
  dp_chan :: chan
  dp_seq :: int

record rh_proc = dbase_proc +
  dp_mem :: mem_state

section \<open>Requests\<close>

text \<open>
  The head of a request, written field by field on a zeroed message; the result holds the
  counter after \<^verbatim>\<open>seq++\<close>.
\<close>

definition new_req ::
  "int \<Rightarrow> u8 list \<Rightarrow> u8 list \<Rightarrow> u16 \<Rightarrow> u8 \<Rightarrow> (int \<times> RH_MSG_BUFFER_T) res" where
  "new_req seq src dst iid iop =
     (let m = zero_msg\<lparr>h_state := MSG_REQ, h_sync := 1, h_index := word_of_int seq\<rparr> in
      bindR (addi seq 1) (\<lambda>seq.
      bindR (set_srce src m) (\<lambda>m.
      bindR (set_dest dst m) (\<lambda>m.
        Inr (seq, set_iop (ucast iop) (set_iid iid m))))))"

definition add_pn_id :: "u16 \<Rightarrow> u32 \<Rightarrow> u8 list \<Rightarrow> (u8 list \<times> int) res" where
  "add_pn_id nPn di pValue =
     bindR (xdr_add_uint16 pValue 0 nPn) (\<lambda>(b, n1).
     bindR (xdr_add_uint32 b (nat n1) di) (\<lambda>(b, n2). Inr (b, n1 + n2)))"

definition read_req_rh :: "int \<Rightarrow> u16 \<Rightarrow> u32 \<Rightarrow> (int \<times> RH_MSG_BUFFER_T) res" where
  "read_req_rh seq nPn di =
     bindR (new_req seq RH_APP_NAME EL_APP_NAME IID_EL IOP_DBASE_READ) (\<lambda>(seq, m).
     bindR (add_pn_id nPn di (msg_pValue m)) (\<lambda>(b, nPos).
       Inr (seq, set_nSize (word_of_int nPos) (set_msg_pValue b m))))"

definition write_req_rh :: "int \<Rightarrow> u16 \<Rightarrow> u32 \<Rightarrow> u8 list \<Rightarrow> u32 \<Rightarrow> (int \<times> RH_MSG_BUFFER_T) res" where
  "write_req_rh seq nPn di buf len =
     bindR (new_req seq RH_APP_NAME EL_APP_NAME IID_EL IOP_DBASE_WRITE) (\<lambda>(seq, m).
     bindR (add_pn_id nPn di (msg_pValue m)) (\<lambda>(b, nPos).
     bindR (xdr_add_OCTET_STRING b (nat nPos) buf len) (\<lambda>(b, n).
       Inr (seq, set_nSize (word_of_int (nPos + n)) (set_msg_pValue b m)))))"

text \<open>The results are the process, the world, the caller's buffer and the return value.\<close>

definition el_read_data_rh ::
  "os_env \<Rightarrow> 'w tick_env \<Rightarrow> u16 \<Rightarrow> u32 \<Rightarrow> u8 list \<Rightarrow> int \<Rightarrow> 'a dbase_proc_scheme \<Rightarrow> 'w \<Rightarrow>
   ('a dbase_proc_scheme \<times> 'w \<times> u8 list \<times> int) res" where
  "el_read_data_rh os env nPn di outBuf nSize p w =
     bindR (read_req_rh (dp_seq p) nPn di) (\<lambda>(seq, pMsgSend).
     bindR (SmMsgSendWait os env EL_APP_NAME EL_KEY_ID pMsgSend zero_msg WAITE_TIMEOUT (dp_chan p) w)
       (\<lambda>(ch, w, pMsgRet, nRet).
     let p = p\<lparr>dp_chan := ch, dp_seq := seq\<rparr> in
     if nRet = 0 \<and> uint (nSize_of pMsgRet) \<le> nSize
     then bindR (xdr_get_OCTET_STRING (ack_pValue pMsgRet) 0 outBuf (word_of_int nSize))
            (\<lambda>(outBuf, len, _). Inr (p, w, outBuf, sint len))
     else Inr (p, w, outBuf, nRet)))"

definition el_write_data_rh ::
  "os_env \<Rightarrow> 'w tick_env \<Rightarrow> u16 \<Rightarrow> u32 \<Rightarrow> u8 list \<Rightarrow> u32 \<Rightarrow> 'a dbase_proc_scheme \<Rightarrow> 'w \<Rightarrow>
   ('a dbase_proc_scheme \<times> 'w \<times> int) res" where
  "el_write_data_rh os env nPn di buf len p w =
     bindR (write_req_rh (dp_seq p) nPn di buf len) (\<lambda>(seq, pMsgSend).
     bindR (SmMsgSendWait os env EL_APP_NAME EL_KEY_ID pMsgSend zero_msg WAITE_TIMEOUT (dp_chan p) w)
       (\<lambda>(ch, w, pMsgRet, nRet). Inr (p\<lparr>dp_chan := ch, dp_seq := seq\<rparr>, w, nRet)))"

section \<open>Answers\<close>

definition echo_msg_rh ::
  "int \<Rightarrow> RH_MSG_BUFFER_T \<Rightarrow> u8 list \<Rightarrow> int \<Rightarrow> RH_MSG_BUFFER_T res" where
  "echo_msg_rh nErrNo pMsgRecv buf len =
     (let m = zero_msg\<lparr>h_state := MSG_ACK, h_sync := h_sync pMsgRecv, h_index := h_index pMsgRecv\<rparr> in
      bindR (set_srce RH_APP_NAME m) (\<lambda>m.
      bindR (set_dest (h_szSrce pMsgRecv) m) (\<lambda>m.
      let m = set_errNo nErrNo (set_iop (tag_iop pMsgRecv) (set_iid IID_EL m)) in
      bindR (xdr_add_OCTET_STRING (ack_pValue m) 0 buf (word_of_int len)) (\<lambda>(b, nPos).
        Inr (set_nSize (word_of_int nPos) (set_ack_pValue b m))))))"

definition el_msg_echo_rh ::
  "os_env \<Rightarrow> int \<Rightarrow> RH_MSG_BUFFER_T \<Rightarrow> u8 list \<Rightarrow> int \<Rightarrow> 'a dbase_proc_scheme \<Rightarrow> 'a dbase_proc_scheme res" where
  "el_msg_echo_rh os nErrNo pMsgRecv buf len p =
     bindR (echo_msg_rh nErrNo pMsgRecv buf len) (\<lambda>m.
     bindR (SmMsgSendEcho os EL_KEY_ID m (dp_chan p)) (\<lambda>(ch, _). Inr (p\<lparr>dp_chan := ch\<rparr>)))"

section \<open>Handlers\<close>

text \<open>The point number and identifier at the start of a request payload.\<close>

definition get_pn_id :: "u8 list \<Rightarrow> (u16 \<times> u32 \<times> int) res" where
  "get_pn_id pValue =
     bindR (xdr_get_uint16 pValue 0) (\<lambda>(nPn, n1).
     bindR (xdr_get_uint32 pValue (nat n1)) (\<lambda>(di, n2). Inr (nPn, di, n1 + n2)))"

definition read_mem_data :: "os_env \<Rightarrow> RH_MSG_BUFFER_T \<Rightarrow> rh_proc \<Rightarrow> (rh_proc \<times> int) res" where
  "read_mem_data os pMsg p =
     bindR (get_pn_id (msg_pValue pMsg)) (\<lambda>(nPn, di, nPos).
     bindR (rh_mem_data_read_oop (dp_mem p) nPn di (replicate 128 0) 128) (\<lambda>(mem, dataBuf, nRet).
     let nErrNo = (if nRet > 0 then 0 else 1) in
     bindR (el_msg_echo_rh os nErrNo pMsg dataBuf nRet (p\<lparr>dp_mem := mem\<rparr>)) (\<lambda>p. Inr (p, 0))))"

definition write_mem_data :: "os_env \<Rightarrow> RH_MSG_BUFFER_T \<Rightarrow> rh_proc \<Rightarrow> (rh_proc \<times> int) res" where
  "write_mem_data os pMsg p =
     bindR (get_pn_id (msg_pValue pMsg)) (\<lambda>(nPn, di, nPos).
     bindR (xdr_get_OCTET_STRING (msg_pValue pMsg) (nat nPos) (replicate 128 0) 128) (\<lambda>(dataBuf, datalen, n).
     bindR (rh_mem_data_write_oop (dp_mem p) nPn di dataBuf (sint datalen)) (\<lambda>(mem, nRet).
     let nErrNo = (if nRet > 0 then 0 else 1) in
     bindR (el_msg_echo_rh os nErrNo pMsg dataBuf nRet (p\<lparr>dp_mem := mem\<rparr>)) (\<lambda>p. Inr (p, 0)))))"

section \<open>The server thread\<close>

type_synonym 's handler = "os_env \<Rightarrow> RH_MSG_BUFFER_T \<Rightarrow> 's \<Rightarrow> ('s \<times> int) res"

definition s_dbaseMsgMap_rh :: "(u8 \<times> rh_proc handler option) list" where
  "s_dbaseMsgMap_rh = [(IOP_DBASE_READ, Some read_mem_data), (IOP_DBASE_WRITE, Some write_mem_data)]"

text \<open>The first entry whose operation code equals the 16 bit \<^verbatim>\<open>tag.iop\<close> and whose function is not null.\<close>

fun dispatch :: "(u8 \<times> 's handler option) list \<Rightarrow> os_env \<Rightarrow> RH_MSG_BUFFER_T \<Rightarrow> 's \<Rightarrow> 's res" where
  "dispatch [] os msg p = Inr p"
| "dispatch ((iop, pfunc) # rest) os msg p =
     (case pfunc of
        Some f \<Rightarrow> if tag_iop msg = ucast iop then bindR (f os msg p) (\<lambda>(p, _). Inr p)
                  else dispatch rest os msg p
      | None \<Rightarrow> dispatch rest os msg p)"

text \<open>One iteration of the endless loop of the thread.\<close>

definition elDbaseProc_rh :: "os_env \<Rightarrow> rh_proc \<Rightarrow> rh_proc res" where
  "elDbaseProc_rh os p =
     bindR (SmMsgRecv os RH_APP_NAME EL_KEY_ID zero_msg (dp_chan p)) (\<lambda>(ch, RecvMsg, r).
     let p = p\<lparr>dp_chan := ch\<rparr> in
     if r = 0 then dispatch s_dbaseMsgMap_rh os RecvMsg p else Inr p)"

text \<open>The flag tells whether the server thread runs.\<close>

definition el_dbase_init :: "os_env \<Rightarrow> 'a dbase_proc_scheme \<Rightarrow> ('a dbase_proc_scheme \<times> bool) res" where
  "el_dbase_init os p =
     bindR (SmMsgInit os EL_KEY_ID (dp_chan p)) (\<lambda>ch. Inr (p\<lparr>dp_chan := ch\<rparr>, pthread_create_ok os))"

section \<open>Start of the program\<close>

text \<open>
  \<^verbatim>\<open>rh_mem_init\<close> of \<^verbatim>\<open>mem.c\<close>; \<open>doc1\<close> and \<open>doc2\<close> are the two parses of \<^verbatim>\<open>meter.xml\<close>.  The flag
  tells whether the server thread runs.
\<close>

definition rh_mem_init ::
  "os_env \<Rightarrow> alloc_env \<Rightarrow> xmlDoc option \<Rightarrow> xmlDoc option \<Rightarrow> rh_proc \<Rightarrow> (rh_proc \<times> bool \<times> int) res" where
  "rh_mem_init os env doc1 doc2 p =
     bindR (rh_point_list_load env doc1) (\<lambda>(pm, r).
     let p = p\<lparr>dp_mem := (dp_mem p)\<lparr>s_pointMap := pm\<rparr>\<rparr> in
     if r < 0 then Inr (p, False, - 1)
     else
       bindR (rh_mem_map_init env doc2) (\<lambda>(mm, malloc_len).
       let p = p\<lparr>dp_mem := (dp_mem p)\<lparr>s_memMap := mm\<rparr>\<rparr> in
       if malloc_len < 0 then Inr (p, False, - 1)
       else if \<not> alloc env DataMem malloc_len
       then Inr (p\<lparr>dp_mem := (dp_mem p)\<lparr>s_pDataMem := None\<rparr>\<rparr>, False, - 1)
       else
         bindR (el_dbase_init os (p\<lparr>dp_mem := (dp_mem p)\<lparr>s_pDataMem := Some (replicate (nat malloc_len) 0)\<rparr>\<rparr>))
           (\<lambda>(p, running). Inr (p, running, 0))))"

end
