(* ===== verification/MsgProtocol.thy ===== *)
theory MsgProtocol
  imports MsgChannel
begin

text \<open>
  What the mailbox functions guarantee when the operating system calls succeed (\<open>os_ok\<close>).
  \<open>env_run\<close> is the mailbox as the environment leaves it after a number of sleeps, so the two
  polling loops of \<^verbatim>\<open>SmMsgSendWait\<close> are characterised by the first sleep after which the mailbox
  is idle, and the first after which it holds the matching answer.
\<close>

section \<open>Segments\<close>

definition os_ok :: "os_env \<Rightarrow> bool" where
  "os_ok os \<longleftrightarrow> shmget_ok os \<and> shmat_ret os = ShmMapped"

text \<open>Identifiers are non-negative, so keys are below \<open>2 ^ 31\<close>.\<close>

definition small_key :: "u32 \<Rightarrow> bool" where
  "small_key key \<longleftrightarrow> uint key < 2 ^ 31"

definition box :: "chan \<Rightarrow> u32 \<Rightarrow> RH_MSG_BUFFER_T" where
  "box ch key = (case ch_segs ch key of None \<Rightarrow> zero_msg | Some seg \<Rightarrow> seg)"

definition put_box :: "chan \<Rightarrow> u32 \<Rightarrow> RH_MSG_BUFFER_T \<Rightarrow> chan" where
  "put_box ch key seg = ch\<lparr>ch_segs := (ch_segs ch)(key := Some seg)\<rparr>"

lemma put_box_simps [simp]:
  "box (put_box ch key seg) key = seg" "ch_lock (put_box ch key seg) = ch_lock ch"
  "put_box (put_box ch key a) key b = put_box ch key b" "ch_segs (put_box ch key seg) key = Some seg"
  "key' \<noteq> key \<Longrightarrow> box (put_box ch key seg) key' = box ch key'"
  by (simp_all add: box_def put_box_def)

lemma put_box_lock [simp]: "put_box (ch\<lparr>ch_lock := l\<rparr>) key seg = (put_box ch key seg)\<lparr>ch_lock := l\<rparr>"
  by (simp add: put_box_def)

lemma lock_same [simp]: "ch_lock ch = l \<Longrightarrow> ch\<lparr>ch_lock := l\<rparr> = ch"
  by (cases ch) simp

lemma box_lock [simp]: "box (ch\<lparr>ch_lock := l\<rparr>) key = box ch key"
  by (simp add: box_def)

lemma get_que:
  "os_ok os \<Longrightarrow> SmGetMsgQue os key ch = (put_box ch key (box ch key), uint key)"
  by (cases ch) (auto simp: SmGetMsgQue_def os_ok_def put_box_def box_def split: option.split)

lemma shmat_ok: "os_ok os \<Longrightarrow> 0 \<le> h \<Longrightarrow> shmat os h = ShmMapped"
  by (simp add: shmat_def os_ok_def)

lemma seg_mapped [simp]:
  "seg_get ShmMapped key (put_box ch key seg) = Inr seg"
  "seg_put ShmMapped key seg' (put_box ch key seg) = Inr (put_box ch key seg')"
  by (simp_all add: seg_put_def seg_get_def) (simp add: put_box_def)

lemma seg_mapped_lock [simp]:
  "seg_get ShmMapped key ((put_box ch key seg)\<lparr>ch_lock := l\<rparr>) = Inr seg"
  "seg_put ShmMapped key seg' ((put_box ch key seg)\<lparr>ch_lock := l\<rparr>) = Inr ((put_box ch key seg')\<lparr>ch_lock := l\<rparr>)"
  by (simp_all add: seg_put_def seg_get_def) (simp add: put_box_def)

lemma mutex_free:
  "ch_lock ch = LkFree \<Longrightarrow> SmMutexLock ch = Inr (ch\<lparr>ch_lock := LkHeld\<rparr>)"
  "SmMutexUnlock (ch\<lparr>ch_lock := LkHeld\<rparr>) = Inr (ch\<lparr>ch_lock := LkFree\<rparr>)"
  by (simp_all add: SmMutexLock_def SmMutexUnlock_def)

section \<open>Receiving and answering\<close>

lemma SmMsgRecv_closed:
  assumes "os_ok os" and "terminated szName" and "terminated (h_szDest (box ch key))"
  shows "SmMsgRecv os szName key pMsg ch =
     (let seg = box ch key in
      if h_state seg \<noteq> MSG_REQ then Inr (put_box ch key seg, pMsg, - 3)
      else if ccont (h_szDest seg) = ccont szName
      then Inr (put_box ch key (seg\<lparr>h_state := MSG_IDLE\<rparr>), seg, 0)
      else Inr (put_box ch key seg, pMsg, - 4))"
proof -
  obtain c where "strcmp (h_szDest (box ch key)) szName = Inr c"
    and "c = 0 \<longleftrightarrow> ccont (h_szDest (box ch key)) = ccont szName"
    using strcmp_terminated assms(2,3) by blast
  then show ?thesis
    using assms(1) by (simp add: SmMsgRecv_def get_que shmat_ok Let_def)
qed

lemma SmMsgSendEcho_closed:
  assumes "os_ok os" and "ch_lock ch = LkFree"
  shows "SmMsgSendEcho os key pMsg ch =
     (if h_state (box ch key) = MSG_IDLE then Inr (put_box ch key pMsg, 0)
      else Inr (put_box ch key (box ch key), - 3))"
  using assms by (simp add: SmMsgSendEcho_def mutex_free get_que shmat_ok Let_def)

section \<open>The polling loops\<close>

fun env_run :: "'w tick_env \<Rightarrow> nat \<Rightarrow> nat \<Rightarrow> RH_MSG_BUFFER_T \<times> 'w \<Rightarrow> RH_MSG_BUFFER_T \<times> 'w" where
  "env_run env k 0 sw = sw"
| "env_run env k (Suc n) sw = env_run env (Suc k) n (env k sw)"

text \<open>The number of sleeps a loop has time for.\<close>

definition sleeps :: "nat \<Rightarrow> nat \<Rightarrow> nat \<Rightarrow> nat" where
  "sleeps step W time = (W - time + step - 1) div step"

lemma sleeps_0: "0 < step \<Longrightarrow> sleeps step W time = 0 \<longleftrightarrow> W \<le> time"
  by (auto simp: sleeps_def div_eq_0_iff)

lemma sleeps_Suc: "0 < step \<Longrightarrow> time < W \<Longrightarrow> sleeps step W time = Suc (sleeps step W (time + step))"
proof -
  assume s: "0 < step" and "time < W"
  show ?thesis
  proof (cases "time + step \<le> W")
    case True
    then have "W - time + step - 1 = step + (W - (time + step) + step - 1)" using s by simp
    then show ?thesis using s unfolding sleeps_def by (simp only: div_add_self1)
  next
    case False
    with \<open>time < W\<close> s have "W - time + step - 1 = step + (W - time - 1)" "W - time - 1 < step"
      by simp_all
    then have "sleeps step W time = Suc 0"
      using s unfolding sleeps_def by (simp only: div_add_self1) simp
    then show ?thesis using False s sleeps_0 [of step W "time + step"] by simp
  qed
qed

lemma send_poll_step:
  assumes "0 < step" and "time < W"
  shows "send_poll env step W pMsg k time sw =
     (if h_state (fst (env k sw)) \<noteq> MSG_IDLE
      then send_poll env step W pMsg (Suc k) (time + step) (env k sw)
      else (time, Suc k, pMsg, snd (env k sw)))"
  using assms by (cases "env k sw") (simp add: send_poll.simps [of env step W pMsg k time])

lemma send_poll_end: "W \<le> time \<Longrightarrow> send_poll env step W pMsg k time sw = (time, k, sw)"
  by (simp add: send_poll.simps)

lemma recv_poll_end: "W \<le> time \<Longrightarrow> recv_poll env step W szSrc pMsg k time sw = Inr (None, k, sw)"
  by (simp add: recv_poll.simps)

lemma send_poll_idle:
  assumes "0 < step" and "n < sleeps step W time"
    and "\<forall>j < n. h_state (fst (env_run env k (Suc j) sw)) \<noteq> MSG_IDLE"
    and "h_state (fst (env_run env k (Suc n) sw)) = MSG_IDLE"
  shows "send_poll env step W pMsg k time sw = (time + n * step, k + Suc n, pMsg, snd (env_run env k (Suc n) sw))"
  using assms
proof (induction n arbitrary: k time sw)
  case 0
  then have "time < W" using sleeps_0 [of step W time] by simp
  with 0 show ?case by (simp add: send_poll_step)
next
  case (Suc n)
  then have t: "time < W" using sleeps_0 [of step W time] by simp
  have busy: "h_state (fst (env k sw)) \<noteq> MSG_IDLE" using Suc.prems(3) by (auto dest: spec [of _ 0])
  have "send_poll env step W pMsg k time sw = send_poll env step W pMsg (Suc k) (time + step) (env k sw)"
    using t Suc.prems(1) busy by (simp add: send_poll_step)
  also have "\<dots> = (time + step + n * step, Suc k + Suc n, pMsg, snd (env_run env (Suc k) (Suc n) (env k sw)))"
  proof (rule Suc.IH)
    show "n < sleeps step W (time + step)" using Suc.prems(2) sleeps_Suc [OF Suc.prems(1) t] by simp
    show "\<forall>j < n. h_state (fst (env_run env (Suc k) (Suc j) (env k sw))) \<noteq> MSG_IDLE"
      using Suc.prems(3) by auto
  qed (use Suc.prems in auto)
  finally show ?case by simp
qed

lemma send_poll_timeout:
  assumes "0 < step" and "\<forall>j < sleeps step W time. h_state (fst (env_run env k (Suc j) sw)) \<noteq> MSG_IDLE"
  shows "\<exists>t. send_poll env step W pMsg k time sw =
       (t, k + sleeps step W time, env_run env k (sleeps step W time) sw) \<and> W \<le> t"
  using assms
proof (induction "sleeps step W time" arbitrary: k time sw)
  case 0
  then show ?case using sleeps_0 [of step W time] by (simp add: send_poll_end)
next
  case (Suc n)
  then have t: "time < W" using sleeps_0 [of step W time] by simp
  have n: "sleeps step W time = Suc (sleeps step W (time + step))" using sleeps_Suc Suc.prems(1) t .
  have busy: "h_state (fst (env k sw)) \<noteq> MSG_IDLE" using Suc.prems(2) n by (auto dest: spec [of _ 0])
  have "send_poll env step W pMsg k time sw = send_poll env step W pMsg (Suc k) (time + step) (env k sw)"
    using t Suc.prems(1) busy by (simp add: send_poll_step)
  moreover have "\<exists>t. send_poll env step W pMsg (Suc k) (time + step) (env k sw) =
       (t, Suc k + sleeps step W (time + step), env_run env (Suc k) (sleeps step W (time + step)) (env k sw)) \<and> W \<le> t"
    by (rule Suc.hyps(1)) (use Suc.hyps(2) Suc.prems n in auto)
  ultimately show ?case using n by simp
qed

text \<open>The answer a sender waits for.\<close>

definition matches :: "u8 list \<Rightarrow> RH_MSG_BUFFER_T \<Rightarrow> RH_MSG_BUFFER_T \<Rightarrow> bool" where
  "matches szSrc pMsg seg \<longleftrightarrow> h_state seg = MSG_ACK \<and> h_sync seg \<noteq> 0 \<and> h_index seg = h_index pMsg
     \<and> ccont (h_szDest seg) = ccont szSrc"

definition dest_ok :: "'w tick_env \<Rightarrow> bool" where
  "dest_ok env \<longleftrightarrow> (\<forall>k sw. terminated (h_szDest (fst (env k sw))))"

lemma recv_poll_step:
  assumes "terminated (h_szDest (fst (env k sw)))" and "terminated szSrc" and "0 < step" and "time < W"
  shows "recv_poll env step W szSrc pMsg k time sw =
     (if matches szSrc pMsg (fst (env k sw))
      then Inr (Some (fst (env k sw)), Suc k, (fst (env k sw))\<lparr>h_state := MSG_IDLE\<rparr>, snd (env k sw))
      else recv_poll env step W szSrc pMsg (Suc k) (time + step) (env k sw))"
proof -
  obtain seg w where e: "env k sw = (seg, w)" by (cases "env k sw")
  have "terminated (h_szDest seg)" using assms(1) e by simp
  then obtain c where "strcmp (h_szDest seg) szSrc = Inr c" "c = 0 \<longleftrightarrow> ccont (h_szDest seg) = ccont szSrc"
    using strcmp_terminated assms(2) by blast
  then show ?thesis
    using assms(3,4) e by (simp add: recv_poll.simps [of env step W szSrc pMsg k time] matches_def)
qed

lemma recv_poll_found:
  assumes "terminated szSrc" and "0 < step" and "n < sleeps step W time"
    and "\<forall>j \<le> n. terminated (h_szDest (fst (env_run env k (Suc j) sw)))"
    and "\<forall>j < n. \<not> matches szSrc pMsg (fst (env_run env k (Suc j) sw))"
    and "matches szSrc pMsg (fst (env_run env k (Suc n) sw))"
  shows "recv_poll env step W szSrc pMsg k time sw =
     Inr (Some (fst (env_run env k (Suc n) sw)), k + Suc n,
          (fst (env_run env k (Suc n) sw))\<lparr>h_state := MSG_IDLE\<rparr>, snd (env_run env k (Suc n) sw))"
  using assms(3-6)
proof (induction n arbitrary: k time sw)
  case 0
  then have "time < W" using sleeps_0 [of step W time] assms(2) by simp
  with 0 show ?case by (simp add: recv_poll_step [OF _ assms(1,2)])
next
  case (Suc n)
  then have t: "time < W" using sleeps_0 [of step W time] assms(2) by simp
  have no: "\<not> matches szSrc pMsg (fst (env k sw))" using Suc.prems(3) by (auto dest: spec [of _ 0])
  have d: "terminated (h_szDest (fst (env k sw)))" using Suc.prems(2) by (auto dest: spec [of _ 0])
  have "recv_poll env step W szSrc pMsg (Suc k) (time + step) (env k sw) =
     Inr (Some (fst (env_run env (Suc k) (Suc n) (env k sw))), Suc k + Suc n,
          (fst (env_run env (Suc k) (Suc n) (env k sw)))\<lparr>h_state := MSG_IDLE\<rparr>,
          snd (env_run env (Suc k) (Suc n) (env k sw)))"
  proof (rule Suc.IH)
    show "n < sleeps step W (time + step)" using Suc.prems(1) sleeps_Suc [OF assms(2) t] by simp
    show "\<forall>j \<le> n. terminated (h_szDest (fst (env_run env (Suc k) (Suc j) (env k sw))))"
      using Suc.prems(2) by auto
    show "\<forall>j < n. \<not> matches szSrc pMsg (fst (env_run env (Suc k) (Suc j) (env k sw)))"
      using Suc.prems(3) by auto
  qed (use Suc.prems in auto)
  with no t d show ?case by (simp add: recv_poll_step [OF _ assms(1,2)])
qed

lemma dest_ok_step: "dest_ok env \<Longrightarrow> terminated (h_szDest (fst (env k sw)))"
  unfolding dest_ok_def by blast

lemma dest_ok_run: "dest_ok env \<Longrightarrow> terminated (h_szDest (fst (env_run env k (Suc n) sw)))"
proof (induction n arbitrary: k sw)
  case 0
  then show ?case using dest_ok_step by simp
next
  case (Suc n)
  then show ?case by (metis env_run.simps(2))
qed

lemma recv_poll_none:
  assumes "dest_ok env" and "terminated szSrc" and "0 < step"
    and "\<forall>j < sleeps step W time. \<not> matches szSrc pMsg (fst (env_run env k (Suc j) sw))"
  shows "recv_poll env step W szSrc pMsg k time sw =
     Inr (None, k + sleeps step W time, env_run env k (sleeps step W time) sw)"
  using assms(4)
proof (induction "sleeps step W time" arbitrary: k time sw)
  case 0
  then show ?case using sleeps_0 [of step W time] assms(3) by (simp add: recv_poll_end)
next
  case (Suc n)
  then have t: "time < W" using sleeps_0 [of step W time] assms(3) by simp
  have n: "sleeps step W time = Suc (sleeps step W (time + step))" using sleeps_Suc assms(3) t .
  have no: "\<not> matches szSrc pMsg (fst (env k sw))" using Suc.prems n by (auto dest: spec [of _ 0])
  have "recv_poll env step W szSrc pMsg (Suc k) (time + step) (env k sw) =
     Inr (None, Suc k + sleeps step W (time + step), env_run env (Suc k) (sleeps step W (time + step)) (env k sw))"
  proof (rule Suc.hyps(1))
    show "n = sleeps step W (time + step)" using Suc.hyps(2) n by simp
    show "\<forall>j < sleeps step W (time + step). \<not> matches szSrc pMsg (fst (env_run env (Suc k) (Suc j) (env k sw)))"
      using Suc.prems n by (metis Suc_less_eq env_run.simps(2))
  qed
  then show ?case using no n by (simp only: recv_poll_step [of env k sw, OF dest_ok_step [OF assms(1), of k sw] assms(2,3) t] if_False env_run.simps) simp
qed

text \<open>The two outcomes of a search for the first sleep with a property.\<close>

lemma first_sleep:
  obtains n where "n < N" "P n" "\<forall>j < n. \<not> P j" | "\<forall>j < (N :: nat). \<not> P j"
proof (cases "\<exists>n < N. P n")
  case True
  then have "\<exists>n. n < N \<and> P n" by blast
  then obtain n where "n < N \<and> P n" and "\<forall>j < n. \<not> (j < N \<and> P j)"
    using exists_least_iff [of "\<lambda>n. n < N \<and> P n"] by blast
  then have "n < N" "P n" "\<forall>j < n. \<not> P j" by auto
  then show thesis by (rule that(1))
qed (use that in blast)

lemma recv_poll_cases:
  assumes "dest_ok env" and "terminated szSrc" and "0 < step"
  obtains n seg w where "recv_poll env step W szSrc pMsg k time sw = Inr (Some seg, k + Suc n, seg\<lparr>h_state := MSG_IDLE\<rparr>, w)"
      and "matches szSrc pMsg seg" and "n < sleeps step W time" and "env_run env k (Suc n) sw = (seg, w)"
  | seg w where "recv_poll env step W szSrc pMsg k time sw = Inr (None, k + sleeps step W time, seg, w)"
      and "env_run env k (sleeps step W time) sw = (seg, w)"
proof (rule first_sleep [of "sleeps step W time" "\<lambda>n. matches szSrc pMsg (fst (env_run env k (Suc n) sw))"])
  fix n assume n: "n < sleeps step W time" "matches szSrc pMsg (fst (env_run env k (Suc n) sw))"
    "\<forall>j < n. \<not> matches szSrc pMsg (fst (env_run env k (Suc j) sw))"
  obtain seg w where e: "env_run env k (Suc n) sw = (seg, w)" by (cases "env_run env k (Suc n) sw")
  have "recv_poll env step W szSrc pMsg k time sw = Inr (Some seg, k + Suc n, seg\<lparr>h_state := MSG_IDLE\<rparr>, w)"
    using recv_poll_found [OF assms(2,3) n(1) _ n(3,2)] dest_ok_run [OF assms(1)] e by simp
  moreover have "matches szSrc pMsg seg" using n(2) unfolding e by simp
  ultimately show thesis using n(1) e by (rule that(1))
next
  assume "\<forall>j < sleeps step W time. \<not> matches szSrc pMsg (fst (env_run env k (Suc j) sw))"
  then show thesis using recv_poll_none [OF assms, of W time pMsg k sw] that(2) by (metis prod.collapse)
qed

section \<open>Sending\<close>

lemma send_wait_closed:
  assumes "os_ok os" and "ch_lock ch = LkFree"
  shows "send_wait step unit os env szSrc key pMsg pRet W0 ch w =
     (let W = unat (clamp_wait W0) * unit;
          (time, k, seg, w1) = send_poll env step W pMsg 0 0 (box ch key, w)
      in if time \<ge> W then Inr (put_box ch key (seg\<lparr>h_state := MSG_IDLE\<rparr>), w1, pRet, - 3)
         else bindR (recv_poll env step W szSrc pMsg k time (seg, w1)) (\<lambda>(r, k, seg, w2).
           Inr (put_box ch key (seg\<lparr>h_state := MSG_IDLE\<rparr>), w2,
                case r of Some ret \<Rightarrow> ret | None \<Rightarrow> pRet, case r of Some _ \<Rightarrow> 0 | None \<Rightarrow> - 4)))"
proof -
  let ?W = "unat (clamp_wait W0) * unit"
  obtain time k seg w1 where p: "send_poll env step ?W pMsg 0 0 (box ch key, w) = (time, k, seg, w1)"
    by (cases "send_poll env step ?W pMsg 0 0 (box ch key, w)") auto
  have lk: "SmMutexLock (put_box ch key (box ch key)) = Inr ((put_box ch key (box ch key))\<lparr>ch_lock := LkHeld\<rparr>)"
    by (rule mutex_free) (simp add: assms(2))
  have un: "SmMutexUnlock ((put_box ch key s)\<lparr>ch_lock := LkHeld\<rparr>) = Inr (put_box ch key s)" for s
    using mutex_free(2) [of "put_box ch key s"] assms(2) by simp
  show ?thesis
  proof (cases "?W \<le> time")
    case True
    with p show ?thesis
      using assms(1) by (simp add: send_wait_def get_que shmat_ok lk un Let_def)
  next
    case False
    with p show ?thesis
      using assms(1)
      by (cases "recv_poll env step ?W szSrc pMsg k time (seg, w1)")
        (auto simp: send_wait_def get_que shmat_ok lk un Let_def split: option.splits)
  qed
qed

lemma clamp_wait_pos: "0 < unat (clamp_wait n)"
  by (auto simp: clamp_wait_def MAX_MSG_TIMEOUT_def unat_gt_0)

lemma clamp_wait_le: "unat (clamp_wait n) \<le> 30"
  by (auto simp: clamp_wait_def MAX_MSG_TIMEOUT_def word_le_nat_alt not_less)

lemma send_poll_cases:
  assumes "0 < step"
  obtains n where "n < sleeps step W 0" and "h_state (fst (env_run env 0 (Suc n) sw)) = MSG_IDLE"
      and "send_poll env step W pMsg 0 0 sw = (n * step, Suc n, pMsg, snd (env_run env 0 (Suc n) sw))"
      and "n * step < W"
  | t where "send_poll env step W pMsg 0 0 sw = (t, sleeps step W 0, env_run env 0 (sleeps step W 0) sw)"
      and "W \<le> t"
proof (rule first_sleep [of "sleeps step W 0" "\<lambda>n. h_state (fst (env_run env 0 (Suc n) sw)) = MSG_IDLE"])
  fix n assume n: "n < sleeps step W 0" "h_state (fst (env_run env 0 (Suc n) sw)) = MSG_IDLE"
    and "\<forall>j < n. h_state (fst (env_run env 0 (Suc j) sw)) \<noteq> MSG_IDLE"
  then have "send_poll env step W pMsg 0 0 sw = (n * step, Suc n, pMsg, snd (env_run env 0 (Suc n) sw))"
    using send_poll_idle [OF assms n(1), of env 0 sw pMsg] by simp
  moreover have "n * step < W"
  proof -
    have "Suc n \<le> (W + step - 1) div step" using n(1) by (simp add: sleeps_def)
    then have "Suc n * step \<le> W + step - 1" using assms by (metis div_times_less_eq_dividend le_trans mult_le_mono1)
    then show ?thesis using assms by simp
  qed
  ultimately show thesis using n that(1) by blast
next
  assume "\<forall>j < sleeps step W 0. h_state (fst (env_run env 0 (Suc j) sw)) \<noteq> MSG_IDLE"
  then show thesis using send_poll_timeout [OF assms, of W 0 env 0 sw pMsg] that(2) by auto
qed

text \<open>A run of \<^verbatim>\<open>SmMsgSendWait\<close>, whatever the environment does.\<close>

definition send_ok :: "u8 list \<Rightarrow> u32 \<Rightarrow> RH_MSG_BUFFER_T \<Rightarrow> RH_MSG_BUFFER_T \<Rightarrow> chan \<Rightarrow>
    chan \<Rightarrow> RH_MSG_BUFFER_T \<Rightarrow> int \<Rightarrow> bool" where
  "send_ok szSrc key pMsg pRet ch ch' ret r \<longleftrightarrow>
     ch_lock ch' = LkFree \<and> h_state (box ch' key) = MSG_IDLE
     \<and> (\<forall>key'. key' \<noteq> key \<longrightarrow> ch_segs ch' key' = ch_segs ch key')
     \<and> (r = 0 \<and> matches szSrc pMsg ret \<or> (r = - 3 \<or> r = - 4) \<and> ret = pRet)"

lemma send_wait_total:
  assumes "os_ok os" and "ch_lock ch = LkFree" and "dest_ok env" and "terminated szSrc" and "0 < step"
  shows "\<exists>ch' w' ret r. send_wait step unit os env szSrc key pMsg pRet W0 ch w = Inr (ch', w', ret, r)
     \<and> send_ok szSrc key pMsg pRet ch ch' ret r"
proof -
  let ?W = "unat (clamp_wait W0) * unit" and ?sw = "(box ch key, w)"
  note closed = send_wait_closed [OF assms(1,2), of step unit env szSrc key pMsg pRet W0 w]
  have other: "\<forall>key'. key' \<noteq> key \<longrightarrow> ch_segs (put_box ch key s) key' = ch_segs ch key'" for s
    by (simp add: put_box_def)
  show ?thesis
  proof (rule send_poll_cases [OF assms(5), of ?W env ?sw pMsg])
    fix t assume "send_poll env step ?W pMsg 0 0 ?sw = (t, sleeps step ?W 0, env_run env 0 (sleeps step ?W 0) ?sw)"
      and "?W \<le> t"
    then show ?thesis
      using closed other assms(2)
      by (cases "env_run env 0 (sleeps step ?W 0) ?sw") (simp add: send_ok_def)
  next
    fix n assume "send_poll env step ?W pMsg 0 0 ?sw = (n * step, Suc n, pMsg, snd (env_run env 0 (Suc n) ?sw))"
      and "n * step < ?W"
    then have c: "send_wait step unit os env szSrc key pMsg pRet W0 ch w =
        bindR (recv_poll env step ?W szSrc pMsg (Suc n) (n * step) (pMsg, snd (env_run env 0 (Suc n) ?sw)))
          (\<lambda>(r, k, seg, w2). Inr (put_box ch key (seg\<lparr>h_state := MSG_IDLE\<rparr>), w2,
                case r of Some ret \<Rightarrow> ret | None \<Rightarrow> pRet, case r of Some _ \<Rightarrow> 0 | None \<Rightarrow> - 4))"
      using closed by simp
    show ?thesis
    proof (rule recv_poll_cases [OF assms(3-5), of ?W pMsg "Suc n" "n * step" "(pMsg, snd (env_run env 0 (Suc n) ?sw))"])
      fix k seg w'
      assume "recv_poll env step ?W szSrc pMsg (Suc n) (n * step) (pMsg, snd (env_run env 0 (Suc n) ?sw)) =
          Inr (Some seg, Suc n + Suc k, seg\<lparr>h_state := MSG_IDLE\<rparr>, w')" and "matches szSrc pMsg seg"
      then show ?thesis using c other assms(2) by (simp add: send_ok_def)
    next
      fix seg w'
      assume "recv_poll env step ?W szSrc pMsg (Suc n) (n * step) (pMsg, snd (env_run env 0 (Suc n) ?sw)) =
          Inr (None, Suc n + sleeps step ?W (n * step), seg, w')"
      then show ?thesis using c other assms(2) by (simp add: send_ok_def)
    qed
  qed
qed

text \<open>
  The mailbox is idle after the first sleep, and the matching answer is there \<open>n\<close> sleeps after
  the one that follows.
\<close>

lemma send_wait_answered:
  assumes "os_ok os" and "ch_lock ch = LkFree" and "terminated szSrc" and "0 < step"
    and "0 < unit" and idle: "h_state (fst (env 0 (box ch key, w))) = MSG_IDLE"
    and sw: "sw = (pMsg, snd (env 0 (box ch key, w)))"
    and n: "n < sleeps step (unat (clamp_wait W0) * unit) 0"
    and dest: "\<forall>j \<le> n. terminated (h_szDest (fst (env_run env 1 (Suc j) sw)))"
    and none: "\<forall>j < n. \<not> matches szSrc pMsg (fst (env_run env 1 (Suc j) sw))"
    and ans: "matches szSrc pMsg (fst (env_run env 1 (Suc n) sw))"
  shows "send_wait step unit os env szSrc key pMsg pRet W0 ch w =
     Inr (put_box ch key ((fst (env_run env 1 (Suc n) sw))\<lparr>h_state := MSG_IDLE\<rparr>), snd (env_run env 1 (Suc n) sw),
          fst (env_run env 1 (Suc n) sw), 0)"
proof -
  let ?W = "unat (clamp_wait W0) * unit"
  have W: "0 < ?W" using clamp_wait_pos assms(5) by simp
  have "send_poll env step ?W pMsg 0 0 (box ch key, w) = (0, 1, sw)"
    using send_poll_step [OF assms(4) W, of env pMsg 0 "(box ch key, w)"] idle sw by simp
  moreover have "recv_poll env step ?W szSrc pMsg 1 0 sw =
     Inr (Some (fst (env_run env 1 (Suc n) sw)), 1 + Suc n,
          (fst (env_run env 1 (Suc n) sw))\<lparr>h_state := MSG_IDLE\<rparr>, snd (env_run env 1 (Suc n) sw))"
    by (rule recv_poll_found [OF assms(3,4) n dest none ans])
  ultimately show ?thesis
    using send_wait_closed [OF assms(1,2), of step unit env szSrc key pMsg pRet W0 w] W
    by (cases sw) simp
qed

text \<open>
  The second loop in an arbitrary environment: it ends with the first answer that matches, with the
  waiting time, or with a fault of the comparison of names, when another process has left an
  acknowledgement of this index whose addressee has no terminator.
\<close>

definition unreadable :: "RH_MSG_BUFFER_T \<Rightarrow> RH_MSG_BUFFER_T \<Rightarrow> bool" where
  "unreadable pMsg seg \<longleftrightarrow> h_state seg = MSG_ACK \<and> h_sync seg \<noteq> 0 \<and> h_index seg = h_index pMsg
     \<and> \<not> terminated (h_szDest seg)"

lemma recv_poll_any:
  assumes "terminated szSrc" and "0 < step"
  shows "case recv_poll env step W szSrc pMsg k time sw of
       Inl e \<Rightarrow> e = NoTerminator \<and> (\<exists>n < sleeps step W time. unreadable pMsg (fst (env_run env k (Suc n) sw)))
     | Inr (r, k', seg, w) \<Rightarrow> \<forall>ret. r = Some ret \<longrightarrow> matches szSrc pMsg ret
         \<and> (\<exists>n < sleeps step W time. ret = fst (env_run env k (Suc n) sw))"
proof (induction "sleeps step W time" arbitrary: k time sw)
  case 0
  then show ?case using sleeps_0 [of step W time] assms(2) by (simp add: recv_poll_end)
next
  case (Suc n)
  then have t: "time < W" using sleeps_0 [of step W time] assms(2) by simp
  have n: "sleeps step W time = Suc (sleeps step W (time + step))" using sleeps_Suc assms(2) t .
  obtain seg w where e: "env k sw = (seg, w)" by (cases "env k sw")
  have ih: "case recv_poll env step W szSrc pMsg (Suc k) (time + step) (seg, w) of
       Inl e \<Rightarrow> e = NoTerminator \<and> (\<exists>j < sleeps step W time. unreadable pMsg (fst (env_run env k (Suc j) sw)))
     | Inr (r, k', seg, w) \<Rightarrow> \<forall>ret. r = Some ret \<longrightarrow> matches szSrc pMsg ret
         \<and> (\<exists>n < sleeps step W time. ret = fst (env_run env k (Suc n) sw))"
  proof -
    have later: "\<exists>j < sleeps step W time. Q (fst (env_run env k (Suc j) sw))"
      if "\<exists>j < sleeps step W (time + step). Q (fst (env_run env (Suc k) (Suc j) (seg, w)))" for Q
    proof -
      from that obtain j where "j < sleeps step W (time + step)" "Q (fst (env_run env (Suc k) (Suc j) (seg, w)))" by blast
      then show ?thesis using n e by (intro exI [of _ "Suc j"]) simp
    qed
    then show ?thesis
      using Suc.hyps(1) [of "time + step" "Suc k" "(seg, w)"] Suc.hyps(2) n
        later [of "unreadable pMsg"] later [of "\<lambda>m. ret = m" for ret]
      by (auto split: sum.splits simp del: env_run.simps)
  qed
  note step = recv_poll.simps [of env step W szSrc pMsg k time sw]
  show ?case
  proof (cases "h_state seg = MSG_ACK \<and> h_sync seg \<noteq> 0 \<and> h_index seg = h_index pMsg")
    case False
    then have "recv_poll env step W szSrc pMsg k time sw = recv_poll env step W szSrc pMsg (Suc k) (time + step) (seg, w)"
      using t assms(2) by (auto simp: step e)
    then show ?thesis using ih by simp
  next
    case True
    then have r: "recv_poll env step W szSrc pMsg k time sw = bindR (strcmp (h_szDest seg) szSrc) (\<lambda>c.
        if c \<noteq> 0 then recv_poll env step W szSrc pMsg (Suc k) (time + step) (seg, w)
        else Inr (Some seg, Suc k, seg\<lparr>h_state := MSG_IDLE\<rparr>, w))"
      using t assms(2) by (simp add: step e)
    show ?thesis
    proof (cases "strcmp (h_szDest seg) szSrc")
      case (Inl f)
      then have "f = NoTerminator" "unreadable pMsg (fst (env_run env k (Suc 0) sw))"
        using strcmp_fault [OF Inl] assms(1) True e by (simp_all add: unreadable_def)
      then show ?thesis using r Inl n by auto
    next
      case (Inr c)
      show ?thesis
      proof (cases "c = 0")
        case zero: True
        have "seg = fst (env_run env k (Suc 0) sw)" by (simp add: e)
        moreover have "matches szSrc pMsg seg" using True Inr zero strcmp_0 [of "h_szDest seg" szSrc] by (simp add: matches_def)
        ultimately show ?thesis using r Inr zero n by (auto simp del: env_run.simps)
      qed (use r ih Inr in simp)
    qed
  qed
qed

text \<open>
  The mailbox after sleep \<open>n + 1 + j\<close>, counted from 0, when the request was put there after sleep \<open>n\<close>.
\<close>

definition seen :: "'w tick_env \<Rightarrow> RH_MSG_BUFFER_T \<Rightarrow> RH_MSG_BUFFER_T \<times> 'w \<Rightarrow> nat \<Rightarrow> nat \<Rightarrow> RH_MSG_BUFFER_T" where
  "seen env pMsg sw n j = fst (env_run env (Suc n) (Suc j) (pMsg, snd (env_run env 0 (Suc n) sw)))"

lemma seen_image: "\<exists>k sw'. seen env pMsg sw n j = fst (env k sw')"
proof -
  have "\<exists>k' sw'. env_run env k (Suc j) sw = env k' sw'" for k sw
  proof (induction j arbitrary: k sw)
    case (Suc j)
    then show ?case by (metis env_run.simps(2))
  qed auto
  then show ?thesis unfolding seen_def by metis
qed

lemma send_wait_any:
  assumes "os_ok os" and "ch_lock ch = LkFree" and "terminated szSrc" and "0 < step"
  shows "case send_wait step unit os env szSrc key pMsg pRet W0 ch w of
       Inl e \<Rightarrow> e = NoTerminator \<and> (\<exists>n j. unreadable pMsg (seen env pMsg (box ch key, w) n j))
     | Inr (ch', w', ret, r) \<Rightarrow> send_ok szSrc key pMsg pRet ch ch' ret r
         \<and> (r = 0 \<longrightarrow> (\<exists>n j. ret = seen env pMsg (box ch key, w) n j))"
proof -
  let ?W = "unat (clamp_wait W0) * unit" and ?sw = "(box ch key, w)"
  note closed = send_wait_closed [OF assms(1,2), of step unit env szSrc key pMsg pRet W0 w]
  have other: "\<forall>key'. key' \<noteq> key \<longrightarrow> ch_segs (put_box ch key s) key' = ch_segs ch key'" for s
    by (simp add: put_box_def)
  show ?thesis
  proof (rule send_poll_cases [OF assms(4), of ?W env ?sw pMsg])
    fix t assume "send_poll env step ?W pMsg 0 0 ?sw = (t, sleeps step ?W 0, env_run env 0 (sleeps step ?W 0) ?sw)"
      and "?W \<le> t"
    then show ?thesis
      using closed other assms(2)
      by (cases "env_run env 0 (sleeps step ?W 0) ?sw") (simp add: send_ok_def)
  next
    fix n assume p: "send_poll env step ?W pMsg 0 0 ?sw = (n * step, Suc n, pMsg, snd (env_run env 0 (Suc n) ?sw))"
      and "n * step < ?W"
    let ?s = "(pMsg, snd (env_run env 0 (Suc n) ?sw))"
    have c: "send_wait step unit os env szSrc key pMsg pRet W0 ch w =
        bindR (recv_poll env step ?W szSrc pMsg (Suc n) (n * step) ?s)
          (\<lambda>(r, k, seg, w2). Inr (put_box ch key (seg\<lparr>h_state := MSG_IDLE\<rparr>), w2,
                case r of Some ret \<Rightarrow> ret | None \<Rightarrow> pRet, case r of Some _ \<Rightarrow> 0 | None \<Rightarrow> - 4))"
      using closed p \<open>n * step < ?W\<close> by simp
    have seen: "fst (env_run env (Suc n) (Suc j) ?s) = seen env pMsg ?sw n j" for j by (simp add: seen_def)
    show ?thesis
      using recv_poll_any [OF assms(3,4), where env = env and W = ?W and pMsg = pMsg and k = "Suc n"
          and time = "n * step" and sw = ?s, unfolded seen] c other assms(2)
      by (cases "recv_poll env step ?W szSrc pMsg (Suc n) (n * step) ?s")
        (auto simp: send_ok_def simp del: env_run.simps split: option.splits, blast)
  qed
qed

section \<open>Properties\<close>

text \<open>Two environments for the witnesses: nothing happens, and an answer to every request.\<close>

definition quiet :: "'w tick_env" where
  "quiet = (\<lambda>k sw. sw)"

definition echoing :: "u8 list \<Rightarrow> 'w tick_env" where
  "echoing name = (\<lambda>k (seg, w). (seg\<lparr>h_state := (if h_state seg = MSG_REQ then MSG_ACK else h_state seg),
     h_szDest := name\<rparr>, w))"

definition elAPP :: "u8 list" where "elAPP = [101, 108, 65, 80, 80, 0]"

lemma elAPP: "terminated elAPP"
  by (simp add: elAPP_def terminated_def)

lemma good_os_ok: "os_ok good_os"
  by (simp add: os_ok_def good_os_def)

lemma dest_ok_echoing: "terminated name \<Longrightarrow> dest_ok (echoing name)"
  by (simp add: dest_ok_def echoing_def case_prod_beta)

definition demo_req :: RH_MSG_BUFFER_T where
  "demo_req = zero_msg\<lparr>h_state := MSG_REQ, h_sync := 1, h_index := 7\<rparr>"

definition demo_chan :: "RH_MSG_BUFFER_T \<Rightarrow> chan" where
  "demo_chan seg = \<lparr>ch_segs = (\<lambda>key. if key = 1024 then Some seg else None), ch_lock = LkFree\<rparr>"

lemma demo_chan [simp]: "ch_lock (demo_chan seg) = LkFree" "box (demo_chan seg) 1024 = seg"
  by (simp_all add: demo_chan_def box_def)

text \<open>
  C13: whatever the other processes do to the mailbox, \<^verbatim>\<open>SmMsgSendWait\<close> returns, unless one of them
  leaves, after the request was put there, an acknowledgement with its index whose addressee has no
  terminator, behind which \<^verbatim>\<open>strcmp\<close> then reads.  When it returns, its mutex is free, the mailbox idle and
  the other segments are as before; the result is 0 only with an acknowledgement of this request
  (flag, synchronous mark, index and addressee all checked), and otherwise -3 or -4 with the caller's
  buffer untouched.
\<close>

theorem send_wait_safe:
  assumes "os_ok os" and "ch_lock ch = LkFree" and "terminated szSrc"
  shows "case SmMsgSendWait os env szSrc key pMsg pRet nWaittime ch w of
       Inl e \<Rightarrow> e = NoTerminator \<and> (\<exists>n j seg. seg = seen env pMsg (box ch key, w) n j
           \<and> h_state seg = MSG_ACK \<and> h_index seg = h_index pMsg \<and> \<not> terminated (h_szDest seg))
     | Inr (ch', w', ret, r) \<Rightarrow> ch_lock ch' = LkFree \<and> h_state (box ch' key) = MSG_IDLE
         \<and> (\<forall>key'. key' \<noteq> key \<longrightarrow> ch_segs ch' key' = ch_segs ch key')
         \<and> (r = 0 \<and> h_state ret = MSG_ACK \<and> h_sync ret \<noteq> 0 \<and> h_index ret = h_index pMsg
                \<and> ccont (h_szDest ret) = ccont szSrc
            \<or> (r = - 3 \<or> r = - 4) \<and> ret = pRet)"
proof -
  let ?r = "SmMsgSendWait os env szSrc key pMsg pRet nWaittime ch w"
  have any: "case ?r of
       Inl e \<Rightarrow> e = NoTerminator \<and> (\<exists>n j. unreadable pMsg (seen env pMsg (box ch key, w) n j))
     | Inr (ch', w', ret, r) \<Rightarrow> send_ok szSrc key pMsg pRet ch ch' ret r
         \<and> (r = 0 \<longrightarrow> (\<exists>n j. ret = seen env pMsg (box ch key, w) n j))"
    unfolding SmMsgSendWait_def by (rule send_wait_any) (simp_all add: assms)
  show ?thesis
  proof (cases ?r)
    case (Inl e)
    with any show ?thesis unfolding unreadable_def by (simp only: sum.case) blast
  next
    case (Inr z)
    with any show ?thesis by (cases z) (simp add: send_ok_def matches_def del: env_run.simps)
  qed
qed

text \<open>The witness: with terminated names the call returns.\<close>

theorem send_wait_safe_witness:
  "\<exists>ch' w' ret r. SmMsgSendWait good_os (echoing elAPP) elAPP 1024 demo_req zero_msg 5 (demo_chan zero_msg) ()
       = Inr (ch', w', ret, r)
     \<and> ch_lock ch' = LkFree \<and> h_state (box ch' 1024) = MSG_IDLE"
proof -
  have "terminated (h_szDest (seen (echoing elAPP) pMsg sw n j))" for pMsg n j and sw :: "RH_MSG_BUFFER_T \<times> unit"
    unfolding seen_def by (rule dest_ok_run [OF dest_ok_echoing [OF elAPP]])
  then show ?thesis
    using send_wait_safe [OF good_os_ok _ elAPP, where ch = "demo_chan zero_msg" and env = "echoing elAPP" and key = 1024
        and pMsg = demo_req and pRet = zero_msg and nWaittime = 5 and w = "()"]
    by (auto simp del: env_run.simps split: sum.splits)
qed

lemma sleeps_1 [simp]: "sleeps (Suc 0) W time = W - time"
  by (simp add: sleeps_def)

text \<open>
  C31: if the mailbox is idle after the first sleep and the matching answer arrives within the
  clamped waiting time, \<^verbatim>\<open>SmMsgSendWait\<close> returns 0 with the first such answer: the environment first
  sees the request it was given, in the mailbox.
\<close>

theorem send_wait_gets_answer:
  assumes "os_ok os" and "ch_lock ch = LkFree" and "dest_ok env" and "terminated szSrc"
    and "h_state (fst (env 0 (box ch key, w))) = MSG_IDLE"
    and "sw = (pMsg, snd (env 0 (box ch key, w)))" and "n < unat (clamp_wait nWaittime)"
    and "\<forall>j < n. \<not> matches szSrc pMsg (fst (env_run env 1 (Suc j) sw))"
    and "matches szSrc pMsg (fst (env_run env 1 (Suc n) sw))"
  shows "\<exists>ch'. SmMsgSendWait os env szSrc key pMsg pRet nWaittime ch w =
       Inr (ch', snd (env_run env 1 (Suc n) sw), fst (env_run env 1 (Suc n) sw), 0)
     \<and> box ch' key = (fst (env_run env 1 (Suc n) sw))\<lparr>h_state := MSG_IDLE\<rparr>"
  using send_wait_answered [OF assms(1,2,4), of 1 1 env key w sw pMsg n nWaittime pRet] assms(5-9)
    dest_ok_run [OF assms(3)]
  by (simp add: SmMsgSendWait_def del: env_run.simps)

theorem send_wait_gets_answer_witness:
  "\<exists>ch' ret. SmMsgSendWait good_os (echoing elAPP) elAPP 1024 demo_req zero_msg 5
       (demo_chan (zero_msg\<lparr>h_state := MSG_IDLE\<rparr>)) () = Inr (ch', (), ret, 0) \<and> h_index ret = 7"
proof -
  let ?sw = "(demo_req, ())" and ?ch = "demo_chan (zero_msg\<lparr>h_state := MSG_IDLE\<rparr>)"
  have first: "fst (env_run (echoing elAPP) 1 (Suc 0) ?sw) = demo_req\<lparr>h_state := MSG_ACK, h_szDest := elAPP\<rparr>"
    by (simp add: echoing_def demo_req_def)
  have five: "0 < unat (clamp_wait 5)" by (rule clamp_wait_pos)
  show ?thesis
    using send_wait_gets_answer [of good_os ?ch "echoing elAPP" elAPP 1024 "()" ?sw demo_req 0 5 zero_msg] first five
    by (simp add: good_os_ok dest_ok_echoing elAPP matches_def) (auto simp: echoing_def demo_req_def)
qed

text \<open>
  if the mailbox is never idle while \<^verbatim>\<open>SmMsgSendWait\<close> waits to send, it returns -3 and marks the
  mailbox idle although the message in it is another process's: that pending request or answer
  is lost.
\<close>

theorem send_wait_timeout_discards_pending:
  assumes "os_ok os" and "ch_lock ch = LkFree" and W: "W = unat (clamp_wait nWaittime)"
    and busy: "\<forall>j < W. h_state (fst (env_run env 0 (Suc j) (box ch key, w))) \<noteq> MSG_IDLE"
  shows "\<exists>ch'. SmMsgSendWait os env szSrc key pMsg pRet nWaittime ch w =
       Inr (ch', snd (env_run env 0 W (box ch key, w)), pRet, - 3)
     \<and> box ch' key = (fst (env_run env 0 W (box ch key, w)))\<lparr>h_state := MSG_IDLE\<rparr>"
proof -
  obtain t where "send_poll env 1 W pMsg 0 0 (box ch key, w) = (t, W, env_run env 0 W (box ch key, w))" "W \<le> t"
    using send_poll_timeout [of 1 W 0 env 0 "(box ch key, w)" pMsg] busy by auto
  then show ?thesis
    using send_wait_closed [OF assms(1,2), of 1 1 env szSrc key pMsg pRet nWaittime w] W
    by (cases "env_run env 0 W (box ch key, w)") (simp add: SmMsgSendWait_def)
qed

lemma env_run_quiet [simp]: "env_run quiet k n sw = sw"
  by (induction n arbitrary: k) (simp_all add: quiet_def)

theorem send_wait_timeout_discards_pending_witness:
  "\<exists>ch'. SmMsgSendWait good_os quiet elAPP 1024 zero_msg zero_msg 2 (demo_chan demo_req) () = Inr (ch', (), zero_msg, - 3)
     \<and> box ch' 1024 = demo_req\<lparr>h_state := MSG_IDLE\<rparr>"
proof -
  have "\<forall>j < unat (clamp_wait 2). h_state (fst (env_run quiet 0 (Suc j) (box (demo_chan demo_req) 1024, ()))) \<noteq> MSG_IDLE"
    by (simp only: env_run_quiet demo_chan) (simp add: demo_req_def)
  from send_wait_timeout_discards_pending [OF good_os_ok _ refl this] show ?thesis by simp
qed

text \<open>An environment that also counts the sleeps.\<close>

definition counting :: "'w tick_env \<Rightarrow> ('w \<times> nat) tick_env" where
  "counting env = (\<lambda>k (seg, w, n). let (seg', w') = env k (seg, w) in (seg', w', Suc n))"

lemma counting_run: "snd (snd (env_run (counting env) k n sw)) = snd (snd sw) + n"
  by (induction n arbitrary: k sw) (auto simp: counting_def case_prod_beta Let_def)

lemma dest_ok_counting: "dest_ok env \<Longrightarrow> dest_ok (counting env)"
  by (simp add: dest_ok_def counting_def case_prod_beta Let_def)

text \<open>
  C32: \<^verbatim>\<open>SmMsgSendWait\<close> sleeps at most once more than its waiting time in seconds, which is clamped
  to 30: at most 31 sleeps, however the time is split between sending and waiting for the
  answer, and whatever the caller asks for.
\<close>

theorem send_wait_sleeps_bounded:
  assumes "os_ok os" and "ch_lock ch = LkFree" and "dest_ok env" and "terminated szSrc"
  shows "\<exists>ch' w' n ret r. SmMsgSendWait os (counting env) szSrc key pMsg pRet nWaittime ch (w, 0) = Inr (ch', (w', n), ret, r)
     \<and> n \<le> unat (clamp_wait nWaittime) + 1 \<and> n \<le> 31"
proof -
  let ?W = "unat (clamp_wait nWaittime)" and ?e = "counting env" and ?sw = "(box ch key, (w, 0 :: nat))"
  have e: "dest_ok ?e" using assms(3) by (rule dest_ok_counting)
  note closed = send_wait_closed [OF assms(1,2), of 1 1 ?e szSrc key pMsg pRet nWaittime "(w, 0)"]
  have "\<exists>ch' w' n ret r. SmMsgSendWait os ?e szSrc key pMsg pRet nWaittime ch (w, 0) = Inr (ch', (w', n), ret, r) \<and> n \<le> ?W + 1"
  proof (rule send_poll_cases [of 1 ?W ?e ?sw pMsg])
    fix t assume p: "send_poll ?e 1 ?W pMsg 0 0 ?sw = (t, sleeps 1 ?W 0, env_run ?e 0 (sleeps 1 ?W 0) ?sw)" "?W \<le> t"
    obtain seg w' n where r: "env_run ?e 0 (sleeps 1 ?W 0) ?sw = (seg, w', n)" by (metis prod.exhaust)
    then have "n = ?W" using counting_run [of env 0 "sleeps 1 ?W 0" ?sw] by simp
    then show ?thesis using closed p r by (simp add: SmMsgSendWait_def)
  next
    fix n assume n: "send_poll ?e 1 ?W pMsg 0 0 ?sw = (n * 1, Suc n, pMsg, snd (env_run ?e 0 (Suc n) ?sw))" "n * 1 < ?W"
    obtain seg0 w1 n1 where r: "env_run ?e 0 (Suc n) ?sw = (seg0, w1, n1)" by (metis prod.exhaust)
    then have n1: "n1 = Suc n" using counting_run [of env 0 "Suc n" ?sw] by simp
    have c: "SmMsgSendWait os ?e szSrc key pMsg pRet nWaittime ch (w, 0) =
        bindR (recv_poll ?e 1 ?W szSrc pMsg (Suc n) n (pMsg, w1, n1))
          (\<lambda>(r, k, seg, w2). Inr (put_box ch key (seg\<lparr>h_state := MSG_IDLE\<rparr>), w2,
                case r of Some ret \<Rightarrow> ret | None \<Rightarrow> pRet, case r of Some _ \<Rightarrow> 0 | None \<Rightarrow> - 4))"
      using closed n r by (simp add: SmMsgSendWait_def del: env_run.simps)
    show ?thesis
    proof (rule recv_poll_cases [OF e assms(4) zero_less_one, of ?W pMsg "Suc n" n "(pMsg, w1, n1)"])
      fix k seg w2
      assume a: "recv_poll ?e 1 ?W szSrc pMsg (Suc n) n (pMsg, w1, n1) = Inr (Some seg, Suc n + Suc k, seg\<lparr>h_state := MSG_IDLE\<rparr>, w2)"
        and k: "k < sleeps 1 ?W n" and run: "env_run ?e (Suc n) (Suc k) (pMsg, w1, n1) = (seg, w2)"
      have "snd w2 = n1 + Suc k" using counting_run [of env "Suc n" "Suc k" "(pMsg, w1, n1)"] run by simp
      then show ?thesis using c a k n1 by (cases w2) simp
    next
      fix seg w2
      assume a: "recv_poll ?e 1 ?W szSrc pMsg (Suc n) n (pMsg, w1, n1) = Inr (None, Suc n + sleeps 1 ?W n, seg, w2)"
        and run: "env_run ?e (Suc n) (sleeps 1 ?W n) (pMsg, w1, n1) = (seg, w2)"
      have "snd w2 = n1 + sleeps 1 ?W n" using counting_run [of env "Suc n" "sleeps 1 ?W n" "(pMsg, w1, n1)"] run by simp
      then show ?thesis using c a n1 n(2) by (cases w2) simp
    qed
  qed simp
  then show ?thesis using clamp_wait_le [of nWaittime] by fastforce
qed

theorem send_wait_sleeps_bounded_witness:
  "\<exists>ch' w' n ret r. SmMsgSendWait good_os (counting (echoing elAPP)) elAPP 1024 demo_req zero_msg 180 (demo_chan zero_msg) ((), 0)
       = Inr (ch', (w', n), ret, r) \<and> n \<le> unat (clamp_wait 180) + 1 \<and> n \<le> 31"
  by (rule send_wait_sleeps_bounded) (simp_all add: good_os_ok dest_ok_echoing elAPP)

text \<open>
  C33: \<^verbatim>\<open>SmMsgRecv\<close> takes a request exactly once: it returns 0 with the whole message when the
  mailbox holds a request addressed to this name, and then marks the mailbox idle, so that a
  second call returns -3; otherwise (-3 for no request, -4 for another addressee) mailbox and
  buffer are as before.
\<close>

theorem recv_takes_request_once:
  assumes "os_ok os" and "terminated szName" and "terminated (h_szDest (box ch key))"
  shows "\<exists>ch' msg r. SmMsgRecv os szName key pMsg ch = Inr (ch', msg, r)
     \<and> (if h_state (box ch key) = MSG_REQ \<and> ccont (h_szDest (box ch key)) = ccont szName
        then r = 0 \<and> msg = box ch key \<and> box ch' key = (box ch key)\<lparr>h_state := MSG_IDLE\<rparr>
          \<and> (\<exists>ch''. SmMsgRecv os szName key pMsg' ch' = Inr (ch'', pMsg', - 3) \<and> box ch'' key = box ch' key)
        else r = (if h_state (box ch key) = MSG_REQ then - 4 else - 3) \<and> msg = pMsg \<and> box ch' key = box ch key)"
proof -
  let ?seg = "(box ch key)\<lparr>h_state := MSG_IDLE\<rparr>"
  have "SmMsgRecv os szName key pMsg' (put_box ch key ?seg) = Inr (put_box ch key ?seg, pMsg', - 3)"
    using SmMsgRecv_closed [OF assms(1,2), of "put_box ch key ?seg" key pMsg'] assms(3) by (simp add: Let_def)
  then show ?thesis
    using SmMsgRecv_closed [OF assms, of pMsg] by (auto simp: Let_def)
qed

theorem recv_takes_request_once_witness:
  "\<exists>ch' msg r. SmMsgRecv good_os elAPP 1024 zero_msg (demo_chan (demo_req\<lparr>h_szDest := elAPP\<rparr>)) = Inr (ch', msg, r)
     \<and> r = 0 \<and> msg = demo_req\<lparr>h_szDest := elAPP\<rparr>"
  using recv_takes_request_once [of good_os elAPP "demo_chan (demo_req\<lparr>h_szDest := elAPP\<rparr>)" 1024 zero_msg zero_msg]
  by (auto simp: good_os_ok elAPP demo_req_def)

text \<open>
  an answer is delivered only into an idle mailbox.  \<^verbatim>\<open>SmMsgRecv\<close> has freed the mailbox, so a
  third process can put its own request there first; \<^verbatim>\<open>SmMsgSendEcho\<close> then returns -3, the answer
  is dropped, and the request that took the place is untouched.
\<close>

theorem echo_lost_when_mailbox_taken:
  assumes "os_ok os" and "ch_lock ch = LkFree"
  shows "\<exists>ch'. SmMsgSendEcho os key ack ch = Inr (ch', if h_state (box ch key) = MSG_IDLE then 0 else - 3)
     \<and> box ch' key = (if h_state (box ch key) = MSG_IDLE then ack else box ch key) \<and> ch_lock ch' = LkFree"
  using SmMsgSendEcho_closed [OF assms, of key ack] assms(2) by auto

theorem echo_lost_when_mailbox_taken_witness:
  "\<exists>ch'. SmMsgSendEcho good_os 1024 (demo_req\<lparr>h_state := MSG_ACK\<rparr>) (demo_chan demo_req) = Inr (ch', - 3)
     \<and> box ch' 1024 = demo_req"
  using echo_lost_when_mailbox_taken [OF good_os_ok, of "demo_chan demo_req" 1024 "demo_req\<lparr>h_state := MSG_ACK\<rparr>"]
  by (auto simp: demo_req_def)

text \<open>
  a failing \<^verbatim>\<open>shmget\<close> is reported by the three message functions as -1, but makes
  \<^verbatim>\<open>SmMsgInit\<close> write through \<^verbatim>\<open>(void *) -1\<close>: it keeps the -1 in an unsigned variable, whose test
  \<^verbatim>\<open>shmId >= 0\<close> is always true, and compares the pointer with \<^verbatim>\<open>NULL\<close>.
\<close>

theorem init_faults_without_segment:
  assumes "\<not> shmget_ok os" and "ch_lock ch = LkFree"
  shows "SmMsgInit os key ch = Inl OutOfBounds
     \<and> SmMsgSendWait os env szSrc key pMsg pRet nWaittime ch w = Inr (ch, w, pRet, - 1)
     \<and> SmMsgRecv os szName key pMsg ch = Inr (ch, pMsg, - 1)
     \<and> SmMsgSendEcho os key pMsg ch = Inr (ch, - 1)"
  using assms
  by (simp add: SmMsgInit_def SmMsgSendWait_def send_wait_def SmMsgRecv_def SmMsgSendEcho_def
      SmGetMsgQue_def shmat_def seg_get_def SmMutexLock_def SmMutexUnlock_def Let_def)

theorem init_faults_without_segment_witness:
  "SmMsgInit (good_os\<lparr>shmget_ok := False\<rparr>) 1024 (demo_chan demo_req) = Inl OutOfBounds"
  by (rule init_faults_without_segment [THEN conjunct1]) simp_all

end
