(* ===== verification/RhServer.thy ===== *)
theory RhServer
  imports RhDbase MsgProtocol MemStore
begin

text \<open>
  What the data server does with a request: the shape of the messages both sides build, the
  answers of the two handlers on every branch, and one iteration of the server thread.
\<close>

section \<open>Message fields\<close>

lemma set_srce_Inr: "set_srce s m = Inr m' \<Longrightarrow>
    h_state m' = h_state m \<and> h_sync m' = h_sync m \<and> h_index m' = h_index m \<and> h_szDest m' = h_szDest m
      \<and> m_body m' = m_body m \<and> (wf_msg m \<longrightarrow> wf_msg m') \<and> terminated (h_szSrce m') \<and> ccont (h_szSrce m') = ccont s
      \<and> length (h_szSrce m') = length (h_szSrce m)"
  by (auto simp: set_srce_def bindR_eq_Inr strcpy_length wf_msg_def dest: strcpy_terminated)

lemma set_dest_Inr: "set_dest s m = Inr m' \<Longrightarrow>
    h_state m' = h_state m \<and> h_sync m' = h_sync m \<and> h_index m' = h_index m \<and> h_szSrce m' = h_szSrce m
      \<and> m_body m' = m_body m \<and> (wf_msg m \<longrightarrow> wf_msg m') \<and> terminated (h_szDest m') \<and> ccont (h_szDest m') = ccont s
      \<and> length (h_szDest m') = length (h_szDest m)"
  by (auto simp: set_dest_def bindR_eq_Inr strcpy_length wf_msg_def dest: strcpy_terminated)

lemma set_srce_fits:
  "terminated s \<Longrightarrow> length (ccont s) < length (h_szSrce m) \<Longrightarrow> \<exists>m'. set_srce s m = Inr m'"
  using strcpy_fits [of s "h_szSrce m"] by (auto simp: set_srce_def)

lemma set_dest_fits:
  "terminated s \<Longrightarrow> length (ccont s) < length (h_szDest m) \<Longrightarrow> \<exists>m'. set_dest s m = Inr m'"
  using strcpy_fits [of s "h_szDest m"] by (auto simp: set_dest_def)

lemma app_names:
  "terminated RH_APP_NAME" "terminated EL_APP_NAME" "ccont RH_APP_NAME = [114, 104, 65, 112, 112]"
  "ccont EL_APP_NAME = [101, 108, 65, 80, 80]"
  by (simp_all add: RH_APP_NAME_def EL_APP_NAME_def cstr_def terminated_def ccont_def)

lemma ccont_shorter: "terminated s \<Longrightarrow> length (ccont s) < length s"
  using terminated_split [of s] by (metis length_append length_Cons add_Suc_right less_add_Suc1)

section \<open>Answers\<close>

text \<open>What an answer has in common with the request it answers.\<close>

definition answers :: "RH_MSG_BUFFER_T \<Rightarrow> RH_MSG_BUFFER_T \<Rightarrow> bool" where
  "answers req ack \<longleftrightarrow> h_state ack = MSG_ACK \<and> h_sync ack = h_sync req \<and> h_index ack = h_index req
     \<and> terminated (h_szDest ack) \<and> ccont (h_szDest ack) = ccont (h_szSrce req) \<and> tag_iop ack = tag_iop req
     \<and> wf_msg ack"

lemma wf_head_zero: "wf_msg (zero_msg\<lparr>h_state := a, h_sync := b, h_index := c\<rparr>)"
  by simp

lemma add_OCTET_STRING_length:
  "xdr_add_OCTET_STRING buf p d n = Inr (b, k) \<Longrightarrow> length b = length buf"
  by (auto simp: xdr_add_OCTET_STRING_def bindR_eq_Inr xdr_len.add_length dest!: memcpy_length)

lemma sint_of_int: "- 2147483648 \<le> e \<Longrightarrow> e < 2147483648 \<Longrightarrow> sint (word_of_int e :: u32) = e"
  by (simp add: signed_of_int signed_take_bit_int_eq_self)

text \<open>The fields of a message that the later assignments of a builder do not touch.\<close>

lemma union_reads [simp]:
  assumes "wf_msg m"
  shows "tag_iop (set_iop v m) = v" "tag_iop (set_iid i m) = tag_iop m" "tag_iid (set_iid i m) = i"
    "tag_iid (set_iop v m) = tag_iid m"
    "wf_msg (set_iop v m)" "wf_msg (set_iid i m)" "wf_msg (set_errNo e m)" "wf_msg (set_nSize n m)"
    "tag_iop (set_errNo e m) = tag_iop m" "tag_iop (set_nSize n m) = tag_iop m"
    "tag_iid (set_errNo e m) = tag_iid m" "tag_iid (set_nSize n m) = tag_iid m"
    "nSize_of (set_nSize n m) = n" "ack_errNo (set_nSize n m) = ack_errNo m"
    "ack_pValue (set_nSize n m) = ack_pValue m" "msg_pValue (set_nSize n m) = msg_pValue m"
    "ack_pValue (set_errNo e m) = ack_pValue m"
    "- 2147483648 \<le> e \<Longrightarrow> e < 2147483648 \<Longrightarrow> ack_errNo (set_errNo e m) = e"
  using assms by (simp_all add: member_defs sint_of_int)

lemma union_payload [simp]:
  assumes "wf_msg m" and "length b = 2048"
  shows "tag_iop (set_ack_pValue b m) = tag_iop m" "ack_errNo (set_ack_pValue b m) = ack_errNo m"
    "ack_pValue (set_ack_pValue b m) = b" "wf_msg (set_ack_pValue b m)" "nSize_of (set_ack_pValue b m) = nSize_of m"
    "tag_iop (set_msg_pValue b m) = tag_iop m" "msg_pValue (set_msg_pValue b m) = b" "wf_msg (set_msg_pValue b m)"
    "tag_iid (set_msg_pValue b m) = tag_iid m"
  using assms by (simp_all add: member_defs)

lemma head_members [simp]:
  "h_state (set_iop v m) = h_state m" "h_state (set_iid v m) = h_state m" "h_state (set_errNo e m) = h_state m"
  "h_state (set_nSize n m) = h_state m" "h_state (set_ack_pValue b m) = h_state m" "h_state (set_msg_pValue b m) = h_state m"
  "h_sync (set_iop v m) = h_sync m" "h_sync (set_iid v m) = h_sync m" "h_sync (set_errNo e m) = h_sync m"
  "h_sync (set_nSize n m) = h_sync m" "h_sync (set_ack_pValue b m) = h_sync m" "h_sync (set_msg_pValue b m) = h_sync m"
  "h_index (set_iop v m) = h_index m" "h_index (set_iid v m) = h_index m" "h_index (set_errNo e m) = h_index m"
  "h_index (set_nSize n m) = h_index m" "h_index (set_ack_pValue b m) = h_index m" "h_index (set_msg_pValue b m) = h_index m"
  "h_szSrce (set_iop v m) = h_szSrce m" "h_szSrce (set_iid v m) = h_szSrce m" "h_szSrce (set_errNo e m) = h_szSrce m"
  "h_szSrce (set_nSize n m) = h_szSrce m" "h_szSrce (set_ack_pValue b m) = h_szSrce m" "h_szSrce (set_msg_pValue b m) = h_szSrce m"
  "h_szDest (set_iop v m) = h_szDest m" "h_szDest (set_iid v m) = h_szDest m" "h_szDest (set_errNo e m) = h_szDest m"
  "h_szDest (set_nSize n m) = h_szDest m" "h_szDest (set_ack_pValue b m) = h_szDest m" "h_szDest (set_msg_pValue b m) = h_szDest m"
  by (simp_all add: member_defs)

lemma echo_msg_answers:
  assumes "echo_msg_rh e req buf len = Inr ack"
  shows "answers req ack"
proof -
  let ?m0 = "zero_msg\<lparr>h_state := MSG_ACK, h_sync := h_sync req, h_index := h_index req\<rparr>"
  from assms obtain m1 m2 b n where 1: "set_srce RH_APP_NAME ?m0 = Inr m1" and 2: "set_dest (h_szSrce req) m1 = Inr m2"
    and 3: "xdr_add_OCTET_STRING (ack_pValue (set_errNo e (set_iop (tag_iop req) (set_iid IID_EL m2)))) 0 buf (word_of_int len) = Inr (b, n)"
    and ack: "ack = set_nSize (word_of_int n) (set_ack_pValue b (set_errNo e (set_iop (tag_iop req) (set_iid IID_EL m2))))"
    by (auto simp: echo_msg_rh_def bindR_eq_Inr Let_def)
  note s = set_srce_Inr [OF 1] and d = set_dest_Inr [OF 2]
  have w2: "wf_msg m2" using s d by simp
  have len: "length b = 2048" using add_OCTET_STRING_length [OF 3] w2 by simp
  show ?thesis
    using w2 len s d by (simp add: answers_def ack)
qed

lemma unat_of_int_nat: "n < 2 ^ 32 \<Longrightarrow> unat (word_of_int (int n) :: u32) = n"
  using unat_of_nat32 [of n] by simp

lemma length_enc_le5: "length (enc_variantlen w) \<le> 5"
  using length_enc_variantlen [of w] by auto

text \<open>The answer to a request with a terminated source name that carries \<open>n\<close> bytes of \<open>buf\<close>.\<close>

lemma echo_msg_ok:
  assumes "wf_msg req" and "terminated (h_szSrce req)" and n: "n \<le> length buf" "n \<le> 2000"
    and e: "- 2147483648 \<le> e" "e < 2147483648"
  shows "\<exists>ack. echo_msg_rh e req buf (int n) = Inr ack \<and> answers req ack \<and> ack_errNo ack = e
     \<and> nSize_of ack = of_nat (length (enc_variantlen (of_nat n)) + n)
     \<and> (\<forall>out cap. n \<le> length out \<longrightarrow> xdr_get_OCTET_STRING (ack_pValue ack) 0 out cap =
          (if of_nat n \<le> cap then Inr (patch out 0 (take n buf), of_nat n, int (length (enc_variantlen (of_nat n))) + int n)
           else Inr (out, 0, - 1)))"
proof -
  let ?m0 = "zero_msg\<lparr>h_state := MSG_ACK, h_sync := h_sync req, h_index := h_index req\<rparr>"
  obtain m1 where 1: "set_srce RH_APP_NAME ?m0 = Inr m1"
    using set_srce_fits [OF app_names(1), of ?m0] by (auto simp: app_names zero_msg_def)
  note s = set_srce_Inr [OF 1]
  have "length (ccont (h_szSrce req)) < length (h_szDest m1)"
    using ccont_shorter [OF assms(2)] assms(1) s by (simp add: wf_msg_def zero_msg_def)
  then obtain m2 where 2: "set_dest (h_szSrce req) m1 = Inr m2" using set_dest_fits assms(2) by blast
  let ?m = "set_errNo e (set_iop (tag_iop req) (set_iid IID_EL m2))"
  have w: "wf_msg m2" using s set_dest_Inr [OF 2] by simp
  have un: "unat (of_nat n :: u32) = n" using n(2) by (intro unat_of_nat32) simp
  have ui: "uint (of_nat n :: u32) = int n" using un by (metis uint_nat)
  have len: "length (ack_pValue ?m) = 2048" using w by simp
  let ?enc = "enc_variantlen (of_nat n)"
  let ?b = "patch (ack_pValue ?m) 0 (?enc @ take n buf)"
  have add: "xdr_add_OCTET_STRING (ack_pValue ?m) 0 buf (word_of_int (int n)) = Inr (?b, int (length ?enc) + int n)"
    using n length_enc_le5 [of "of_nat n"] len un ui by (simp add: add_OCTET_STRING_closed)
  have lb: "length ?b = 2048" using n length_enc_le5 [of "of_nat n"] len by simp
  let ?ack = "set_nSize (word_of_int (int (length ?enc) + int n)) (set_ack_pValue ?b ?m)"
  have echo: "echo_msg_rh e req buf (int n) = Inr ?ack"
    using 1 2 add by (simp add: echo_msg_rh_def Let_def)
  moreover have "ack_errNo ?ack = e" using w lb e by simp
  moreover have "nSize_of ?ack = of_nat (length ?enc + n)" using w lb by simp
  moreover have "ack_pValue ?ack = ?b" using w lb by simp
  ultimately show ?thesis
    using get_add_OCTET_STRING [OF add] un ui echo_msg_answers [OF echo] by auto
qed

text \<open>More bytes than the buffer has are read from behind it.\<close>

lemma echo_msg_overrun:
  assumes "wf_msg req" and "terminated (h_szSrce req)" and "length buf < unat (word_of_int len :: u32)"
  shows "echo_msg_rh e req buf len = Inl OutOfBounds"
proof -
  let ?m0 = "zero_msg\<lparr>h_state := MSG_ACK, h_sync := h_sync req, h_index := h_index req\<rparr>"
  obtain m1 where 1: "set_srce RH_APP_NAME ?m0 = Inr m1"
    using set_srce_fits [OF app_names(1), of ?m0] by (auto simp: app_names zero_msg_def)
  have "length (ccont (h_szSrce req)) < length (h_szDest m1)"
    using ccont_shorter [OF assms(2)] assms(1) set_srce_Inr [OF 1] by (simp add: wf_msg_def zero_msg_def)
  then obtain m2 where 2: "set_dest (h_szSrce req) m1 = Inr m2" using set_dest_fits assms(2) by blast
  show ?thesis
    using 1 2 add_OCTET_STRING_short [OF assms(3)] by (simp add: echo_msg_rh_def Let_def)
qed

lemma minus_one_u32: "unat (- 1 :: u32) = 4294967295"
  by (simp add: unsigned_minus_1_eq_mask mask_eq_exp_minus_1)

section \<open>Requests\<close>

lemma get_pn_id_total:
  assumes "length pv = 2048"
  shows "\<exists>nPn di. get_pn_id pv = Inr (nPn, di, 6)"
  using assms by (simp add: get_pn_id_def xdr_get_uint16_def xdr_get_uint32_def)

definition req_key :: "RH_MSG_BUFFER_T \<Rightarrow> u16 \<times> u32" where
  "req_key m = (case get_pn_id (msg_pValue m) of Inl _ \<Rightarrow> (0, 0) | Inr (nPn, di, _) \<Rightarrow> (nPn, di))"

lemma req_key: "wf_msg m \<Longrightarrow> get_pn_id (msg_pValue m) = Inr (fst (req_key m), snd (req_key m), 6)"
  using get_pn_id_total [of "msg_pValue m"] by (auto simp: req_key_def)

text \<open>Delivering an answer: the mailbox takes it if it is idle.\<close>

definition delivered :: "RH_MSG_BUFFER_T \<Rightarrow> chan \<Rightarrow> chan" where
  "delivered ack ch = put_box ch EL_KEY_ID (if h_state (box ch EL_KEY_ID) = MSG_IDLE then ack else box ch EL_KEY_ID)"

lemma el_msg_echo_rh_closed:
  assumes "os_ok os" and "ch_lock (dp_chan p) = LkFree"
  shows "el_msg_echo_rh os e req buf len p =
     bindR (echo_msg_rh e req buf len) (\<lambda>ack. Inr (p\<lparr>dp_chan := delivered ack (dp_chan p)\<rparr>))"
  using SmMsgSendEcho_closed [OF assms]
  by (cases "echo_msg_rh e req buf len") (simp_all add: el_msg_echo_rh_def delivered_def)

text \<open>A process ready to serve, and a message it can answer.\<close>

definition ready :: "os_env \<Rightarrow> rh_proc \<Rightarrow> bool" where
  "ready os p \<longleftrightarrow> os_ok os \<and> ch_lock (dp_chan p) = LkFree \<and> valid_mem (dp_mem p)"

definition askable :: "RH_MSG_BUFFER_T \<Rightarrow> bool" where
  "askable m \<longleftrightarrow> wf_msg m \<and> terminated (h_szSrce m) \<and> terminated (h_szDest m)"

section \<open>The handlers\<close>

lemma read_mem_data_known:
  assumes r: "ready os p" and m: "askable req" and f: "oop_field (dp_mem p) (req_key req) = Some (a, n)"
    and n: "n \<le> 128"
  shows "\<exists>ack. read_mem_data os req p = Inr (p\<lparr>dp_chan := delivered ack (dp_chan p)\<rparr>, 0) \<and> answers req ack
     \<and> ack_errNo ack = (if 0 < n then 0 else 1)
     \<and> nSize_of ack = of_nat (length (enc_variantlen (of_nat n)) + n)
     \<and> (\<forall>out cap. n \<le> length out \<longrightarrow> xdr_get_OCTET_STRING (ack_pValue ack) 0 out cap =
          (if of_nat n \<le> cap
           then Inr (patch out 0 (take n (drop a (mem_cells (dp_mem p)))), of_nat n, int (length (enc_variantlen (of_nat n))) + int n)
           else Inr (out, 0, - 1)))"
proof -
  obtain nPn di where key: "req_key req = (nPn, di)" by (cases "req_key req")
  let ?w = "take n (drop a (mem_cells (dp_mem p)))"
  let ?buf = "patch (replicate 128 0) 0 ?w"
  have v: "valid_mem (dp_mem p)" using r by (simp add: ready_def)
  have "a + n \<le> length (mem_cells (dp_mem p))" using oop.in_cells v f by blast
  then have w: "length ?w = n" by simp
  have read: "rh_mem_data_read_oop (dp_mem p) nPn di (replicate 128 0) 128 = Inr (dp_mem p, ?buf, int n)"
    using oop.read_known [OF v f, of "replicate 128 0" 128] n by (simp add: key read_key_def)
  have buf: "take n ?buf = ?w" "length ?buf = 128" using w n by (simp_all add: patch_def)
  have req: "wf_msg req" "terminated (h_szSrce req)" using m by (simp_all add: askable_def)
  have e: "- 2147483648 \<le> (if 0 < n then 0 else 1 :: int)" "(if 0 < n then 0 else 1 :: int) < 2147483648" by auto
  have nb: "n \<le> length ?buf" "n \<le> 2000" using n buf(2) by simp_all
  obtain ack where ack: "echo_msg_rh (if 0 < n then 0 else 1) req ?buf (int n) = Inr ack" "answers req ack"
      "ack_errNo ack = (if 0 < n then 0 else 1)"
      "nSize_of ack = of_nat (length (enc_variantlen (of_nat n)) + n)"
    and get: "\<forall>out cap. n \<le> length out \<longrightarrow> xdr_get_OCTET_STRING (ack_pValue ack) 0 out cap =
          (if of_nat n \<le> cap
           then Inr (patch out 0 (take n ?buf), of_nat n, int (length (enc_variantlen (of_nat n))) + int n)
           else Inr (out, 0, - 1))"
    using echo_msg_ok [OF req nb e] by blast
  have os: "os_ok os" "ch_lock (dp_chan p) = LkFree" using r by (simp_all add: ready_def)
  have same: "p\<lparr>dp_mem := dp_mem p\<rparr> = p" by simp
  have "read_mem_data os req p = Inr (p\<lparr>dp_chan := delivered ack (dp_chan p)\<rparr>, 0)"
    using m ack(1) req_key [of req]
    by (simp add: read_mem_data_def askable_def key read el_msg_echo_rh_closed [OF os] Let_def)
  with ack get buf show ?thesis by auto
qed

lemma read_mem_data_crash:
  assumes r: "ready os p" and m: "askable req"
    and f: "case oop_field (dp_mem p) (req_key req) of None \<Rightarrow> True | Some (a, n) \<Rightarrow> 128 < n \<and> n < 2 ^ 31"
  shows "read_mem_data os req p = Inl OutOfBounds"
proof -
  obtain nPn di where key: "req_key req = (nPn, di)" by (cases "req_key req")
  have v: "valid_mem (dp_mem p)" using r by (simp add: ready_def)
  have os: "os_ok os" "ch_lock (dp_chan p) = LkFree" using r by (simp_all add: ready_def)
  have w: "wf_msg req" "terminated (h_szSrce req)" using m by (simp_all add: askable_def)
  obtain buf len where read: "rh_mem_data_read_oop (dp_mem p) nPn di (replicate 128 0) 128 = Inr (dp_mem p, buf, len)"
    and "length buf = 128" and "128 < unat (word_of_int len :: u32)"
  proof (cases "oop_field (dp_mem p) (nPn, di)")
    case None
    then show ?thesis
      using that [of "replicate 128 0" "- 1"] oop.read_unknown [OF v None, of "replicate 128 0" 128]
      by (simp add: read_key_def minus_one_u32)
  next
    case (Some f')
    obtain a n where fn: "f' = (a, n)" by (cases f')
    with Some f key have n: "128 < n" "n < 2 ^ 31" by simp_all
    have cells: "a + n \<le> length (mem_cells (dp_mem p))" using oop.in_cells v Some fn by blast
    let ?buf = "patch (replicate 128 0) 0 (take (min n 128) (drop a (mem_cells (dp_mem p))))"
    have "rh_mem_data_read_oop (dp_mem p) nPn di (replicate 128 0) 128 = Inr (dp_mem p, ?buf, int n)"
      using read_oop_closed_field [OF v, of nPn di "replicate 128 0"] Some fn by simp
    moreover have "length ?buf = 128" using n cells by (simp add: patch_def)
    moreover have "128 < unat (word_of_int (int n) :: u32)" using n unat_of_int_nat [of n] by simp
    ultimately show ?thesis using that by blast
  qed
  then have "echo_msg_rh e req buf len = Inl OutOfBounds" for e
    using echo_msg_overrun [OF w] by simp
  then show ?thesis
    using read req_key [OF w(1)] key by (simp add: read_mem_data_def el_msg_echo_rh_closed [OF os] Let_def)
qed

lemma get_OCTET_STRING_bounds:
  assumes "xdr_get_OCTET_STRING buf p out cap = Inr (d, c, k)"
  shows "c \<le> cap \<and> length d = length out"
  using assms
  by (auto simp: xdr_get_OCTET_STRING_def bindR_eq_Inr memcpy_length not_less split: if_splits prod.splits)

lemma write_mem_data_known:
  assumes r: "ready os p" and m: "askable req" and f: "oop_field (dp_mem p) (req_key req) = Some (a, n)"
    and d: "xdr_get_OCTET_STRING (msg_pValue req) 6 (replicate 128 0) 128 = Inr (buf, c, k)"
    and room: "a + unat c \<le> length (mem_cells (dp_mem p))"
  shows "\<exists>ack mem'. write_mem_data os req p = Inr (p\<lparr>dp_mem := mem', dp_chan := delivered ack (dp_chan p)\<rparr>, 0)
     \<and> answers req ack \<and> ack_errNo ack = 1 \<and> valid_mem mem' \<and> oop_field mem' = oop_field (dp_mem p)
     \<and> mem_cells mem' = patch (mem_cells (dp_mem p)) a (take (unat c) buf)"
proof -
  obtain nPn di where key: "req_key req = (nPn, di)" by (cases "req_key req")
  have v: "valid_mem (dp_mem p)" using r by (simp add: ready_def)
  have os: "os_ok os" "ch_lock (dp_chan p) = LkFree" using r by (simp_all add: ready_def)
  have req: "wf_msg req" "terminated (h_szSrce req)" using m by (simp_all add: askable_def)
  have c: "unat c \<le> 128" and buf: "length buf = 128"
    using get_OCTET_STRING_bounds [OF d] by (simp_all add: word_le_nat_alt)
  have sc: "sint c = int (unat c)"
  proof -
    have u: "uint c = int (unat c)" by (rule uint_nat)
    have "uint c \<le> 128" using c u by linarith
    then have "sint (word_of_int (uint c) :: u32) = uint c" using u by (intro sint_of_int) linarith+
    then have "sint c = uint c" by (simp only: word_of_int_uint)
    then show ?thesis using u by (rule trans)
  qed
  obtain mem' where w: "rh_mem_data_write_oop (dp_mem p) nPn di buf (int (unat c)) = Inr (mem', 0)"
    and mem': "valid_mem mem'" "oop_field mem' = oop_field (dp_mem p)"
      "mem_cells mem' = patch (mem_cells (dp_mem p)) a (take (unat c) buf)"
    using oop.write_known [OF v f _ room, of buf] c buf by (auto simp: key write_key_def)
  obtain ack where ack: "echo_msg_rh 1 req buf (int 0) = Inr ack" "answers req ack" "ack_errNo ack = 1"
    using echo_msg_ok [OF req, of 0 buf 1] by auto
  have "write_mem_data os req p = Inr (p\<lparr>dp_mem := mem', dp_chan := delivered ack (dp_chan p)\<rparr>, 0)"
    using ack(1) w sc os(2)
    by (simp add: write_mem_data_def req_key [OF req(1)] key d el_msg_echo_rh_closed [OF os(1)] Let_def)
  with ack mem' show ?thesis by blast
qed

lemma write_mem_data_crash:
  assumes r: "ready os p" and m: "askable req" and f: "oop_field (dp_mem p) (req_key req) = None"
    and d: "xdr_get_OCTET_STRING (msg_pValue req) 6 (replicate 128 0) 128 = Inr (buf, c, k)"
  shows "write_mem_data os req p = Inl OutOfBounds"
proof -
  obtain nPn di where key: "req_key req = (nPn, di)" by (cases "req_key req")
  have v: "valid_mem (dp_mem p)" using r by (simp add: ready_def)
  have os: "os_ok os" "ch_lock (dp_chan p) = LkFree" using r by (simp_all add: ready_def)
  have req: "wf_msg req" "terminated (h_szSrce req)" using m by (simp_all add: askable_def)
  have "length buf = 128" using get_OCTET_STRING_bounds [OF d] by simp
  then have "echo_msg_rh 1 req buf (- 1) = Inl OutOfBounds"
    using echo_msg_overrun [OF req, of buf "- 1" 1] by (simp add: minus_one_u32)
  moreover have "rh_mem_data_write_oop (dp_mem p) nPn di buf (sint c) = Inr (dp_mem p, - 1)"
    using oop.write_unknown [OF v f, of buf "sint c"] by (simp add: key write_key_def)
  ultimately show ?thesis
    by (simp add: write_mem_data_def req_key [OF req(1)] key d el_msg_echo_rh_closed [OF os] Let_def)
qed

section \<open>One iteration of the thread\<close>

text \<open>A mailbox with a request for the data server, and the process after taking it.\<close>

definition for_rh :: "RH_MSG_BUFFER_T \<Rightarrow> bool" where
  "for_rh m \<longleftrightarrow> h_state m = MSG_REQ \<and> ccont (h_szDest m) = ccont RH_APP_NAME"

definition freed :: "rh_proc \<Rightarrow> rh_proc" where
  "freed p = p\<lparr>dp_chan := put_box (dp_chan p) EL_KEY_ID ((box (dp_chan p) EL_KEY_ID)\<lparr>h_state := MSG_IDLE\<rparr>)\<rparr>"

lemma ready_freed: "ready os p \<Longrightarrow> ready os (freed p)"
  by (simp add: ready_def freed_def)

lemma delivered_freed [simp]:
  "box (delivered ack (dp_chan (freed p))) EL_KEY_ID = ack" "dp_mem (freed p) = dp_mem p"
  by (simp_all add: freed_def delivered_def)

lemma ucast_iop: "(ucast IOP_DBASE_READ :: u16) = 0x10" "(ucast IOP_DBASE_WRITE :: u16) = 0x11"
  by (simp_all add: IOP_DBASE_READ_def IOP_DBASE_WRITE_def)

lemma server_step:
  assumes r: "ready os p" and m: "askable (box (dp_chan p) EL_KEY_ID)"
  shows "elDbaseProc_rh os p =
     (let req = box (dp_chan p) EL_KEY_ID in
      if \<not> for_rh req then Inr (p\<lparr>dp_chan := put_box (dp_chan p) EL_KEY_ID req\<rparr>)
      else if tag_iop req = 0x10 then bindR (read_mem_data os req (freed p)) (\<lambda>(p, _). Inr p)
      else if tag_iop req = 0x11 then bindR (write_mem_data os req (freed p)) (\<lambda>(p, _). Inr p)
      else Inr (freed p))"
proof -
  have os: "os_ok os" using r by (simp add: ready_def)
  have t: "terminated (h_szDest (box (dp_chan p) EL_KEY_ID))" using m by (simp add: askable_def)
  show ?thesis
    using SmMsgRecv_closed [OF os app_names(1) t, of zero_msg]
    by (auto simp: elDbaseProc_rh_def for_rh_def freed_def Let_def s_dbaseMsgMap_rh_def ucast_iop)
qed

text \<open>The mailbox after an iteration that answered; the iteration left the rest alone.\<close>

definition with_box :: "RH_MSG_BUFFER_T \<Rightarrow> rh_proc \<Rightarrow> rh_proc" where
  "with_box m p = p\<lparr>dp_chan := put_box (dp_chan p) EL_KEY_ID m\<rparr>"

lemma with_box_simps [simp]:
  "box (dp_chan (with_box m p)) EL_KEY_ID = m" "dp_mem (with_box m p) = dp_mem p"
  "with_box m (with_box m' p) = with_box m p" "ready os (with_box m p) = ready os p"
  "with_box m (p\<lparr>dp_mem := mem\<rparr>) = (with_box m p)\<lparr>dp_mem := mem\<rparr>"
  "ch_lock (dp_chan (with_box m p)) = ch_lock (dp_chan p)"
  by (simp_all add: with_box_def ready_def)

lemma delivered_with_box:
  "(freed p)\<lparr>dp_chan := delivered ack (dp_chan (freed p))\<rparr> = with_box ack p"
  "(freed p)\<lparr>dp_mem := mem, dp_chan := delivered ack (dp_chan (freed p))\<rparr> = (with_box ack p)\<lparr>dp_mem := mem\<rparr>"
  by (simp_all add: freed_def delivered_def with_box_def)

lemma server_idle:
  assumes "os_ok os" and "h_state (box (dp_chan p) EL_KEY_ID) \<noteq> MSG_REQ"
  shows "elDbaseProc_rh os p = Inr (with_box (box (dp_chan p) EL_KEY_ID) p)"
  using assms by (simp add: elDbaseProc_rh_def SmMsgRecv_def get_que shmat_ok Let_def with_box_def)

lemma serve_read:
  assumes r: "ready os p" and m: "askable (box (dp_chan p) EL_KEY_ID)" and q: "req = box (dp_chan p) EL_KEY_ID"
    and rd: "for_rh req" "tag_iop req = 0x10"
    and f: "oop_field (dp_mem p) (req_key req) = Some (a, n)" and n: "n \<le> 128"
  shows "\<exists>ack. elDbaseProc_rh os p = Inr (with_box ack p) \<and> answers req ack
     \<and> ack_errNo ack = (if 0 < n then 0 else 1)
     \<and> (\<forall>out cap. n \<le> length out \<longrightarrow> xdr_get_OCTET_STRING (ack_pValue ack) 0 out cap =
          (if of_nat n \<le> cap
           then Inr (patch out 0 (take n (drop a (mem_cells (dp_mem p)))), of_nat n, int (length (enc_variantlen (of_nat n))) + int n)
           else Inr (out, 0, - 1)))"
proof -
  have "ready os (freed p)" "askable req" using ready_freed [OF r] m q by simp_all
  from read_mem_data_known [OF this _ n, of a] f obtain ack where
    "read_mem_data os req (freed p) = Inr ((freed p)\<lparr>dp_chan := delivered ack (dp_chan (freed p))\<rparr>, 0)"
    "answers req ack" "ack_errNo ack = (if 0 < n then 0 else 1)"
    "\<forall>out cap. n \<le> length out \<longrightarrow> xdr_get_OCTET_STRING (ack_pValue ack) 0 out cap =
          (if of_nat n \<le> cap
           then Inr (patch out 0 (take n (drop a (mem_cells (dp_mem p)))), of_nat n, int (length (enc_variantlen (of_nat n))) + int n)
           else Inr (out, 0, - 1))" by auto
  then show ?thesis
    using server_step [OF r m] rd q by (auto simp: delivered_with_box Let_def)
qed

lemma serve_write:
  assumes r: "ready os p" and m: "askable (box (dp_chan p) EL_KEY_ID)" and q: "req = box (dp_chan p) EL_KEY_ID"
    and wr: "for_rh req" "tag_iop req = 0x11"
    and f: "oop_field (dp_mem p) (req_key req) = Some (a, n)"
    and d: "xdr_get_OCTET_STRING (msg_pValue req) 6 (replicate 128 0) 128 = Inr (buf, c, k)"
    and room: "a + unat c \<le> length (mem_cells (dp_mem p))"
  shows "\<exists>ack mem'. elDbaseProc_rh os p = Inr ((with_box ack p)\<lparr>dp_mem := mem'\<rparr>) \<and> answers req ack
     \<and> ack_errNo ack = 1 \<and> valid_mem mem' \<and> oop_field mem' = oop_field (dp_mem p)
     \<and> mem_cells mem' = patch (mem_cells (dp_mem p)) a (take (unat c) buf)"
proof -
  have "ready os (freed p)" "askable req" using ready_freed [OF r] m q by simp_all
  from write_mem_data_known [OF this _ d, of a n] f room obtain ack mem' where
    "write_mem_data os req (freed p) = Inr ((freed p)\<lparr>dp_mem := mem', dp_chan := delivered ack (dp_chan (freed p))\<rparr>, 0)"
    "answers req ack" "ack_errNo ack = 1" "valid_mem mem'" "oop_field mem' = oop_field (dp_mem p)"
    "mem_cells mem' = patch (mem_cells (dp_mem p)) a (take (unat c) buf)" by auto
  then show ?thesis
    using server_step [OF r m] wr q by (auto simp: delivered_with_box Let_def)
qed

end
