(* ===== verification/SourceCopies.thy ===== *)
theory SourceCopies
  imports MsgChannel XmlDom
begin

text \<open>
  Each program has its own copy of the shared sources, compiled into its own process:
  \<^verbatim>\<open>enegy_loss/elCommon.c\<close> (identical to that of \<^verbatim>\<open>code/\<close>), the four byte-identical encoder
  functions at the head of \<^verbatim>\<open>client/elDbase.c\<close> and \<^verbatim>\<open>server/elDbase.c\<close>, and
  \<^verbatim>\<open>rh_msg_channel.c\<close>.  The channel of \<^verbatim>\<open>enegy_loss/\<close> polls every 100 ms and counts
  milliseconds; that of \<^verbatim>\<open>client/\<close> returns \<^verbatim>\<open>TRUE\<close> or \<^verbatim>\<open>FALSE\<close> from \<^verbatim>\<open>SmDestroyMsgQue\<close>;
  everything else is the same text as in \<^verbatim>\<open>code/\<close>.  The suffix names the program: \<open>el\<close> for
  \<^verbatim>\<open>enegy_loss/\<close>, \<open>cl\<close> for \<^verbatim>\<open>client/\<close>, \<open>sv\<close> for \<^verbatim>\<open>server/\<close>.
\<close>

section \<open>enegy\_loss\<close>

definition str2dec_el :: "u8 list \<Rightarrow> int res" where
  "str2dec_el = str2dec"

definition str2hex_el :: "u8 list \<Rightarrow> u8 list \<Rightarrow> nat \<Rightarrow> int \<Rightarrow> (u8 list \<times> int) res" where
  "str2hex_el = str2hex"

definition reversecpy_el :: "u8 list \<Rightarrow> u8 list \<Rightarrow> int \<Rightarrow> u8 list res" where
  "reversecpy_el = reversecpy"

definition smallcpy_el :: "u8 list \<Rightarrow> int \<Rightarrow> u8 list \<Rightarrow> int \<Rightarrow> int \<Rightarrow> u8 list res" where
  "smallcpy_el = smallcpy"

definition get_cfg_num_el :: "xmlNode option \<Rightarrow> int res" where
  "get_cfg_num_el = get_cfg_num"

definition xdr_add_uint8_el :: "u8 list \<Rightarrow> nat \<Rightarrow> u8 \<Rightarrow> (u8 list \<times> int) res" where
  "xdr_add_uint8_el = xdr_add_uint8"

definition xdr_get_uint8_el :: "u8 list \<Rightarrow> nat \<Rightarrow> (u8 \<times> int) res" where
  "xdr_get_uint8_el = xdr_get_uint8"

definition xdr_add_uint16_el :: "u8 list \<Rightarrow> nat \<Rightarrow> u16 \<Rightarrow> (u8 list \<times> int) res" where
  "xdr_add_uint16_el = xdr_add_uint16"

definition xdr_get_uint16_el :: "u8 list \<Rightarrow> nat \<Rightarrow> (u16 \<times> int) res" where
  "xdr_get_uint16_el = xdr_get_uint16"

definition xdr_add_uint32_el :: "u8 list \<Rightarrow> nat \<Rightarrow> u32 \<Rightarrow> (u8 list \<times> int) res" where
  "xdr_add_uint32_el = xdr_add_uint32"

definition xdr_get_uint32_el :: "u8 list \<Rightarrow> nat \<Rightarrow> (u32 \<times> int) res" where
  "xdr_get_uint32_el = xdr_get_uint32"

definition xdr_add_variantlen_el :: "u8 list \<Rightarrow> nat \<Rightarrow> u32 \<Rightarrow> (u8 list \<times> int) res" where
  "xdr_add_variantlen_el = xdr_add_variantlen"

definition xdr_get_variantlen_el :: "u8 list \<Rightarrow> nat \<Rightarrow> (u32 \<times> int) res" where
  "xdr_get_variantlen_el = xdr_get_variantlen"

definition xdr_add_OCTET_STRING_el :: "u8 list \<Rightarrow> nat \<Rightarrow> u8 list \<Rightarrow> u32 \<Rightarrow> (u8 list \<times> int) res" where
  "xdr_add_OCTET_STRING_el = xdr_add_OCTET_STRING"

definition xdr_get_OCTET_STRING_el :: "u8 list \<Rightarrow> nat \<Rightarrow> u8 list \<Rightarrow> u32 \<Rightarrow> (u8 list \<times> u32 \<times> int) res" where
  "xdr_get_OCTET_STRING_el = xdr_get_OCTET_STRING"


definition SmMutexInit_el :: "os_env \<Rightarrow> chan \<Rightarrow> chan res" where
  "SmMutexInit_el = SmMutexInit"

definition SmMutexLock_el :: "chan \<Rightarrow> chan res" where
  "SmMutexLock_el = SmMutexLock"

definition SmMutexUnlock_el :: "chan \<Rightarrow> chan res" where
  "SmMutexUnlock_el = SmMutexUnlock"

definition SmGetMsgQue_el :: "os_env \<Rightarrow> u32 \<Rightarrow> chan \<Rightarrow> chan \<times> int" where
  "SmGetMsgQue_el = SmGetMsgQue"

definition SmMsgInit_el :: "os_env \<Rightarrow> u32 \<Rightarrow> chan \<Rightarrow> chan res" where
  "SmMsgInit_el = SmMsgInit"

definition SmDestroyMsgQue_el :: "os_env \<Rightarrow> int \<Rightarrow> chan \<Rightarrow> chan \<times> int" where
  "SmDestroyMsgQue_el = SmDestroyMsgQue"

definition SmMsgSendEcho_el :: "os_env \<Rightarrow> u32 \<Rightarrow> RH_MSG_BUFFER_T \<Rightarrow> chan \<Rightarrow> (chan \<times> int) res" where
  "SmMsgSendEcho_el = SmMsgSendEcho"

definition SmMsgRecv_el :: "os_env \<Rightarrow> u8 list \<Rightarrow> u32 \<Rightarrow> RH_MSG_BUFFER_T \<Rightarrow> chan \<Rightarrow> (chan \<times> RH_MSG_BUFFER_T \<times> int) res" where
  "SmMsgRecv_el = SmMsgRecv"

definition SmMsgSendWait_el ::
  "os_env \<Rightarrow> 'w tick_env \<Rightarrow> u8 list \<Rightarrow> u32 \<Rightarrow> RH_MSG_BUFFER_T \<Rightarrow> RH_MSG_BUFFER_T \<Rightarrow>
   u32 \<Rightarrow> chan \<Rightarrow> 'w \<Rightarrow> (chan \<times> 'w \<times> RH_MSG_BUFFER_T \<times> int) res" where
  "SmMsgSendWait_el = send_wait 100 1000"

section \<open>client\<close>

definition xdr_add_variantlen_cl :: "u8 list \<Rightarrow> nat \<Rightarrow> u32 \<Rightarrow> (u8 list \<times> int) res" where
  "xdr_add_variantlen_cl = xdr_add_variantlen"

definition xdr_get_variantlen_cl :: "u8 list \<Rightarrow> nat \<Rightarrow> (u32 \<times> int) res" where
  "xdr_get_variantlen_cl = xdr_get_variantlen"

definition xdr_add_OCTET_STRING_cl :: "u8 list \<Rightarrow> nat \<Rightarrow> u8 list \<Rightarrow> u32 \<Rightarrow> (u8 list \<times> int) res" where
  "xdr_add_OCTET_STRING_cl = xdr_add_OCTET_STRING"

definition xdr_get_OCTET_STRING_cl :: "u8 list \<Rightarrow> nat \<Rightarrow> u8 list \<Rightarrow> u32 \<Rightarrow> (u8 list \<times> u32 \<times> int) res" where
  "xdr_get_OCTET_STRING_cl = xdr_get_OCTET_STRING"

definition xdr_add_uint32_cl :: "u8 list \<Rightarrow> nat \<Rightarrow> u32 \<Rightarrow> (u8 list \<times> int) res" where
  "xdr_add_uint32_cl = xdr_add_uint32"


definition SmMutexInit_cl :: "os_env \<Rightarrow> chan \<Rightarrow> chan res" where
  "SmMutexInit_cl = SmMutexInit"

definition SmMutexLock_cl :: "chan \<Rightarrow> chan res" where
  "SmMutexLock_cl = SmMutexLock"

definition SmMutexUnlock_cl :: "chan \<Rightarrow> chan res" where
  "SmMutexUnlock_cl = SmMutexUnlock"

definition SmGetMsgQue_cl :: "os_env \<Rightarrow> u32 \<Rightarrow> chan \<Rightarrow> chan \<times> int" where
  "SmGetMsgQue_cl = SmGetMsgQue"

definition SmMsgInit_cl :: "os_env \<Rightarrow> u32 \<Rightarrow> chan \<Rightarrow> chan res" where
  "SmMsgInit_cl = SmMsgInit"

definition SmDestroyMsgQue_cl :: "os_env \<Rightarrow> int \<Rightarrow> chan \<Rightarrow> chan \<times> int" where
  "SmDestroyMsgQue_cl os handle ch =
     (let (ch, r) = SmDestroyMsgQue os handle ch in (ch, if r < 0 then 0 else 1))"

definition SmMsgSendEcho_cl :: "os_env \<Rightarrow> u32 \<Rightarrow> RH_MSG_BUFFER_T \<Rightarrow> chan \<Rightarrow> (chan \<times> int) res" where
  "SmMsgSendEcho_cl = SmMsgSendEcho"

definition SmMsgRecv_cl :: "os_env \<Rightarrow> u8 list \<Rightarrow> u32 \<Rightarrow> RH_MSG_BUFFER_T \<Rightarrow> chan \<Rightarrow> (chan \<times> RH_MSG_BUFFER_T \<times> int) res" where
  "SmMsgRecv_cl = SmMsgRecv"

definition SmMsgSendWait_cl ::
  "os_env \<Rightarrow> 'w tick_env \<Rightarrow> u8 list \<Rightarrow> u32 \<Rightarrow> RH_MSG_BUFFER_T \<Rightarrow> RH_MSG_BUFFER_T \<Rightarrow>
   u32 \<Rightarrow> chan \<Rightarrow> 'w \<Rightarrow> (chan \<times> 'w \<times> RH_MSG_BUFFER_T \<times> int) res" where
  "SmMsgSendWait_cl = SmMsgSendWait"

section \<open>server\<close>

definition xdr_add_variantlen_sv :: "u8 list \<Rightarrow> nat \<Rightarrow> u32 \<Rightarrow> (u8 list \<times> int) res" where
  "xdr_add_variantlen_sv = xdr_add_variantlen"

definition xdr_get_variantlen_sv :: "u8 list \<Rightarrow> nat \<Rightarrow> (u32 \<times> int) res" where
  "xdr_get_variantlen_sv = xdr_get_variantlen"

definition xdr_add_OCTET_STRING_sv :: "u8 list \<Rightarrow> nat \<Rightarrow> u8 list \<Rightarrow> u32 \<Rightarrow> (u8 list \<times> int) res" where
  "xdr_add_OCTET_STRING_sv = xdr_add_OCTET_STRING"

definition xdr_get_OCTET_STRING_sv :: "u8 list \<Rightarrow> nat \<Rightarrow> u8 list \<Rightarrow> u32 \<Rightarrow> (u8 list \<times> u32 \<times> int) res" where
  "xdr_get_OCTET_STRING_sv = xdr_get_OCTET_STRING"

definition xdr_add_uint32_sv :: "u8 list \<Rightarrow> nat \<Rightarrow> u32 \<Rightarrow> (u8 list \<times> int) res" where
  "xdr_add_uint32_sv = xdr_add_uint32"


definition SmMutexInit_sv :: "os_env \<Rightarrow> chan \<Rightarrow> chan res" where
  "SmMutexInit_sv = SmMutexInit"

definition SmMutexLock_sv :: "chan \<Rightarrow> chan res" where
  "SmMutexLock_sv = SmMutexLock"

definition SmMutexUnlock_sv :: "chan \<Rightarrow> chan res" where
  "SmMutexUnlock_sv = SmMutexUnlock"

definition SmGetMsgQue_sv :: "os_env \<Rightarrow> u32 \<Rightarrow> chan \<Rightarrow> chan \<times> int" where
  "SmGetMsgQue_sv = SmGetMsgQue"

definition SmMsgInit_sv :: "os_env \<Rightarrow> u32 \<Rightarrow> chan \<Rightarrow> chan res" where
  "SmMsgInit_sv = SmMsgInit"

definition SmDestroyMsgQue_sv :: "os_env \<Rightarrow> int \<Rightarrow> chan \<Rightarrow> chan \<times> int" where
  "SmDestroyMsgQue_sv = SmDestroyMsgQue"

definition SmMsgSendEcho_sv :: "os_env \<Rightarrow> u32 \<Rightarrow> RH_MSG_BUFFER_T \<Rightarrow> chan \<Rightarrow> (chan \<times> int) res" where
  "SmMsgSendEcho_sv = SmMsgSendEcho"

definition SmMsgRecv_sv :: "os_env \<Rightarrow> u8 list \<Rightarrow> u32 \<Rightarrow> RH_MSG_BUFFER_T \<Rightarrow> chan \<Rightarrow> (chan \<times> RH_MSG_BUFFER_T \<times> int) res" where
  "SmMsgRecv_sv = SmMsgRecv"

definition SmMsgSendWait_sv ::
  "os_env \<Rightarrow> 'w tick_env \<Rightarrow> u8 list \<Rightarrow> u32 \<Rightarrow> RH_MSG_BUFFER_T \<Rightarrow> RH_MSG_BUFFER_T \<Rightarrow>
   u32 \<Rightarrow> chan \<Rightarrow> 'w \<Rightarrow> (chan \<times> 'w \<times> RH_MSG_BUFFER_T \<times> int) res" where
  "SmMsgSendWait_sv = SmMsgSendWait"

lemmas el_copy =
  str2dec_el_def str2hex_el_def reversecpy_el_def smallcpy_el_def get_cfg_num_el_def
  xdr_add_uint8_el_def xdr_get_uint8_el_def xdr_add_uint16_el_def xdr_get_uint16_el_def
  xdr_add_uint32_el_def xdr_get_uint32_el_def xdr_add_variantlen_el_def xdr_get_variantlen_el_def
  xdr_add_OCTET_STRING_el_def xdr_get_OCTET_STRING_el_def SmMutexInit_el_def SmMutexLock_el_def
  SmMutexUnlock_el_def SmGetMsgQue_el_def SmMsgInit_el_def SmMsgSendEcho_el_def SmMsgRecv_el_def
  SmMsgSendWait_el_def

lemmas cl_copy =
  xdr_add_variantlen_cl_def xdr_get_variantlen_cl_def xdr_add_OCTET_STRING_cl_def
  xdr_get_OCTET_STRING_cl_def xdr_add_uint32_cl_def SmMutexInit_cl_def SmMutexLock_cl_def
  SmMutexUnlock_cl_def SmGetMsgQue_cl_def SmMsgInit_cl_def SmMsgSendEcho_cl_def SmMsgRecv_cl_def
  SmMsgSendWait_cl_def

lemmas sv_copy =
  xdr_add_variantlen_sv_def xdr_get_variantlen_sv_def xdr_add_OCTET_STRING_sv_def
  xdr_get_OCTET_STRING_sv_def xdr_add_uint32_sv_def SmMutexInit_sv_def SmMutexLock_sv_def
  SmMutexUnlock_sv_def SmGetMsgQue_sv_def SmMsgInit_sv_def SmMsgSendEcho_sv_def SmMsgRecv_sv_def
  SmMsgSendWait_sv_def

end
