(* ===== verification/ElDbase.thy ===== *)
theory ElDbase
  imports SourceCopies RhDbase
begin

text \<open>
  \<^verbatim>\<open>enegy_loss/elDbase.c\<close>: the database client of the energy-loss application, and its own small
  server thread.  The definitions carry the suffix \<open>el\<close>; a process is a \<open>dbase_proc\<close>.
\<close>

section \<open>Requests\<close>

definition read_req_el :: "int \<Rightarrow> u16 \<Rightarrow> u32 \<Rightarrow> (int \<times> RH_MSG_BUFFER_T) res" where
  "read_req_el seq nPn di =
     bindR (new_req seq EL_APP_NAME RH_APP_NAME IID_EL IOP_DBASE_READ) (\<lambda>(seq, m).
     bindR (add_pn_id nPn di (msg_pValue m)) (\<lambda>(b, nPos).
       Inr (seq, set_nSize (word_of_int nPos) (set_msg_pValue b m))))"

definition write_req_el :: "int \<Rightarrow> u16 \<Rightarrow> u32 \<Rightarrow> u8 list \<Rightarrow> u32 \<Rightarrow> (int \<times> RH_MSG_BUFFER_T) res" where
  "write_req_el seq nPn di buf len =
     bindR (new_req seq EL_APP_NAME RH_APP_NAME IID_EL IOP_DBASE_WRITE) (\<lambda>(seq, m).
     bindR (add_pn_id nPn di (msg_pValue m)) (\<lambda>(b, nPos).
     bindR (xdr_add_OCTET_STRING_el b (nat nPos) buf len) (\<lambda>(b, n).
       Inr (seq, set_nSize (word_of_int (nPos + n)) (set_msg_pValue b m)))))"

text \<open>
  The answer counts only if its error number is zero.  The final comparison \<^verbatim>\<open>len <= nSize\<close> is
  unsigned.
\<close>

definition el_read_data ::
  "os_env \<Rightarrow> 'w tick_env \<Rightarrow> u16 \<Rightarrow> u32 \<Rightarrow> u8 list \<Rightarrow> int \<Rightarrow> dbase_proc \<Rightarrow> 'w \<Rightarrow>
   (dbase_proc \<times> 'w \<times> u8 list \<times> int) res" where
  "el_read_data os env nPn di outBuf nSize p w =
     bindR (read_req_el (dp_seq p) nPn di) (\<lambda>(seq, pMsgSend).
     bindR (SmMsgSendWait_el os env EL_APP_NAME EL_KEY_ID pMsgSend zero_msg WAITE_TIMEOUT (dp_chan p) w)
       (\<lambda>(ch, w, pMsgRet, nRet).
     let p = p\<lparr>dp_chan := ch, dp_seq := seq\<rparr> in
     if nRet = 0 \<and> ack_errNo pMsgRet = 0
     then bindR (xdr_get_OCTET_STRING_el (ack_pValue pMsgRet) 0 outBuf (word_of_int nSize))
            (\<lambda>(outBuf, len, _).
              if len \<le> word_of_int nSize then Inr (p, w, outBuf, sint len)
              else Inr (p, w, outBuf, nRet))
     else Inr (p, w, outBuf, nRet)))"

definition el_write_data ::
  "os_env \<Rightarrow> 'w tick_env \<Rightarrow> u16 \<Rightarrow> u32 \<Rightarrow> u8 list \<Rightarrow> u32 \<Rightarrow> dbase_proc \<Rightarrow> 'w \<Rightarrow>
   (dbase_proc \<times> 'w \<times> int) res" where
  "el_write_data os env nPn di buf len p w =
     bindR (write_req_el (dp_seq p) nPn di buf len) (\<lambda>(seq, pMsgSend).
     bindR (SmMsgSendWait_el os env EL_APP_NAME EL_KEY_ID pMsgSend zero_msg WAITE_TIMEOUT (dp_chan p) w)
       (\<lambda>(ch, w, pMsgRet, nRet). Inr (p\<lparr>dp_chan := ch, dp_seq := seq\<rparr>, w, nRet)))"

section \<open>Answers\<close>

text \<open>
  This echo stores the payload through \<^verbatim>\<open>msg.pValue\<close>, over the error number it has just
  written, and takes the operation code from the request's \<^verbatim>\<open>iid\<close>.
\<close>

definition echo_msg_el :: "int \<Rightarrow> RH_MSG_BUFFER_T \<Rightarrow> u8 list \<Rightarrow> int \<Rightarrow> RH_MSG_BUFFER_T res" where
  "echo_msg_el nErrNo pMsgRecv buf len =
     (let m = zero_msg\<lparr>h_state := MSG_ACK, h_sync := h_sync pMsgRecv, h_index := h_index pMsgRecv\<rparr> in
      bindR (set_srce EL_APP_NAME m) (\<lambda>m.
      bindR (set_dest (h_szSrce pMsgRecv) m) (\<lambda>m.
      let m = set_errNo nErrNo (set_iop (tag_iid pMsgRecv) (set_iid IID_EL m)) in
      bindR (xdr_add_OCTET_STRING_el (msg_pValue m) 0 buf (word_of_int len)) (\<lambda>(b, nPos).
        Inr (set_nSize (word_of_int nPos) (set_msg_pValue b m))))))"

definition el_msg_echo_el ::
  "os_env \<Rightarrow> int \<Rightarrow> RH_MSG_BUFFER_T \<Rightarrow> u8 list \<Rightarrow> int \<Rightarrow> dbase_proc \<Rightarrow> dbase_proc res" where
  "el_msg_echo_el os nErrNo pMsgRecv buf len p =
     bindR (echo_msg_el nErrNo pMsgRecv buf len) (\<lambda>m.
     bindR (SmMsgSendEcho_el os EL_KEY_ID m (dp_chan p)) (\<lambda>(ch, _). Inr (p\<lparr>dp_chan := ch\<rparr>)))"

definition read_test_el :: "os_env \<Rightarrow> RH_MSG_BUFFER_T \<Rightarrow> dbase_proc \<Rightarrow> (dbase_proc \<times> int) res" where
  "read_test_el os pMsg p =
     bindR (el_msg_echo_el os 0 pMsg [0x04, 0x12, 0x34, 0x56, 0x78] 5 p) (\<lambda>p. Inr (p, 0))"

section \<open>The server thread\<close>

definition s_dbaseMsgMap_el :: "(u8 \<times> dbase_proc handler option) list" where
  "s_dbaseMsgMap_el = [(IOP_DBASE_READ, Some read_test_el)]"

definition elDbaseProc_el :: "os_env \<Rightarrow> dbase_proc \<Rightarrow> dbase_proc res" where
  "elDbaseProc_el os p =
     bindR (SmMsgRecv_el os EL_APP_NAME EL_KEY_ID zero_msg (dp_chan p)) (\<lambda>(ch, RecvMsg, r).
     let p = p\<lparr>dp_chan := ch\<rparr> in
     if r = 0 then dispatch s_dbaseMsgMap_el os RecvMsg p else Inr p)"

definition el_dbase_init_el :: "os_env \<Rightarrow> dbase_proc \<Rightarrow> (dbase_proc \<times> bool) res" where
  "el_dbase_init_el os p =
     bindR (SmMsgInit_el os EL_KEY_ID (dp_chan p)) (\<lambda>ch. Inr (p\<lparr>dp_chan := ch\<rparr>, pthread_create_ok os))"

end
