(* ===== verification/EndToEnd.thy ===== *)
theory EndToEnd
  imports RhServer ElDbase DataLink
begin

text \<open>
  The energy-loss client and the data server together: the requests the client builds, the
  server thread as the environment of the client's polling loop, and what a read or a write of
  the client does to the data memory of the server.
\<close>

section \<open>The requests of the client\<close>

lemma enc_lengths [simp]: "length (enc_uint16 v) = 2" "length (enc_uint32 w) = 4"
  by (simp_all add: enc_uint16_def enc_uint32_def)

lemma add_pn_id_closed:
  assumes "length b = 2048"
  shows "add_pn_id nPn di b = Inr (patch b 0 (enc_uint16 nPn @ enc_uint32 di), 6)"
  using assms patch_append [where off = 0 and xs = "enc_uint16 nPn" and ys = "enc_uint32 di" and dst = b]
  by (simp add: add_pn_id_def xdr_u16.add_enc xdr_u32.add_enc numeral_2_eq_2)

lemma get_pn_id_window:
  assumes "length b = 2048" and "take 6 b = enc_uint16 nPn @ enc_uint32 di"
  shows "get_pn_id b = Inr (nPn, di, 6)"
proof -
  have "take 2 b = take 2 (take 6 b)" "take 4 (drop 2 b) = drop 2 (take 6 b)"
    by (simp_all add: drop_take)
  then have "take 2 (drop 0 b) = enc_uint16 nPn" "take 4 (drop 2 b) = enc_uint32 di"
    using assms(2) by simp_all
  then have "xdr_get_uint16 b 0 = Inr (nPn, 2)" "xdr_get_uint32 b 2 = Inr (di, 4)"
    using xdr_u16.get_enc [where v = nPn and p = 0 and buf = b] xdr_u32.get_enc [where v = di and p = 2 and buf = b] assms(1)
    by simp_all
  then show ?thesis by (simp add: get_pn_id_def)
qed

text \<open>The head of a request and its operation code.\<close>

definition request :: "int \<Rightarrow> u8 list \<Rightarrow> u8 list \<Rightarrow> u16 \<Rightarrow> RH_MSG_BUFFER_T \<Rightarrow> bool" where
  "request seq src dst iop m \<longleftrightarrow> wf_msg m \<and> h_state m = MSG_REQ \<and> h_sync m = 1 \<and> h_index m = word_of_int seq
     \<and> terminated (h_szSrce m) \<and> ccont (h_szSrce m) = ccont src
     \<and> terminated (h_szDest m) \<and> ccont (h_szDest m) = ccont dst \<and> tag_iop m = iop"

lemma new_req_ok:
  assumes seq: "- 2147483648 \<le> seq" "seq < 2147483647" and src: "terminated src" "length (ccont src) < 64"
    and dst: "terminated dst" "length (ccont dst) < 64"
  shows "\<exists>m. new_req seq src dst iid iop = Inr (seq + 1, m) \<and> request seq src dst (ucast iop) m"
proof -
  let ?m0 = "zero_msg\<lparr>h_state := MSG_REQ, h_sync := 1, h_index := word_of_int seq\<rparr>"
  obtain m1 where 1: "set_srce src ?m0 = Inr m1"
    using set_srce_fits [OF src(1), of ?m0] src(2) by (auto simp: zero_msg_def)
  note s = set_srce_Inr [OF 1]
  have "length (h_szDest m1) = 64" using s by (simp add: zero_msg_def)
  then obtain m2 where 2: "set_dest dst m1 = Inr m2" using set_dest_fits [OF dst(1), of m1] dst(2) by auto
  note d = set_dest_Inr [OF 2]
  have "wf_msg m2" using s d by simp
  then show ?thesis
    using 1 2 s d seq by (simp add: new_req_def addi_def request_def Let_def)
qed

lemma request_payload:
  "request seq src dst iop m \<Longrightarrow> length b = 2048 \<Longrightarrow> request seq src dst iop (set_nSize n (set_msg_pValue b m))"
  "request seq src dst iop m \<Longrightarrow> length b = 2048 \<Longrightarrow> msg_pValue (set_nSize n (set_msg_pValue b m)) = b"
  by (simp_all add: request_def)

lemma req_key_window:
  "wf_msg m \<Longrightarrow> take 6 (msg_pValue m) = enc_uint16 nPn @ enc_uint32 di \<Longrightarrow> req_key m = (nPn, di)"
  by (simp add: req_key_def get_pn_id_window)

lemma el_names: "length (ccont EL_APP_NAME) < 64" "length (ccont RH_APP_NAME) < 64"
  by (simp_all add: app_names)

lemma read_req_el_ok:
  assumes "- 2147483648 \<le> seq" "seq < 2147483647"
  shows "\<exists>m. read_req_el seq nPn di = Inr (seq + 1, m) \<and> request seq EL_APP_NAME RH_APP_NAME 0x10 m
     \<and> req_key m = (nPn, di)"
proof -
  obtain m where m: "new_req seq EL_APP_NAME RH_APP_NAME IID_EL IOP_DBASE_READ = Inr (seq + 1, m)"
    and r: "request seq EL_APP_NAME RH_APP_NAME 0x10 m"
    using new_req_ok [OF assms app_names(2) el_names(1) app_names(1) el_names(2), of IID_EL IOP_DBASE_READ]
    by (auto simp: ucast_iop)
  have len: "length (msg_pValue m) = 2048" using r by (simp add: request_def)
  let ?b = "patch (msg_pValue m) 0 (enc_uint16 nPn @ enc_uint32 di)"
  have b: "length ?b = 2048" "take 6 ?b = enc_uint16 nPn @ enc_uint32 di" using len by (simp_all add: patch_def)
  let ?m = "set_nSize 6 (set_msg_pValue ?b m)"
  have "request seq EL_APP_NAME RH_APP_NAME 0x10 ?m" "msg_pValue ?m = ?b"
    using request_payload [OF r b(1)] by blast+
  moreover from this have "req_key ?m = (nPn, di)"
    using req_key_window [of ?m nPn di] b(2) by (simp add: request_def)
  ultimately show ?thesis
    using m add_pn_id_closed [OF len] by (simp add: read_req_el_def)
qed

lemma write_req_el_ok:
  assumes "- 2147483648 \<le> seq" "seq < 2147483647" and n: "length data \<le> 128"
  shows "\<exists>m. write_req_el seq nPn di data (of_nat (length data)) = Inr (seq + 1, m)
     \<and> request seq EL_APP_NAME RH_APP_NAME 0x11 m \<and> req_key m = (nPn, di)
     \<and> (\<exists>k. xdr_get_OCTET_STRING (msg_pValue m) 6 (replicate 128 0) 128 =
           Inr (patch (replicate 128 0) 0 data, of_nat (length data), k))"
proof -
  obtain m where m: "new_req seq EL_APP_NAME RH_APP_NAME IID_EL IOP_DBASE_WRITE = Inr (seq + 1, m)"
    and r: "request seq EL_APP_NAME RH_APP_NAME 0x11 m"
    using new_req_ok [OF assms(1,2) app_names(2) el_names(1) app_names(1) el_names(2), of IID_EL IOP_DBASE_WRITE]
    by (auto simp: ucast_iop)
  have len: "length (msg_pValue m) = 2048" using r by (simp add: request_def)
  let ?n = "of_nat (length data) :: u32" and ?b = "patch (msg_pValue m) 0 (enc_uint16 nPn @ enc_uint32 di)"
  have b: "length ?b = 2048" "take 6 ?b = enc_uint16 nPn @ enc_uint32 di" using len by (simp_all add: patch_def)
  have un: "unat ?n = length data" using n by (intro unat_of_nat32) simp
  let ?b2 = "patch ?b 6 (enc_variantlen ?n @ data)" and ?k = "int (length (enc_variantlen ?n)) + uint ?n"
  have add: "xdr_add_OCTET_STRING ?b 6 data ?n = Inr (?b2, ?k)"
    using un n b(1) length_enc_le5 [of ?n] by (simp add: add_OCTET_STRING_closed)
  have b2: "length ?b2 = 2048" "take 6 ?b2 = enc_uint16 nPn @ enc_uint32 di"
    using n b length_enc_le5 [of ?n] by (simp, simp add: patch_def)
  have "?n \<le> 128" using un n by (simp add: word_le_nat_alt)
  then have get: "xdr_get_OCTET_STRING ?b2 6 (replicate 128 0) 128 = Inr (patch (replicate 128 0) 0 data, ?n, ?k)"
    using get_add_OCTET_STRING [OF add, of "replicate 128 0" 128] un n by simp
  let ?m = "set_nSize (word_of_int (6 + ?k)) (set_msg_pValue ?b2 m)"
  have rq: "request seq EL_APP_NAME RH_APP_NAME 0x11 ?m" "msg_pValue ?m = ?b2"
    using request_payload [OF r b2(1)] by blast+
  moreover from rq have "req_key ?m = (nPn, di)"
    using req_key_window [of ?m nPn di] b2(2) by (simp add: request_def)
  moreover have "write_req_el seq nPn di data ?n = Inr (seq + 1, ?m)"
    using m add_pn_id_closed [OF len] add by (simp add: write_req_el_def el_copy)
  ultimately show ?thesis using get by (intro exI [of _ ?m]) simp
qed

section \<open>The server as the environment of a waiting client\<close>

text \<open>
  During the \<open>k\<close>-th sleep of the client the server thread runs \<open>runs k\<close> iterations on the same
  segment.  A server that faulted does nothing more.
\<close>

fun serve_n :: "os_env \<Rightarrow> nat \<Rightarrow> rh_proc \<Rightarrow> rh_proc res" where
  "serve_n os 0 p = Inr p"
| "serve_n os (Suc n) p = bindR (elDbaseProc_rh os p) (serve_n os n)"

definition server_env :: "os_env \<Rightarrow> (nat \<Rightarrow> nat) \<Rightarrow> rh_proc res tick_env" where
  "server_env os runs k = (\<lambda>(seg, w). case w of
     Inl e \<Rightarrow> (seg, Inl e)
   | Inr p \<Rightarrow> (case serve_n os (runs k) (with_box seg p) of
        Inl e \<Rightarrow> (seg, Inl e)
      | Inr p' \<Rightarrow> (box (dp_chan p') EL_KEY_ID, Inr p')))"

definition client_ok :: "dbase_proc \<Rightarrow> bool" where
  "client_ok p \<longleftrightarrow> ch_lock (dp_chan p) = LkFree \<and> h_state (box (dp_chan p) EL_KEY_ID) = MSG_IDLE
     \<and> terminated (h_szDest (box (dp_chan p) EL_KEY_ID)) \<and> - 2147483648 \<le> dp_seq p \<and> dp_seq p < 2147483647"

text \<open>The server runs at least once during one of the sleeps 1 to 300 (thirty seconds).\<close>

definition scheduled :: "(nat \<Rightarrow> nat) \<Rightarrow> bool" where
  "scheduled runs \<longleftrightarrow> (\<exists>j \<in> {1..300}. 0 < runs j)"

lemma serve_n_idle:
  assumes "os_ok os" and "terminated (h_szDest m)" and "h_state m \<noteq> MSG_REQ"
  shows "serve_n os n (with_box m p) = Inr (with_box m p)"
  by (induction n) (simp_all add: server_idle assms)

lemma env_run_last: "env_run env k (Suc n) sw = env (k + n) (env_run env k n sw)"
proof (induction n arbitrary: k sw)
  case (Suc n)
  have "env_run env k (Suc (Suc n)) sw = env_run env (Suc k) (Suc n) (env k sw)" by simp
  also have "\<dots> = env (Suc k + n) (env_run env (Suc k) n (env k sw))" by (rule Suc.IH)
  finally show ?case by simp
qed simp

text \<open>While the server does not run, the message stays.\<close>

lemma run_waiting:
  assumes "\<forall>j < n. runs (k + j) = 0"
  shows "\<exists>p'. env_run (server_env os runs) k n (m, Inr p) = (m, Inr p') \<and> with_box m p' = with_box m p"
  using assms
proof (induction n)
  case (Suc n)
  then obtain p' where "env_run (server_env os runs) k n (m, Inr p) = (m, Inr p')" "with_box m p' = with_box m p"
    by auto
  then show ?case
    using Suc.prems by (simp only: env_run_last) (simp add: server_env_def)
qed simp

lemma clamp_30: "sleeps 100 (unat (clamp_wait WAITE_TIMEOUT) * 1000) 0 = 300"
  by (simp add: clamp_wait_def WAITE_TIMEOUT_def MAX_MSG_TIMEOUT_def sleeps_def)

lemma answered_by_server:
  assumes os: "os_ok os" and p: "client_ok p" and m: "request seq EL_APP_NAME RH_APP_NAME iop m"
    and serve: "elDbaseProc_rh os (with_box m srv) = Inr (with_box ack q)" and ack: "answers m ack"
    and run: "scheduled runs"
  shows "SmMsgSendWait_el os (server_env os runs) EL_APP_NAME EL_KEY_ID m zero_msg WAITE_TIMEOUT (dp_chan p) (Inr srv)
     = Inr (put_box (dp_chan p) EL_KEY_ID (ack\<lparr>h_state := MSG_IDLE\<rparr>), Inr (with_box ack q), ack, 0)"
proof -
  let ?env = "server_env os runs" and ?seg = "box (dp_chan p) EL_KEY_ID"
  have p': "ch_lock (dp_chan p) = LkFree" "h_state ?seg = MSG_IDLE" "terminated (h_szDest ?seg)"
    using p by (simp_all add: client_ok_def)
  have first: "?env 0 (?seg, Inr srv) = (?seg, Inr (with_box ?seg srv))"
    using serve_n_idle [OF os p'(3), of "runs 0" srv] p'(2) by (simp add: server_env_def)
  let ?sw = "(m, Inr (with_box ?seg srv))"
  obtain n where n: "n < 300" "0 < runs (1 + n)" and early: "\<forall>j < n. runs (1 + j) = 0"
  proof (rule first_sleep [of 300 "\<lambda>i. 0 < runs (1 + i)"])
    assume no: "\<forall>j < 300. \<not> 0 < runs (1 + j)"
    from run obtain j where "1 \<le> j" "j \<le> 300" "0 < runs j" by (auto simp: scheduled_def)
    then have "j - 1 < 300" "1 + (j - 1) = j" by auto
    with no \<open>0 < runs j\<close> have False by metis
    then show thesis ..
  qed (use that in auto)
  have wait: "\<exists>p'. env_run ?env 1 j ?sw = (m, Inr p') \<and> with_box m p' = with_box m srv" if "j \<le> n" for j
    using run_waiting [of j runs 1 os m "with_box ?seg srv"] early that by simp
  have a: "h_state ack = MSG_ACK" "terminated (h_szDest ack)" and rq: "h_state m = MSG_REQ" "terminated (h_szDest m)"
    using ack m by (simp_all add: answers_def request_def)
  have last: "env_run ?env 1 (Suc n) ?sw = (ack, Inr (with_box ack q))"
  proof -
    obtain p2 where p2: "env_run ?env 1 n ?sw = (m, Inr p2)" "with_box m p2 = with_box m srv" using wait by blast
    obtain r where r: "runs (1 + n) = Suc r" using n(2) by (cases "runs (1 + n)") auto
    have "serve_n os r (with_box ack q) = Inr (with_box ack q)"
      using serve_n_idle [OF os a(2)] a(1) by simp
    then have "serve_n os (runs (1 + n)) (with_box m p2) = Inr (with_box ack q)"
      using p2(2) serve by (simp only: r serve_n.simps) simp
    then show ?thesis using p2(1) by (simp only: env_run_last) (simp add: server_env_def)
  qed
  have mid: "fst (env_run ?env 1 (Suc j) ?sw) = m" if "j < n" for j
    using wait [of "Suc j"] that by auto
  have "send_wait 100 1000 os ?env EL_APP_NAME EL_KEY_ID m zero_msg WAITE_TIMEOUT (dp_chan p) (Inr srv) =
     Inr (put_box (dp_chan p) EL_KEY_ID ((fst (env_run ?env 1 (Suc n) ?sw))\<lparr>h_state := MSG_IDLE\<rparr>),
          snd (env_run ?env 1 (Suc n) ?sw), fst (env_run ?env 1 (Suc n) ?sw), 0)"
  proof (rule send_wait_answered [OF os p'(1) app_names(2)])
    show "h_state (fst (?env 0 (?seg, Inr srv))) = MSG_IDLE" "?sw = (m, snd (?env 0 (?seg, Inr srv)))"
      using first p'(2) by simp_all
    show "n < sleeps 100 (unat (clamp_wait WAITE_TIMEOUT) * 1000) 0" using n(1) by (simp only: clamp_30)
    show "\<forall>j \<le> n. terminated (h_szDest (fst (env_run ?env 1 (Suc j) ?sw)))"
      using mid last a(2) rq(2) by (metis fst_conv le_neq_implies_less)
    show "\<forall>j < n. \<not> matches EL_APP_NAME m (fst (env_run ?env 1 (Suc j) ?sw))"
      using mid rq(1) by (simp add: matches_def del: env_run.simps)
    show "matches EL_APP_NAME m (fst (env_run ?env 1 (Suc n) ?sw))"
      unfolding last using ack m by (simp add: matches_def answers_def request_def)
  qed simp_all
  then show ?thesis by (simp only: last fst_conv snd_conv el_copy)
qed

section \<open>A read and a write through the server\<close>

lemma request_askable:
  assumes "request seq EL_APP_NAME RH_APP_NAME iop m"
  shows "askable m" "for_rh m"
  using assms by (simp_all add: request_def askable_def for_rh_def)

lemma client_after:
  assumes "client_ok p" and "dp_seq p + 1 < 2147483647" and "answers m ack"
  shows "client_ok (p\<lparr>dp_chan := put_box (dp_chan p) EL_KEY_ID (ack\<lparr>h_state := MSG_IDLE\<rparr>), dp_seq := dp_seq p + 1\<rparr>)"
  using assms by (simp add: client_ok_def answers_def)

lemma small_u32: "n \<le> 128 \<Longrightarrow> sint (of_nat n :: u32) = int n"
  using sint_of_int [of "int n"] by simp

lemma read_through_server:
  assumes os: "os_ok os" and p: "client_ok p" "dp_seq p + 1 < 2147483647" and srv: "ready os srv"
    and f: "oop_field (dp_mem srv) (nPn, di) = Some (a, n)" and n: "0 < n" "n \<le> 128"
    and out: "n \<le> length outBuf" "int n \<le> nSize" "nSize < 2 ^ 31" and run: "scheduled runs"
  shows "\<exists>p' ack. el_read_data os (server_env os runs) nPn di outBuf nSize p (Inr srv) =
       Inr (p', Inr (with_box ack srv), patch outBuf 0 (take n (drop a (mem_cells (dp_mem srv)))), int n)
     \<and> client_ok p' \<and> dp_seq p' = dp_seq p + 1"
proof -
  obtain m where m: "read_req_el (dp_seq p) nPn di = Inr (dp_seq p + 1, m)"
    and rq: "request (dp_seq p) EL_APP_NAME RH_APP_NAME 0x10 m" and key: "req_key m = (nPn, di)"
    using read_req_el_ok [of "dp_seq p" nPn di] p by (auto simp: client_ok_def)
  let ?s = "with_box m srv"
  have "ready os ?s" "askable (box (dp_chan ?s) EL_KEY_ID)" "tag_iop m = 0x10"
    using srv request_askable [OF rq] rq by (simp_all add: request_def)
  from serve_read [OF this(1,2) _ _ _ _ n(2), of m a] request_askable [OF rq] this(3) f key
  obtain ack where serve: "elDbaseProc_rh os ?s = Inr (with_box ack ?s)" and ack: "answers m ack" "ack_errNo ack = 0"
    and get: "\<forall>out cap. n \<le> length out \<longrightarrow> xdr_get_OCTET_STRING (ack_pValue ack) 0 out cap =
          (if of_nat n \<le> cap
           then Inr (patch out 0 (take n (drop a (mem_cells (dp_mem srv)))), of_nat n, int (length (enc_variantlen (of_nat n))) + int n)
           else Inr (out, 0, - 1))"
    using n(1) by auto
  have un: "uint (of_nat n :: u32) = int n"
    using n(2) unat_of_nat32 [of n] uint_nat [of "of_nat n :: u32"] by simp
  have us: "uint (word_of_int nSize :: u32) = nSize" using out(2,3) n by (simp add: unsigned_of_int take_bit_int_eq_self)
  have le: "(of_nat n :: u32) \<le> word_of_int nSize" unfolding word_le_def un us by (rule out(2))
  have serve': "elDbaseProc_rh os ?s = Inr (with_box ack srv)" using serve by simp
  show ?thesis
    using answered_by_server [OF os p(1) rq serve' ack(1) run] m ack(2) get out(1) le n(2)
      client_after [OF p ack(1)] small_u32
    by (auto simp: el_read_data_def el_copy Let_def intro!: exI [of _ ack])
qed

lemma write_through_server:
  assumes os: "os_ok os" and p: "client_ok p" "dp_seq p + 1 < 2147483647" and srv: "ready os srv"
    and f: "oop_field (dp_mem srv) (nPn, di) = Some (a, n)" and n: "length data \<le> 128"
    and room: "a + length data \<le> length (mem_cells (dp_mem srv))" and run: "scheduled runs"
  shows "\<exists>p' srv'. el_write_data os (server_env os runs) nPn di data (of_nat (length data)) p (Inr srv) =
       Inr (p', Inr srv', 0) \<and> client_ok p' \<and> dp_seq p' = dp_seq p + 1 \<and> ready os srv'
     \<and> oop_field (dp_mem srv') = oop_field (dp_mem srv)
     \<and> mem_cells (dp_mem srv') = patch (mem_cells (dp_mem srv)) a data"
proof -
  obtain m k where m: "write_req_el (dp_seq p) nPn di data (of_nat (length data)) = Inr (dp_seq p + 1, m)"
    and rq: "request (dp_seq p) EL_APP_NAME RH_APP_NAME 0x11 m" and key: "req_key m = (nPn, di)"
    and d: "xdr_get_OCTET_STRING (msg_pValue m) 6 (replicate 128 0) 128 =
        Inr (patch (replicate 128 0) 0 data, of_nat (length data), k)"
    using write_req_el_ok [of "dp_seq p" data nPn di] p n by (auto simp: client_ok_def)
  have un: "unat (of_nat (length data) :: u32) = length data" using n by (intro unat_of_nat32) simp
  let ?s = "with_box m srv"
  have "ready os ?s" "askable (box (dp_chan ?s) EL_KEY_ID)" "tag_iop m = 0x11"
    using srv request_askable [OF rq] rq by (simp_all add: request_def)
  from serve_write [OF this(1,2) _ _ _ _ d, of a n] request_askable [OF rq] this(3) f key un room
  obtain ack mem where serve: "elDbaseProc_rh os ?s = Inr ((with_box ack ?s)\<lparr>dp_mem := mem\<rparr>)" and ack: "answers m ack"
    and mem: "valid_mem mem" "oop_field mem = oop_field (dp_mem srv)"
      "mem_cells mem = patch (mem_cells (dp_mem srv)) a (take (length data) (patch (replicate 128 0) 0 data))"
    by auto
  have t: "take (length data) (patch (replicate 128 0) 0 data) = data" using n by (simp add: patch_def)
  let ?q = "with_box ack (srv\<lparr>dp_mem := mem\<rparr>)"
  have serve': "elDbaseProc_rh os ?s = Inr ?q" using serve by simp
  have "ready os ?q" using srv mem(1) by (simp add: ready_def)
  moreover have "oop_field (dp_mem ?q) = oop_field (dp_mem srv)"
    "mem_cells (dp_mem ?q) = patch (mem_cells (dp_mem srv)) a data"
    using mem(2,3) t by (simp_all del: with_box_simps(5))
  ultimately show ?thesis
    using answered_by_server [OF os p(1) rq serve' ack run] m client_after [OF p ack]
    by (auto simp: el_write_data_def Let_def simp del: with_box_simps(5))
qed

section \<open>The client's access path\<close>

text \<open>
  A client and the server it talks to, with the number of calls so far; \<open>sched i\<close> says how often
  the server thread runs during each sleep of the \<open>i\<close>-th call.
\<close>

type_synonym remote = "nat \<times> dbase_proc \<times> rh_proc"

definition remote_put ::
  "os_env \<Rightarrow> (nat \<Rightarrow> nat \<Rightarrow> nat) \<Rightarrow> remote \<Rightarrow> u16 \<times> u32 \<Rightarrow> u8 list \<Rightarrow> (remote \<times> int) res" where
  "remote_put os sched = (\<lambda>(i, p, srv) (nPn, di) data.
     bindR (el_write_data os (server_env os (sched i)) nPn di data (of_nat (length data)) p (Inr srv))
       (\<lambda>(p, w, r). bindR w (\<lambda>srv. Inr ((Suc i, p, srv), r))))"

definition remote_get ::
  "os_env \<Rightarrow> (nat \<Rightarrow> nat \<Rightarrow> nat) \<Rightarrow> remote \<Rightarrow> u16 \<times> u32 \<Rightarrow> u8 list \<Rightarrow> (remote \<times> u8 list \<times> int) res" where
  "remote_get os sched = (\<lambda>(i, p, srv) (nPn, di) buf.
     bindR (el_read_data os (server_env os (sched i)) nPn di buf (int (length buf)) p (Inr srv))
       (\<lambda>(p, w, buf, r). bindR w (\<lambda>srv. Inr ((Suc i, p, srv), buf, r))))"

definition remote_ok :: "os_env \<Rightarrow> (nat \<Rightarrow> nat \<Rightarrow> nat) \<Rightarrow> nat \<Rightarrow> remote \<Rightarrow> bool" where
  "remote_ok os sched b = (\<lambda>(i, p, srv). (\<forall>i. scheduled (sched i)) \<and> client_ok p
     \<and> dp_seq p + int b < 2147483647 \<and> ready os srv)"

definition remote_field :: "remote \<Rightarrow> u16 \<times> u32 \<Rightarrow> (nat \<times> nat) option" where
  "remote_field = (\<lambda>(_, _, srv). oop_field (dp_mem srv))"

definition remote_cells :: "remote \<Rightarrow> u8 list" where
  "remote_cells = (\<lambda>(_, _, srv). mem_cells (dp_mem srv))"

interpretation remote: data_link 128 "remote_ok os sched" remote_field remote_cells
    "remote_put os sched" "remote_get os sched" for os sched
proof
  fix b a n :: nat and s :: remote and k :: "u16 \<times> u32" and data buf :: "u8 list"
  obtain i p srv where s: "s = (i, p, srv)" by (cases s)
  obtain nPn di where k: "k = (nPn, di)" by (cases k)
  assume "remote_ok os sched (Suc b) s" and "remote_field s k = Some (a, n)"
  then have ok: "os_ok os" "client_ok p" "dp_seq p + 1 < 2147483647" "ready os srv" "scheduled (sched i)"
    "\<forall>i. scheduled (sched i)" "dp_seq p + 1 + int b < 2147483647"
    and f: "oop_field (dp_mem srv) (nPn, di) = Some (a, n)"
    by (auto simp: s k remote_ok_def remote_field_def ready_def)
  { assume "length data \<le> 128" and "a + length data \<le> length (remote_cells s)"
    then obtain p' srv' where
      "el_write_data os (server_env os (sched i)) nPn di data (of_nat (length data)) p (Inr srv) = Inr (p', Inr srv', 0)"
      "client_ok p'" "dp_seq p' = dp_seq p + 1" "ready os srv'" "oop_field (dp_mem srv') = oop_field (dp_mem srv)"
      "mem_cells (dp_mem srv') = patch (mem_cells (dp_mem srv)) a data"
      using write_through_server [OF ok(1-4) f _ _ ok(5), of data] by (auto simp: s remote_cells_def)
    then show "\<exists>s'. remote_put os sched s k data = Inr (s', 0) \<and> remote_ok os sched b s'
        \<and> remote_field s' = remote_field s \<and> remote_cells s' = patch (remote_cells s) a data"
      using ok(6,7) by (auto simp: s k remote_put_def remote_ok_def remote_field_def remote_cells_def) }
  assume "0 < n" and "n \<le> 128" and "n \<le> length buf" and "length buf < 2 ^ 31"
  moreover from this have "int n \<le> int (length buf)" "int (length buf) < 2 ^ 31" by simp_all
  ultimately obtain p' ack where
    "el_read_data os (server_env os (sched i)) nPn di buf (int (length buf)) p (Inr srv) =
       Inr (p', Inr (with_box ack srv), patch buf 0 (take n (drop a (mem_cells (dp_mem srv)))), int n)"
    "client_ok p'" "dp_seq p' = dp_seq p + 1"
    using read_through_server [OF ok(1-4) f _ _ _ _ _ ok(5)] by blast
  then show "\<exists>s'. remote_get os sched s k buf = Inr (s', patch buf 0 (take n (drop a (remote_cells s))), int n)
      \<and> remote_ok os sched b s' \<and> remote_field s' = remote_field s \<and> remote_cells s' = remote_cells s"
    using ok(4,6,7) by (auto simp: s k remote_get_def remote_ok_def remote_field_def remote_cells_def)
qed

section \<open>Properties\<close>

text \<open>A client and a server for the witnesses, on the small index of \<^verbatim>\<open>demo_mem\<close>.\<close>

definition idle_box :: RH_MSG_BUFFER_T where "idle_box = zero_msg\<lparr>h_state := MSG_IDLE\<rparr>"

definition demo_client :: dbase_proc where
  "demo_client = \<lparr>dp_chan = demo_chan idle_box, dp_seq = 0\<rparr>"

definition demo_server :: rh_proc where
  "demo_server = \<lparr>dp_chan = demo_chan idle_box, dp_seq = 0, dp_mem = demo_mem\<rparr>"

lemma demo_box: "box (demo_chan m) EL_KEY_ID = m"
  by (simp add: EL_KEY_ID_def)

lemma demo_pair: "client_ok demo_client" "ready good_os demo_server" "dp_seq demo_client = 0"
  "dp_mem demo_server = demo_mem" "scheduled (\<lambda>_. 1)"
  using demo_mem(1)
  by (auto simp: client_ok_def demo_client_def ready_def demo_server_def good_os_ok demo_box idle_box_def
      scheduled_def zero_msg_def terminated_def)

text \<open>
  C2: every sequence of reads and writes the energy-loss client makes through the mailbox gives the
  results, and leaves the server's data memory, as the reference that only knows where the
  fields lie: known fields of at most 128 bytes, the server thread running at least once in the
  thirty seconds of each call, fewer calls than the counter has room for.
\<close>

theorem remote_accesses_refine_reference:
  assumes "os_ok os" and "\<forall>i. scheduled (sched i)" and "client_ok p" and "dp_seq p + int (length xs) < 2147483647"
    and "ready os srv"
    and "list_all (fits_access (oop_field (dp_mem srv)) (length (mem_cells (dp_mem srv))) 128) xs"
  shows "\<exists>i' p' srv'. path_run (remote_put os sched) (remote_get os sched) (i, p, srv) xs =
       Inr ((i', p', srv'), snd (ref_run (oop_field (dp_mem srv)) (mem_cells (dp_mem srv)) xs))
     \<and> mem_cells (dp_mem srv') = fst (ref_run (oop_field (dp_mem srv)) (mem_cells (dp_mem srv)) xs)
     \<and> client_ok p' \<and> ready os srv'"
  using remote.run_refines [of os sched 0 xs "(i, p, srv)"] assms
  by (auto simp: remote_ok_def remote_field_def remote_cells_def)

theorem remote_accesses_refine_reference_witness:
  "\<exists>i' p' srv'. path_run (remote_put good_os (\<lambda>_ _. 1)) (remote_get good_os (\<lambda>_ _. 1)) (0, demo_client, demo_server)
       [Put (1, 6) [7, 8, 9], Get (1, 6) [0, 0, 0, 0], Get (1, 5) [0, 0]] =
       Inr ((i', p', srv'), [([], 0), ([7, 8, 9, 0], 3), ([11, 12], 2)])"
proof -
  let ?xs = "[Put (1, 6) [7, 8, 9], Get (1, 6) [0, 0, 0, 0], Get (1, 5) [0, 0]] :: (u16 \<times> u32) access list"
  have cells: "mem_cells demo_mem = [10, 11, 12, 13, 14, 15, 16]" by code_simp
  have r: "snd (ref_run (oop_field demo_mem) (mem_cells demo_mem) ?xs) = [([], 0), ([7, 8, 9, 0], 3), ([11, 12], 2)]"
    using demo_mem(2,3) by (simp add: cells patch_def)
  show ?thesis
    using remote_accesses_refine_reference [of good_os "\<lambda>_ _. 1" demo_client ?xs demo_server 0] demo_pair demo_mem(2,3,5) r
    by (auto simp: good_os_ok)
qed

text \<open>
  C11: the server's own access functions agree with the same reference on every sequence of reads
  and writes of known fields that stay inside the data memory.
\<close>

theorem direct_accesses_refine_reference:
  assumes "valid_mem m" and "list_all (fits_access (oop_field m) (length (mem_cells m)) 2147483647) xs"
  shows "\<exists>m'. path_run (\<lambda>m (nPn, di) data. rh_mem_data_write_oop m nPn di data (int (length data)))
         (\<lambda>m (nPn, di) buf. rh_mem_data_read_oop m nPn di buf (int (length buf))) m xs =
       Inr (m', snd (ref_run (oop_field m) (mem_cells m) xs))
     \<and> valid_mem m' \<and> mem_cells m' = fst (ref_run (oop_field m) (mem_cells m) xs)"
proof -
  have "(\<lambda>s k data. write_key s k data (int (length data))) =
      (\<lambda>m (nPn, di) data. rh_mem_data_write_oop m nPn di data (int (length data)))"
    "(\<lambda>s k buf. read_key s k buf (int (length buf))) =
      (\<lambda>m (nPn, di) buf. rh_mem_data_read_oop m nPn di buf (int (length buf)))"
    by (auto simp: write_key_def read_key_def fun_eq_iff)
  then show ?thesis using oop.link.run_refines [of m xs] assms by auto
qed

theorem direct_accesses_refine_reference_witness:
  "\<exists>m'. path_run (\<lambda>m (nPn, di) data. rh_mem_data_write_oop m nPn di data (int (length data)))
         (\<lambda>m (nPn, di) buf. rh_mem_data_read_oop m nPn di buf (int (length buf))) demo_mem
       [Put (1, 5) [1, 2], Get (1, 5) [0, 0, 0]] = Inr (m', [([], 0), ([1, 2, 0], 2)])"
proof -
  have cells: "mem_cells demo_mem = [10, 11, 12, 13, 14, 15, 16]" by code_simp
  let ?xs = "[Put (1, 5) [1, 2], Get (1, 5) [0, 0, 0]] :: (u16 \<times> u32) access list"
  have r: "snd (ref_run (oop_field demo_mem) (mem_cells demo_mem) ?xs) = [([], 0), ([1, 2, 0], 2)]"
    using demo_mem(2) by (simp add: cells patch_def)
  show ?thesis
    using direct_accesses_refine_reference [of demo_mem ?xs] demo_mem(1,2,5) r by auto
qed

lemma client_request_reaches_server:
  assumes "ready os srv" and "request seq EL_APP_NAME RH_APP_NAME iop m"
  shows "ready os (with_box m srv)" "askable (box (dp_chan (with_box m srv)) EL_KEY_ID)" "for_rh m" "tag_iop m = iop"
    "askable m"
  using assms request_askable [OF assms(2)] by (simp_all add: request_def)

lemma unserviceable:
  assumes "ready os srv" and "- 2147483648 \<le> seq" "seq < 2147483647"
  shows "(case oop_field (dp_mem srv) (nPn, di) of None \<Rightarrow> True | Some (a, n) \<Rightarrow> 128 < n \<and> n < 2 ^ 31) \<Longrightarrow>
      \<exists>m. read_req_el seq nPn di = Inr (seq + 1, m) \<and> elDbaseProc_rh os (with_box m srv) = Inl OutOfBounds"
    and "oop_field (dp_mem srv) (nPn, di) = None \<Longrightarrow> length data \<le> 128 \<Longrightarrow>
      \<exists>m. write_req_el seq nPn di data (of_nat (length data)) = Inr (seq + 1, m)
        \<and> elDbaseProc_rh os (with_box m srv) = Inl OutOfBounds"
proof -
  assume f: "case oop_field (dp_mem srv) (nPn, di) of None \<Rightarrow> True | Some (a, n) \<Rightarrow> 128 < n \<and> n < 2 ^ 31"
  obtain m where m: "read_req_el seq nPn di = Inr (seq + 1, m)" "request seq EL_APP_NAME RH_APP_NAME 0x10 m"
    "req_key m = (nPn, di)" using read_req_el_ok [OF assms(2,3)] by blast
  note c = client_request_reaches_server [OF assms(1) m(2)]
  have "read_mem_data os m (freed (with_box m srv)) = Inl OutOfBounds"
    using read_mem_data_crash [OF ready_freed [OF c(1)] c(5)] f m(3) by simp
  then show "\<exists>m. read_req_el seq nPn di = Inr (seq + 1, m) \<and> elDbaseProc_rh os (with_box m srv) = Inl OutOfBounds"
    using server_step [OF c(1,2)] c(3,4) m(1) by (simp add: Let_def)
next
  assume f: "oop_field (dp_mem srv) (nPn, di) = None" and n: "length data \<le> 128"
  obtain m k where m: "write_req_el seq nPn di data (of_nat (length data)) = Inr (seq + 1, m)"
    "request seq EL_APP_NAME RH_APP_NAME 0x11 m" "req_key m = (nPn, di)"
    and d: "xdr_get_OCTET_STRING (msg_pValue m) 6 (replicate 128 0) 128 =
        Inr (patch (replicate 128 0) 0 data, of_nat (length data), k)"
    using write_req_el_ok [OF assms(2,3) n] by blast
  note c = client_request_reaches_server [OF assms(1) m(2)]
  have "write_mem_data os m (freed (with_box m srv)) = Inl OutOfBounds"
    using write_mem_data_crash [OF ready_freed [OF c(1)] c(5) _ d] f m(3) by simp
  then show "\<exists>m. write_req_el seq nPn di data (of_nat (length data)) = Inr (seq + 1, m)
        \<and> elDbaseProc_rh os (with_box m srv) = Inl OutOfBounds"
    using server_step [OF c(1,2)] c(3,4) m(1) by (simp add: Let_def)
qed

text \<open>
  C30: a request of the energy-loss client for an unknown point or identifier ends the server: the
  handlers pass the length -1 of the failed access to the answer, whose octet string then copies
  4294967295 bytes from a buffer of 128.  A read of a field of more than 128 bytes ends it too.
\<close>

theorem unserviceable_request_faults_server:
  assumes "ready os srv" and "- 2147483648 \<le> seq" "seq < 2147483647" and "length data \<le> 128"
    and "case oop_field (dp_mem srv) (nPn, di) of None \<Rightarrow> True | Some (a, n) \<Rightarrow> 128 < n \<and> n < 2 ^ 31"
  shows "\<exists>m m'. read_req_el seq nPn di = Inr (seq + 1, m)
     \<and> elDbaseProc_rh os (with_box m srv) = Inl OutOfBounds
     \<and> write_req_el seq nPn di data (of_nat (length data)) = Inr (seq + 1, m')
     \<and> (oop_field (dp_mem srv) (nPn, di) = None \<longrightarrow> elDbaseProc_rh os (with_box m' srv) = Inl OutOfBounds)"
  using unserviceable(1) [OF assms(1-3,5)] unserviceable(2) [OF assms(1-3) _ assms(4), of nPn di]
    write_req_el_ok [OF assms(2-4), of nPn di]
  by (cases "oop_field (dp_mem srv) (nPn, di) = None") auto

theorem unserviceable_request_faults_server_witness:
  "\<exists>m m'. read_req_el 0 2 5 = Inr (1, m) \<and> elDbaseProc_rh good_os (with_box m demo_server) = Inl OutOfBounds
     \<and> write_req_el 0 2 5 [1] (of_nat (length [1 :: u8])) = Inr (1, m')
     \<and> elDbaseProc_rh good_os (with_box m' demo_server) = Inl OutOfBounds"
  using unserviceable_request_faults_server [of good_os demo_server 0 "[1]" 2 5] demo_pair demo_mem(4) by simp

text \<open>
  C37: a write of the energy-loss client to a known field is stored, and yet answered with error
  number 1, because the handler takes only a positive result of the access for a success and
  the access returns 0.
\<close>

theorem stored_write_answered_as_failed:
  assumes "ready os srv" and "- 2147483648 \<le> seq" "seq < 2147483647" and n: "length data \<le> 128"
    and f: "oop_field (dp_mem srv) (nPn, di) = Some (a, k)"
    and room: "a + length data \<le> length (mem_cells (dp_mem srv))"
  shows "\<exists>m srv'. write_req_el seq nPn di data (of_nat (length data)) = Inr (seq + 1, m)
     \<and> elDbaseProc_rh os (with_box m srv) = Inr srv' \<and> mem_cells (dp_mem srv') = patch (mem_cells (dp_mem srv)) a data
     \<and> h_state (box (dp_chan srv') EL_KEY_ID) = MSG_ACK \<and> ack_errNo (box (dp_chan srv') EL_KEY_ID) = 1"
proof -
  obtain m j where m: "write_req_el seq nPn di data (of_nat (length data)) = Inr (seq + 1, m)"
    "request seq EL_APP_NAME RH_APP_NAME 0x11 m" "req_key m = (nPn, di)"
    and d: "xdr_get_OCTET_STRING (msg_pValue m) 6 (replicate 128 0) 128 =
        Inr (patch (replicate 128 0) 0 data, of_nat (length data), j)"
    using write_req_el_ok [OF assms(2,3) n] by blast
  note c = client_request_reaches_server [OF assms(1) m(2)]
  have un: "unat (of_nat (length data) :: u32) = length data" using n by (intro unat_of_nat32) simp
  have t: "take (length data) (patch (replicate 128 0) 0 data) = data" using n by (simp add: patch_def)
  from serve_write [OF c(1,2) _ c(3,4) _ d, of a k] f m(3) un room t obtain ack mem where
    "elDbaseProc_rh os (with_box m srv) = Inr ((with_box ack (with_box m srv))\<lparr>dp_mem := mem\<rparr>)" "answers m ack"
    "ack_errNo ack = 1" "mem_cells mem = patch (mem_cells (dp_mem srv)) a data" by auto
  then show ?thesis using m(1)
    by (auto simp: answers_def intro!: exI [of _ m] exI [of _ "with_box ack (srv\<lparr>dp_mem := mem\<rparr>)"])
qed

theorem stored_write_answered_as_failed_witness:
  "\<exists>m srv'. write_req_el 0 1 5 [8, 9] (of_nat (length [8, 9 :: u8])) = Inr (1, m)
     \<and> elDbaseProc_rh good_os (with_box m demo_server) = Inr srv' \<and> mem_cells (dp_mem srv') = [10, 8, 9, 13, 14, 15, 16]
     \<and> h_state (box (dp_chan srv') EL_KEY_ID) = MSG_ACK \<and> ack_errNo (box (dp_chan srv') EL_KEY_ID) = 1"
proof -
  have cells: "mem_cells demo_mem = [10, 11, 12, 13, 14, 15, 16]" by code_simp
  then show ?thesis
    using stored_write_answered_as_failed [of good_os demo_server 0 "[8, 9]" 1 5 1 2] demo_pair demo_mem(2)
    by (simp add: patch_def)
qed

end
