(* ===== verification/RhStart.thy ===== *)
theory RhStart
  imports MemLayout EndToEnd
begin

text \<open>
  The start of the data server and of a client beside it: from a configuration the loaders accept,
  \<^verbatim>\<open>rh_mem_init\<close> reaches a state that satisfies everything the access functions and the server
  thread rely on.
\<close>

lemma EL_KEY_ID_int: "uint EL_KEY_ID = 1024" "sint (word_of_int 1024 :: u32) = 1024"
  by (simp_all add: EL_KEY_ID_def)

lemma SmMsgInit_closed:
  assumes "os_ok os" and "lock_malloc_ok os"
  shows "SmMsgInit os EL_KEY_ID ch =
     Inr ((put_box ch EL_KEY_ID ((box ch EL_KEY_ID)\<lparr>h_state := MSG_IDLE\<rparr>))\<lparr>ch_lock := LkFree\<rparr>)"
  using assms by (simp add: SmMsgInit_def get_que EL_KEY_ID_int shmat_ok SmMutexInit_def)

definition attached :: "chan \<Rightarrow> chan" where
  "attached ch = (put_box ch EL_KEY_ID ((box ch EL_KEY_ID)\<lparr>h_state := MSG_IDLE\<rparr>))\<lparr>ch_lock := LkFree\<rparr>"

lemma attached_simps [simp]:
  "ch_lock (attached ch) = LkFree" "box (attached ch) EL_KEY_ID = (box ch EL_KEY_ID)\<lparr>h_state := MSG_IDLE\<rparr>"
  by (simp_all add: attached_def del: put_box_lock)

lemma rh_mem_init_closed:
  assumes "good_points d1" and "good_cfg d2" and "\<And>s. malloc_ok env s" and "os_ok os" and "lock_malloc_ok os"
  shows "rh_mem_init os env (Some d1) (Some d2) p =
     Inr (p\<lparr>dp_mem := loaded_mem env d1 d2, dp_chan := attached (dp_chan p)\<rparr>, pthread_create_ok os, 0)"
proof -
  have "0 \<le> span (objects d2)" using span_nonneg good_cfg_lens assms(2) .
  then show ?thesis
    using point_list_load_closed [OF assms(1,3)] map_init_closed [OF assms(2,3)] assms(3)
    by (simp add: rh_mem_init_def alloc_def el_dbase_init_def SmMsgInit_closed [OF assms(4,5)] loaded_mem_def
        attached_def Let_def)
qed

lemma el_start_closed:
  assumes "os_ok os" and "lock_malloc_ok os"
  shows "el_dbase_init_el os c = Inr (c\<lparr>dp_chan := attached (dp_chan c)\<rparr>, pthread_create_ok os)"
  by (simp add: el_dbase_init_el_def el_copy SmMsgInit_closed [OF assms] attached_def)

lemma started_ready:
  assumes "good_points d1" and "good_cfg d2" and "fits_cfg d2" and "os_ok os"
  shows "ready os (p\<lparr>dp_mem := loaded_mem env d1 d2, dp_chan := attached (dp_chan p)\<rparr>)"
  using valid_loaded [OF assms(1-3)] assms(4) by (simp add: ready_def)

text \<open>
  C22: started on a configuration the loaders accept, with memory and the operating system's objects
  available, \<^verbatim>\<open>rh_mem_init\<close> returns 0 with the index and the point tables the configuration
  describes, a zeroed data memory of the summed object lengths, and a state in which the server
  thread can serve: valid memory, free mutex, idle mailbox.
\<close>

theorem server_start_establishes_ready:
  assumes "good_points d1" and "good_cfg d2" and "fits_cfg d2" and "\<And>s. malloc_ok env s" and "os_ok os"
    and "lock_malloc_ok os"
  shows "\<exists>p'. rh_mem_init os env (Some d1) (Some d2) p = Inr (p', pthread_create_ok os, 0)
     \<and> dp_mem p' = \<lparr>s_pointMap = pointMap_of env d1, s_memMap = index_of env d2,
         s_pDataMem = Some (replicate (nat (span (objects d2))) 0)\<rparr>
     \<and> valid_mem (dp_mem p') \<and> ch_lock (dp_chan p') = LkFree \<and> h_state (box (dp_chan p') EL_KEY_ID) = MSG_IDLE"
  using rh_mem_init_closed [OF assms(1,2,4-6), of p] started_ready [OF assms(1-3,5), of p env]
  by (simp add: ready_def loaded_mem_def)

theorem server_start_establishes_ready_witness:
  "\<exists>p'. rh_mem_init good_os demo_env (Some demo_doc) (Some demo_doc) demo_server = Inr (p', True, 0)
     \<and> valid_mem (dp_mem p') \<and> length (mem_cells (dp_mem p')) = 12"
proof -
  have s: "span (objects demo_doc) = 12" by code_simp
  have m: "malloc_ok demo_env x" for x by (simp add: demo_env_def)
  have o: "lock_malloc_ok good_os" "pthread_create_ok good_os" by (simp_all add: good_os_def)
  show ?thesis
    using server_start_establishes_ready [OF demo_doc m good_os_ok o(1), of demo_server] s o(2)
    by (auto simp: mem_cells_def)
qed

text \<open>
  A client started after the server, on the segment the server has created.
\<close>

definition client_beside :: "rh_proc \<Rightarrow> dbase_proc" where
  "client_beside p = \<lparr>dp_chan = (dp_chan p)\<lparr>ch_lock := LkNull\<rparr>, dp_seq = 0\<rparr>"

lemma client_started_ok:
  assumes "terminated (h_szDest (box (dp_chan p) EL_KEY_ID))"
  shows "client_ok ((client_beside p)\<lparr>dp_chan := attached (dp_chan (client_beside p))\<rparr>)"
  using assms by (simp add: client_ok_def client_beside_def)

lemma loaded_cells: "mem_cells (loaded_mem env d1 d2) = replicate (nat (span (objects d2))) 0"
  by (simp add: loaded_mem_def mem_cells_def)

text \<open>
  C1: the whole path from the configuration file: start the server on a fresh segment, then the
  client; every sequence of reads and writes of configured fields then behaves as on the zeroed
  memory the configuration lays out.
\<close>

theorem started_system_refines_reference:
  assumes "good_points d1" and "good_cfg d2" and "fits_cfg d2" and "\<And>s. malloc_ok env s" and "os_ok os"
    and "lock_malloc_ok os" and "\<forall>i. scheduled (sched i)" and "terminated (h_szDest (box (dp_chan p) EL_KEY_ID))"
    and len: "int (length xs) < 2147483647"
    and fits: "list_all (fits_access (oop_field (loaded_mem env d1 d2)) (nat (span (objects d2))) 128) xs"
  shows "\<exists>srv c s'. rh_mem_init os env (Some d1) (Some d2) p = Inr (srv, pthread_create_ok os, 0)
     \<and> el_dbase_init_el os (client_beside srv) = Inr (c, pthread_create_ok os)
     \<and> path_run (remote_put os sched) (remote_get os sched) (0, c, srv) xs =
         Inr (s', snd (ref_run (oop_field (loaded_mem env d1 d2)) (replicate (nat (span (objects d2))) 0) xs))"
proof -
  let ?srv = "p\<lparr>dp_mem := loaded_mem env d1 d2, dp_chan := attached (dp_chan p)\<rparr>"
  let ?c = "(client_beside ?srv)\<lparr>dp_chan := attached (dp_chan (client_beside ?srv))\<rparr>"
  have "client_ok ?c" using assms(8) by (intro client_started_ok) simp
  moreover have "dp_seq ?c = 0" by (simp add: client_beside_def)
  ultimately have "remote_ok os sched (0 + length xs) (0, ?c, ?srv)"
    using started_ready [OF assms(1-3,5), of p env] assms(7) len by (simp add: remote_ok_def)
  from remote.run_refines [OF this, unfolded remote_field_def remote_cells_def] fits
  obtain s' where "path_run (remote_put os sched) (remote_get os sched) (0, ?c, ?srv) xs =
      Inr (s', snd (ref_run (oop_field (loaded_mem env d1 d2)) (replicate (nat (span (objects d2))) 0) xs))"
    by (auto simp: loaded_cells)
  then show ?thesis
    using rh_mem_init_closed [OF assms(1,2,4-6), of p] el_start_closed [OF assms(5,6)] by blast
qed

lemma demo_loaded: "oop_field (loaded_mem demo_env demo_doc demo_doc) (1, 0x00010000) = Some (4, 4)"
  "oop_field (loaded_mem demo_env demo_doc demo_doc) (1, 0x0001ff01) = Some (8, 4)"
  by code_simp+

theorem started_system_refines_reference_witness:
  "\<exists>srv c s'. rh_mem_init good_os demo_env (Some demo_doc) (Some demo_doc) demo_server = Inr (srv, True, 0)
     \<and> el_dbase_init_el good_os (client_beside srv) = Inr (c, True)
     \<and> path_run (remote_put good_os (\<lambda>_ _. 1)) (remote_get good_os (\<lambda>_ _. 1)) (0, c, srv)
         [Put (1, 0x0001ff01) [1, 2, 3, 4], Get (1, 0x0001ff01) [9, 9, 9, 9], Get (1, 0x00010000) [9, 9, 9, 9]] =
         Inr (s', [([], 0), ([1, 2, 3, 4], 4), ([0, 0, 0, 0], 4)])"
proof -
  let ?xs = "[Put (1, 0x0001ff01) [1, 2, 3, 4], Get (1, 0x0001ff01) [9, 9, 9, 9], Get (1, 0x00010000) [9, 9, 9, 9]]
      :: (u16 \<times> u32) access list"
  let ?m = "loaded_mem demo_env demo_doc demo_doc"
  have s: "span (objects demo_doc) = 12" by code_simp
  have m: "malloc_ok demo_env x" for x by (simp add: demo_env_def)
  have o: "lock_malloc_ok good_os" "pthread_create_ok good_os" by (simp_all add: good_os_def)
  have t: "terminated (h_szDest (box (dp_chan demo_server) EL_KEY_ID))"
    by (simp add: demo_server_def demo_box idle_box_def zero_msg_def terminated_def)
  have r: "snd (ref_run (oop_field ?m) (replicate 12 0) ?xs) = [([], 0), ([1, 2, 3, 4], 4), ([0, 0, 0, 0], 4)]"
    using demo_loaded by (simp add: patch_def) (simp add: eval_nat_numeral)
  have f: "list_all (fits_access (oop_field ?m) (nat (span (objects demo_doc))) 128) ?xs"
    using demo_loaded by (simp add: s)
  show ?thesis
    using started_system_refines_reference [OF demo_doc m good_os_ok o(1) _ t _ f, of "\<lambda>_ _. 1"] demo_pair(5) r o(2)
    by (simp add: s)
qed

end
