(* ===== verification/ClientServer.thy ===== *)
theory ClientServer
  imports ElDbase
begin

text \<open>
  \<^verbatim>\<open>client/\<close> and \<^verbatim>\<open>server/\<close>: the two test programs of the message channel.  Their
  \<^verbatim>\<open>elDbase.c\<close> differ in two lines: the name an answer carries as its source and the name the
  thread receives under.  Their application name \<^verbatim>\<open>rhAPP\<close> is not the \<^verbatim>\<open>rhApp\<close> of \<^verbatim>\<open>code/\<close>.
  The definitions carry the suffix \<open>cl\<close> or \<open>sv\<close>.
\<close>

definition RH_APP_NAME_cs :: "u8 list" where "RH_APP_NAME_cs = cstr ''rhAPP''"
definition EL_APP_NAME_cs :: "u8 list" where "EL_APP_NAME_cs = cstr ''elAPP''"
definition IID_EL_DBASE :: u16 where "IID_EL_DBASE = 1"
definition WAITE_TIMEOUT_cs :: u32 where "WAITE_TIMEOUT_cs = 180"

section \<open>Requests\<close>

text \<open>
  \<^verbatim>\<open>el_read_data\<close> copies from \<^verbatim>\<open>&inBuf\<close>, the pointer variable itself: \<open>inBuf_var\<close> are the
  bytes of that variable, which the address of the caller's buffer determines, not its content.
\<close>

definition read_req_cs :: "int \<Rightarrow> u8 list \<Rightarrow> int \<Rightarrow> (int \<times> RH_MSG_BUFFER_T) res" where
  "read_req_cs seq inBuf_var len =
     bindR (new_req seq EL_APP_NAME_cs RH_APP_NAME_cs IID_EL_DBASE IOP_DBASE_READ) (\<lambda>(seq, m).
     let m = set_nSize (word_of_int len) m in
     bindR (memcpy (msg_pValue m) 0 inBuf_var 0 (unat (word_of_int len :: u32))) (\<lambda>b.
       Inr (seq, set_msg_pValue b m)))"

text \<open>\<^verbatim>\<open>el_write_data\<close> leaves \<^verbatim>\<open>szDest\<close> empty.\<close>

definition write_req_cs :: "int \<Rightarrow> u8 list \<Rightarrow> int \<Rightarrow> (int \<times> RH_MSG_BUFFER_T) res" where
  "write_req_cs seq buf nSize =
     (let m = zero_msg\<lparr>h_state := MSG_REQ, h_sync := 1, h_index := word_of_int seq\<rparr> in
      bindR (addi seq 1) (\<lambda>seq.
      bindR (set_srce EL_APP_NAME_cs m) (\<lambda>m.
      let m = set_iop (ucast IOP_DBASE_WRITE) (set_iid IID_EL_DBASE m) in
      bindR (memcpy (msg_pValue m) 0 buf 0 (unat (word_of_int nSize :: u32))) (\<lambda>b.
        Inr (seq, set_nSize (word_of_int nSize) (set_msg_pValue b m))))))"

definition el_read_data_cl ::
  "os_env \<Rightarrow> 'w tick_env \<Rightarrow> u16 \<Rightarrow> u8 list \<Rightarrow> int \<Rightarrow> u8 list \<Rightarrow> int \<Rightarrow> dbase_proc \<Rightarrow> 'w \<Rightarrow>
   (dbase_proc \<times> 'w \<times> u8 list \<times> int) res" where
  "el_read_data_cl os env nPn inBuf_var len outBuf nSize p w =
     bindR (read_req_cs (dp_seq p) inBuf_var len) (\<lambda>(seq, pMsgSend).
     bindR (SmMsgSendWait_cl os env EL_APP_NAME_cs EL_KEY_ID pMsgSend zero_msg WAITE_TIMEOUT_cs (dp_chan p) w)
       (\<lambda>(ch, w, pMsgRet, nRet).
     let p = p\<lparr>dp_chan := ch, dp_seq := seq\<rparr> in
     if nRet = 0 \<and> uint (nSize_of pMsgRet) \<le> nSize
     then bindR (memcpy outBuf 0 (ack_pValue pMsgRet) 0 (unat (nSize_of pMsgRet))) (\<lambda>outBuf.
            Inr (p, w, outBuf, nRet))
     else Inr (p, w, outBuf, nRet)))"

definition el_write_data_cl ::
  "os_env \<Rightarrow> 'w tick_env \<Rightarrow> u16 \<Rightarrow> u8 list \<Rightarrow> int \<Rightarrow> dbase_proc \<Rightarrow> 'w \<Rightarrow>
   (dbase_proc \<times> 'w \<times> int) res" where
  "el_write_data_cl os env nPn buf nSize p w =
     bindR (write_req_cs (dp_seq p) buf nSize) (\<lambda>(seq, pMsgSend).
     bindR (SmMsgSendWait_cl os env EL_APP_NAME_cs EL_KEY_ID pMsgSend zero_msg WAITE_TIMEOUT_cs (dp_chan p) w)
       (\<lambda>(ch, w, pMsgRet, nRet). Inr (p\<lparr>dp_chan := ch, dp_seq := seq\<rparr>, w, nRet)))"

definition el_read_data_sv ::
  "os_env \<Rightarrow> 'w tick_env \<Rightarrow> u16 \<Rightarrow> u8 list \<Rightarrow> int \<Rightarrow> u8 list \<Rightarrow> int \<Rightarrow> dbase_proc \<Rightarrow> 'w \<Rightarrow>
   (dbase_proc \<times> 'w \<times> u8 list \<times> int) res" where
  "el_read_data_sv os env nPn inBuf_var len outBuf nSize p w =
     bindR (read_req_cs (dp_seq p) inBuf_var len) (\<lambda>(seq, pMsgSend).
     bindR (SmMsgSendWait_sv os env EL_APP_NAME_cs EL_KEY_ID pMsgSend zero_msg WAITE_TIMEOUT_cs (dp_chan p) w)
       (\<lambda>(ch, w, pMsgRet, nRet).
     let p = p\<lparr>dp_chan := ch, dp_seq := seq\<rparr> in
     if nRet = 0 \<and> uint (nSize_of pMsgRet) \<le> nSize
     then bindR (memcpy outBuf 0 (ack_pValue pMsgRet) 0 (unat (nSize_of pMsgRet))) (\<lambda>outBuf.
            Inr (p, w, outBuf, nRet))
     else Inr (p, w, outBuf, nRet)))"

definition el_write_data_sv ::
  "os_env \<Rightarrow> 'w tick_env \<Rightarrow> u16 \<Rightarrow> u8 list \<Rightarrow> int \<Rightarrow> dbase_proc \<Rightarrow> 'w \<Rightarrow>
   (dbase_proc \<times> 'w \<times> int) res" where
  "el_write_data_sv os env nPn buf nSize p w =
     bindR (write_req_cs (dp_seq p) buf nSize) (\<lambda>(seq, pMsgSend).
     bindR (SmMsgSendWait_sv os env EL_APP_NAME_cs EL_KEY_ID pMsgSend zero_msg WAITE_TIMEOUT_cs (dp_chan p) w)
       (\<lambda>(ch, w, pMsgRet, nRet). Inr (p\<lparr>dp_chan := ch, dp_seq := seq\<rparr>, w, nRet)))"

section \<open>Answers\<close>

definition echo_msg_cs :: "u8 list \<Rightarrow> int \<Rightarrow> RH_MSG_BUFFER_T \<Rightarrow> u8 list \<Rightarrow> int \<Rightarrow> RH_MSG_BUFFER_T res" where
  "echo_msg_cs name nErrNo pMsgRecv buf len =
     (let m = zero_msg\<lparr>h_state := MSG_ACK, h_sync := h_sync pMsgRecv, h_index := h_index pMsgRecv\<rparr> in
      bindR (set_srce name m) (\<lambda>m.
      bindR (set_dest (h_szSrce pMsgRecv) m) (\<lambda>m.
      let m = set_nSize (word_of_int len) (set_errNo nErrNo
                (set_iop (tag_iid pMsgRecv) (set_iid IID_EL_DBASE m))) in
      bindR (memcpy (ack_pValue m) 0 buf 0 (unat (word_of_int len :: u32))) (\<lambda>b.
        Inr (set_ack_pValue b m)))))"

definition el_msg_echo_cl ::
  "os_env \<Rightarrow> int \<Rightarrow> RH_MSG_BUFFER_T \<Rightarrow> u8 list \<Rightarrow> int \<Rightarrow> dbase_proc \<Rightarrow> dbase_proc res" where
  "el_msg_echo_cl os nErrNo pMsgRecv buf len p =
     bindR (echo_msg_cs RH_APP_NAME_cs nErrNo pMsgRecv buf len) (\<lambda>m.
     bindR (SmMsgSendEcho_cl os EL_KEY_ID m (dp_chan p)) (\<lambda>(ch, _). Inr (p\<lparr>dp_chan := ch\<rparr>)))"

definition el_msg_echo_sv ::
  "os_env \<Rightarrow> int \<Rightarrow> RH_MSG_BUFFER_T \<Rightarrow> u8 list \<Rightarrow> int \<Rightarrow> dbase_proc \<Rightarrow> dbase_proc res" where
  "el_msg_echo_sv os nErrNo pMsgRecv buf len p =
     bindR (echo_msg_cs EL_APP_NAME_cs nErrNo pMsgRecv buf len) (\<lambda>m.
     bindR (SmMsgSendEcho_sv os EL_KEY_ID m (dp_chan p)) (\<lambda>(ch, _). Inr (p\<lparr>dp_chan := ch\<rparr>)))"

definition read_test_cl :: "os_env \<Rightarrow> RH_MSG_BUFFER_T \<Rightarrow> dbase_proc \<Rightarrow> (dbase_proc \<times> int) res" where
  "read_test_cl os pMsg p =
     bindR (el_msg_echo_cl os 0 pMsg [0x12, 0x34, 0x56, 0x78] 4 p) (\<lambda>p. Inr (p, 0))"

definition read_test_sv :: "os_env \<Rightarrow> RH_MSG_BUFFER_T \<Rightarrow> dbase_proc \<Rightarrow> (dbase_proc \<times> int) res" where
  "read_test_sv os pMsg p =
     bindR (el_msg_echo_sv os 0 pMsg [0x12, 0x34, 0x56, 0x78] 4 p) (\<lambda>p. Inr (p, 0))"

section \<open>The threads\<close>

definition s_dbaseMsgMap_cl :: "(u8 \<times> dbase_proc handler option) list" where
  "s_dbaseMsgMap_cl = [(IOP_DBASE_READ, Some read_test_cl)]"

definition s_dbaseMsgMap_sv :: "(u8 \<times> dbase_proc handler option) list" where
  "s_dbaseMsgMap_sv = [(IOP_DBASE_READ, Some read_test_sv)]"

definition elDbaseProc_cl :: "os_env \<Rightarrow> dbase_proc \<Rightarrow> dbase_proc res" where
  "elDbaseProc_cl os p =
     bindR (SmMsgRecv_cl os RH_APP_NAME_cs EL_KEY_ID zero_msg (dp_chan p)) (\<lambda>(ch, RecvMsg, r).
     let p = p\<lparr>dp_chan := ch\<rparr> in
     if r = 0 then dispatch s_dbaseMsgMap_cl os RecvMsg p else Inr p)"

definition elDbaseProc_sv :: "os_env \<Rightarrow> dbase_proc \<Rightarrow> dbase_proc res" where
  "elDbaseProc_sv os p =
     bindR (SmMsgRecv_sv os EL_APP_NAME_cs EL_KEY_ID zero_msg (dp_chan p)) (\<lambda>(ch, RecvMsg, r).
     let p = p\<lparr>dp_chan := ch\<rparr> in
     if r = 0 then dispatch s_dbaseMsgMap_sv os RecvMsg p else Inr p)"

text \<open>
  \<^verbatim>\<open>el_dbase_init\<close> of \<^verbatim>\<open>client/\<close> and \<^verbatim>\<open>server/\<close> up to the endless sleep it ends in.
\<close>

definition el_dbase_init_cl :: "os_env \<Rightarrow> dbase_proc \<Rightarrow> (dbase_proc \<times> bool) res" where
  "el_dbase_init_cl os p =
     bindR (SmMsgInit_cl os EL_KEY_ID (dp_chan p)) (\<lambda>ch. Inr (p\<lparr>dp_chan := ch\<rparr>, pthread_create_ok os))"

definition el_dbase_init_sv :: "os_env \<Rightarrow> dbase_proc \<Rightarrow> (dbase_proc \<times> bool) res" where
  "el_dbase_init_sv os p =
     bindR (SmMsgInit_sv os EL_KEY_ID (dp_chan p)) (\<lambda>ch. Inr (p\<lparr>dp_chan := ch\<rparr>, pthread_create_ok os))"

end
