(* ===== verification/ProgramPairs.thy ===== *)
theory ProgramPairs
  imports ClientServer EndToEnd
begin

text \<open>
  How the other programs fit together: the answers of the energy-loss application, the reads the
  data server makes itself, and the two test programs \<^verbatim>\<open>client/\<close> and \<^verbatim>\<open>server/\<close>.
\<close>

section \<open>The answers of the energy-loss application\<close>

lemma ack_head:
  assumes "terminated name" and "length (ccont name) < 64" and "wf_msg req" and "terminated (h_szSrce req)"
  shows "\<exists>m1 m2. set_srce name (zero_msg\<lparr>h_state := MSG_ACK, h_sync := h_sync req, h_index := h_index req\<rparr>) = Inr m1
     \<and> set_dest (h_szSrce req) m1 = Inr m2 \<and> wf_msg m2 \<and> h_state m2 = MSG_ACK \<and> h_sync m2 = h_sync req
     \<and> h_index m2 = h_index req \<and> terminated (h_szDest m2) \<and> ccont (h_szDest m2) = ccont (h_szSrce req)"
proof -
  let ?m0 = "zero_msg\<lparr>h_state := MSG_ACK, h_sync := h_sync req, h_index := h_index req\<rparr>"
  obtain m1 where 1: "set_srce name ?m0 = Inr m1"
    using set_srce_fits [OF assms(1), of ?m0] assms(2) by (auto simp: zero_msg_def)
  note s = set_srce_Inr [OF 1]
  have "length (ccont (h_szSrce req)) < length (h_szDest m1)"
    using ccont_shorter [OF assms(4)] assms(3) s by (simp add: wf_msg_def zero_msg_def)
  then obtain m2 where 2: "set_dest (h_szSrce req) m1 = Inr m2" using set_dest_fits assms(4) by blast
  show ?thesis using 1 2 s set_dest_Inr [OF 2] by simp
qed

text \<open>
  the answer the energy-loss application builds loses its error number: the payload is stored
  through the request's view of the union, which begins four bytes earlier, so the receiver
  reads the length byte and the first data bytes as the error number, whatever it was; and the
  operation code of the answer is the interface number of the request.
\<close>

theorem el_answer_overwrites_errNo:
  assumes "wf_msg req" and "terminated (h_szSrce req)" and n: "3 \<le> n" "n \<le> length buf" "n \<le> 2000"
  shows "\<exists>ack. echo_msg_el e req buf (int n) = Inr ack
     \<and> ack_errNo ack = sint (u32_le (take 4 (enc_variantlen (of_nat n) @ take n buf)))
     \<and> tag_iop ack = tag_iid req"
proof -
  obtain m1 m2 where m: "set_srce EL_APP_NAME (zero_msg\<lparr>h_state := MSG_ACK, h_sync := h_sync req, h_index := h_index req\<rparr>) = Inr m1"
    "set_dest (h_szSrce req) m1 = Inr m2" and w: "wf_msg m2"
    using ack_head [OF app_names(2) el_names(1) assms(1,2)] by blast
  let ?m = "set_errNo e (set_iop (tag_iid req) (set_iid IID_EL m2))" and ?x = "enc_variantlen (of_nat n) @ take n buf"
  have wm: "wf_msg ?m" using w by simp
  have un: "unat (of_nat n :: u32) = n" using n by (intro unat_of_nat32) simp
  have lx: "4 \<le> length ?x" "length ?x \<le> 2048"
    using n length_enc_le5 [of "of_nat n"] length_enc_variantlen [of "of_nat n"] by auto
  let ?b = "patch (msg_pValue ?m) 0 ?x"
  have lb: "length ?b = 2048" using wm lx by simp
  have tb: "take 4 ?b = take 4 ?x" using lx(1) by (simp add: patch_def)
  have "xdr_add_OCTET_STRING (msg_pValue ?m) 0 buf (word_of_int (int n)) =
      Inr (?b, int (length (enc_variantlen (of_nat n))) + uint (of_nat n :: u32))"
    using add_OCTET_STRING_closed [of "of_nat n" buf "msg_pValue ?m" 0] n(2) lx(2) wm un by simp
  then have "echo_msg_el e req buf (int n) =
      Inr (set_nSize (word_of_int (int (length (enc_variantlen (of_nat n))) + uint (of_nat n :: u32))) (set_msg_pValue ?b ?m))"
    using m by (simp add: echo_msg_el_def el_copy Let_def)
  moreover have "wf_msg (set_msg_pValue ?b ?m)" using wm lb by (rule union_payload(8))
  moreover have "ack_errNo (set_msg_pValue ?b ?m) = sint (u32_le (take 4 ?x))"
    using errNo_overlaps_payload [OF wm lb] tb by simp
  moreover have "tag_iop (set_msg_pValue ?b ?m) = tag_iid req" using wm lb w by simp
  ultimately show ?thesis by simp
qed

theorem el_answer_overwrites_errNo_witness:
  "\<exists>ack. echo_msg_el 0 demo_req [0x04, 0x12, 0x34, 0x56, 0x78] (int 5) = Inr ack \<and> ack_errNo ack = 0x34120405
     \<and> tag_iop ack = tag_iid demo_req"
proof -
  have "wf_msg demo_req" "terminated (h_szSrce demo_req)"
    by (simp_all add: demo_req_def) (simp add: zero_msg_def terminated_def)
  moreover have "sint (u32_le (take 4 (enc_variantlen (of_nat 5) @ take 5 [0x04, 0x12, 0x34, 0x56, 0x78]))) = 0x34120405"
    by code_simp
  ultimately show ?thesis
    using el_answer_overwrites_errNo [of demo_req 5 "[0x04, 0x12, 0x34, 0x56, 0x78]" 0] by simp
qed

section \<open>The reads of the data server\<close>

lemma read_req_rh_sender:
  assumes "read_req_rh seq nPn di = Inr (seq', m)"
  shows "terminated (h_szSrce m) \<and> ccont (h_szSrce m) = ccont RH_APP_NAME"
proof -
  from assms obtain m1 where 1: "new_req seq RH_APP_NAME EL_APP_NAME IID_EL IOP_DBASE_READ = Inr (seq', m1)"
    and "h_szSrce m = h_szSrce m1" by (auto simp: read_req_rh_def bindR_eq_Inr)
  moreover from 1 obtain m2 m3 m4 where "set_srce RH_APP_NAME m2 = Inr m3" "set_dest EL_APP_NAME m3 = Inr m4"
    "h_szSrce m1 = h_szSrce m4" by (auto simp: new_req_def bindR_eq_Inr Let_def)
  ultimately show ?thesis using set_srce_Inr [of RH_APP_NAME m2 m3] set_dest_Inr [of EL_APP_NAME m3 m4] by simp
qed

lemma read_req_rh_ok:
  assumes "- 2147483648 \<le> seq" "seq < 2147483647"
  shows "\<exists>m. read_req_rh seq nPn di = Inr (seq + 1, m)"
proof -
  obtain m where m: "new_req seq RH_APP_NAME EL_APP_NAME IID_EL IOP_DBASE_READ = Inr (seq + 1, m)"
    and r: "request seq RH_APP_NAME EL_APP_NAME 0x10 m"
    using new_req_ok [OF assms app_names(1) el_names(2) app_names(2) el_names(1), of IID_EL IOP_DBASE_READ]
    by (auto simp: ucast_iop)
  have "length (msg_pValue m) = 2048" using r by (simp add: request_def)
  then show ?thesis using m add_pn_id_closed by (simp add: read_req_rh_def)
qed

lemma wait_under_other_name:
  assumes "os_ok os" and "ch_lock ch = LkFree" and "terminated name" and "ccont (h_szSrce m) \<noteq> ccont name"
  shows "SmMsgSendWait os env name key m pRet W ch w = Inr (ch', w', ret, 0) \<Longrightarrow> \<not> answers m ret"
    and "(\<And>k sw. h_state (fst (env k sw)) = MSG_ACK \<Longrightarrow> h_index (fst (env k sw)) = h_index m \<Longrightarrow> answers m (fst (env k sw))) \<Longrightarrow>
      \<exists>ch' w' r. SmMsgSendWait os env name key m pRet W ch w = Inr (ch', w', pRet, r) \<and> (r = - 3 \<or> r = - 4)"
proof -
  let ?r = "SmMsgSendWait os env name key m pRet W ch w"
  have any: "case ?r of
       Inl e \<Rightarrow> e = NoTerminator \<and> (\<exists>n j. unreadable m (seen env m (box ch key, w) n j))
     | Inr (ch', w', ret, r) \<Rightarrow> send_ok name key m pRet ch ch' ret r
         \<and> (r = 0 \<longrightarrow> (\<exists>n j. ret = seen env m (box ch key, w) n j))"
    unfolding SmMsgSendWait_def by (rule send_wait_any) (simp_all add: assms)
  have no: "\<not> answers m ret" if "matches name m ret" for ret
    using that assms(4) by (auto simp: matches_def answers_def)
  show "\<not> answers m ret" if "?r = Inr (ch', w', ret, 0)"
    using any no [of ret] unfolding that by (simp add: send_ok_def)
  assume reply: "\<And>k sw. h_state (fst (env k sw)) = MSG_ACK \<Longrightarrow> h_index (fst (env k sw)) = h_index m \<Longrightarrow> answers m (fst (env k sw))"
  have ack: "answers m (seen env m sw n j)"
    if "h_state (seen env m sw n j) = MSG_ACK" "h_index (seen env m sw n j) = h_index m" for sw n j
    using that reply seen_image [of env m sw n j] by metis
  show "\<exists>ch' w' r. ?r = Inr (ch', w', pRet, r) \<and> (r = - 3 \<or> r = - 4)"
  proof (cases ?r)
    case (Inl e)
    then obtain n j where "unreadable m (seen env m (box ch key, w) n j)" using any by auto
    then have False using ack [of "(box ch key, w)" n j] by (simp add: unreadable_def answers_def)
    then show ?thesis ..
  next
    case (Inr z)
    obtain ch' w' ret r where z: "z = (ch', w', ret, r)" by (cases z)
    with any Inr have s: "send_ok name key m pRet ch ch' ret r"
      and o: "r = 0 \<longrightarrow> (\<exists>n j. ret = seen env m (box ch key, w) n j)" by simp_all
    have "\<not> matches name m ret" if "r = 0"
      using that o ack no [of ret] by (auto simp: matches_def)
    then show ?thesis using s Inr z by (auto simp: send_ok_def)
  qed
qed

text \<open>
  C38: the data server's own \<^verbatim>\<open>el_read_data\<close> sends its request under the name \<^verbatim>\<open>rhApp\<close> but waits for an
  acknowledgement to \<^verbatim>\<open>elAPP\<close>.  So whatever happens in the mailbox, no message with which the wait
  succeeds is an answer to the request; and when the acknowledgements with the request's index are
  answers to it (addressed, as an answer is, to the sender), the read returns -3 or -4 with the
  caller's buffer untouched, whatever is done with other messages.
\<close>

theorem server_reads_never_answered:
  assumes "os_ok os" and "ch_lock (dp_chan p) = LkFree" and "read_req_rh (dp_seq p) nPn di = Inr (seq', m)"
  shows "(\<forall>ch' w' ret. SmMsgSendWait os env EL_APP_NAME EL_KEY_ID m zero_msg WAITE_TIMEOUT (dp_chan p) w = Inr (ch', w', ret, 0)
         \<longrightarrow> \<not> answers m ret)
     \<and> ((\<forall>k sw. h_state (fst (env k sw)) = MSG_ACK \<and> h_index (fst (env k sw)) = h_index m \<longrightarrow> answers m (fst (env k sw)))
         \<longrightarrow> (\<exists>p' w' r. el_read_data_rh os env nPn di outBuf nSize p w = Inr (p', w', outBuf, r) \<and> (r = - 3 \<or> r = - 4)))"
proof -
  have "ccont (h_szSrce m) \<noteq> ccont EL_APP_NAME" using read_req_rh_sender [OF assms(3)] by (simp add: app_names)
  note wait = wait_under_other_name [OF assms(1,2) app_names(2) this, of env EL_KEY_ID zero_msg WAITE_TIMEOUT w]
  have "\<exists>p' w' r. el_read_data_rh os env nPn di outBuf nSize p w = Inr (p', w', outBuf, r) \<and> (r = - 3 \<or> r = - 4)"
    if reply: "\<forall>k sw. h_state (fst (env k sw)) = MSG_ACK \<and> h_index (fst (env k sw)) = h_index m \<longrightarrow> answers m (fst (env k sw))"
  proof -
    obtain ch' w' r where "SmMsgSendWait os env EL_APP_NAME EL_KEY_ID m zero_msg WAITE_TIMEOUT (dp_chan p) w = Inr (ch', w', zero_msg, r)"
      "r = - 3 \<or> r = - 4" using wait(2) reply by blast
    then show ?thesis by (auto simp: el_read_data_rh_def assms(3) Let_def)
  qed
  then show ?thesis using wait(1) by blast
qed

text \<open>The witness: a partner that answers the request to its sender, and the reading all the same fails.\<close>

definition replying :: "RH_MSG_BUFFER_T \<Rightarrow> 'w tick_env" where
  "replying m = (\<lambda>k (seg, w). (if seg = m then m\<lparr>h_state := MSG_ACK, h_szDest := h_szSrce m\<rparr> else zero_msg\<lparr>h_state := MSG_IDLE\<rparr>, w))"

theorem server_reads_never_answered_witness:
  "\<exists>m p' w' r. read_req_rh 0 1 5 = Inr (1, m)
     \<and> el_read_data_rh good_os (replying m) 1 5 [0, 0] 2 demo_server () = Inr (p', w', [0, 0], r) \<and> (r = - 3 \<or> r = - 4)"
proof -
  obtain m where m: "read_req_rh 0 1 5 = Inr (1, m)" using read_req_rh_ok [of 0 1 5] by auto
  have "wf_msg m"
  proof -
    obtain m1 b where "new_req 0 RH_APP_NAME EL_APP_NAME IID_EL IOP_DBASE_READ = Inr (1, m1)"
      and b: "add_pn_id 1 5 (msg_pValue m1) = Inr b" "m = set_nSize (word_of_int (snd b)) (set_msg_pValue (fst b) m1)"
      using m by (auto simp: read_req_rh_def bindR_eq_Inr)
    moreover have "length (ccont EL_APP_NAME) < 64" "length (ccont RH_APP_NAME) < 64" by (simp_all add: app_names)
    ultimately have "wf_msg m1"
      using new_req_ok [of 0, OF _ _ app_names(1) _ app_names(2), of IID_EL IOP_DBASE_READ] by (auto simp: request_def)
    moreover have "length (fst b) = 2048"
      using b(1) add_pn_id_closed [of "msg_pValue m1" 1 5] \<open>wf_msg m1\<close> by (auto simp: wf_msg_def)
    ultimately show ?thesis using b(2) by simp
  qed
  then have "answers m (m\<lparr>h_state := MSG_ACK, h_szDest := h_szSrce m\<rparr>)"
    using read_req_rh_sender [OF m] by (simp add: answers_def wf_msg_def tag_iop_def win_def)
  then have "\<forall>k sw. h_state (fst (replying m k sw)) = MSG_ACK \<and> h_index (fst (replying m k sw)) = h_index m \<longrightarrow>
      answers m (fst (replying m k (sw :: RH_MSG_BUFFER_T \<times> unit)))" by (simp add: replying_def case_prod_beta)
  moreover have "ch_lock (dp_chan demo_server) = LkFree" "dp_seq demo_server = 0" by (simp_all add: demo_server_def)
  ultimately show ?thesis
    using server_reads_never_answered [OF good_os_ok, of demo_server 1 5 1 m "replying m" "()" "[0, 0]" 2] m by auto
qed

section \<open>The test programs\<close>

lemma cs_names:
  "terminated RH_APP_NAME_cs" "terminated EL_APP_NAME_cs"
  "ccont RH_APP_NAME_cs = [114, 104, 65, 80, 80]" "ccont EL_APP_NAME_cs = [101, 108, 65, 80, 80]"
  by (simp_all add: RH_APP_NAME_cs_def EL_APP_NAME_cs_def cstr_def terminated_def ccont_def)

lemma write_req_cs_dest:
  assumes "write_req_cs seq buf n = Inr (seq', m)"
  shows "terminated (h_szDest m)" "ccont (h_szDest m) = []"
proof -
  from assms have "h_szDest m = replicate 64 0"
    by (auto simp: write_req_cs_def bindR_eq_Inr Let_def set_srce_def zero_msg_def)
  then show "terminated (h_szDest m)" "ccont (h_szDest m) = []" by (simp_all add: terminated_def ccont_def)
qed

lemma recv_not_for:
  assumes "os_ok os" and "terminated name" and "terminated (h_szDest (box ch key))"
    and "ccont (h_szDest (box ch key)) \<noteq> ccont name"
  shows "\<exists>r. SmMsgRecv os name key zero_msg ch = Inr (put_box ch key (box ch key), zero_msg, r) \<and> r < 0"
  using SmMsgRecv_closed [OF assms(1-3), of zero_msg] assms(4) by (simp add: Let_def)

text \<open>
  the test programs' \<^verbatim>\<open>el_write_data\<close> sends a request without addressee; neither program's
  thread, nor the data server's, ever takes it.
\<close>

theorem test_write_never_taken:
  assumes "os_ok os" and "write_req_cs seq buf n = Inr (seq', m)" and "box (dp_chan p) EL_KEY_ID = m"
    and "box (dp_chan q) EL_KEY_ID = m"
  shows "\<exists>p1 p2 q1. elDbaseProc_cl os p = Inr p1 \<and> box (dp_chan p1) EL_KEY_ID = m
     \<and> elDbaseProc_sv os p = Inr p2 \<and> box (dp_chan p2) EL_KEY_ID = m
     \<and> elDbaseProc_rh os q = Inr q1 \<and> box (dp_chan q1) EL_KEY_ID = m"
proof -
  note d = write_req_cs_dest [OF assms(2)]
  obtain r1 where "SmMsgRecv os RH_APP_NAME_cs EL_KEY_ID zero_msg (dp_chan p) =
      Inr (put_box (dp_chan p) EL_KEY_ID m, zero_msg, r1)" "r1 < 0"
    using recv_not_for [OF assms(1) cs_names(1), of "dp_chan p" EL_KEY_ID] assms(3) d cs_names by auto
  moreover obtain r2 where "SmMsgRecv os EL_APP_NAME_cs EL_KEY_ID zero_msg (dp_chan p) =
      Inr (put_box (dp_chan p) EL_KEY_ID m, zero_msg, r2)" "r2 < 0"
    using recv_not_for [OF assms(1) cs_names(2), of "dp_chan p" EL_KEY_ID] assms(3) d cs_names by auto
  moreover obtain r3 where "SmMsgRecv os RH_APP_NAME EL_KEY_ID zero_msg (dp_chan q) =
      Inr (put_box (dp_chan q) EL_KEY_ID m, zero_msg, r3)" "r3 < 0"
    using recv_not_for [OF assms(1) app_names(1), of "dp_chan q" EL_KEY_ID] assms(4) d app_names by auto
  ultimately show ?thesis
    by (simp add: elDbaseProc_cl_def elDbaseProc_sv_def elDbaseProc_rh_def cl_copy sv_copy Let_def)
qed

lemma write_req_cs_demo: "\<exists>m. write_req_cs 0 [1, 2] 2 = Inr (1, m)"
proof -
  let ?m0 = "zero_msg\<lparr>h_state := MSG_REQ, h_sync := 1, h_index := word_of_int 0\<rparr>"
  obtain m1 where 1: "set_srce EL_APP_NAME_cs ?m0 = Inr m1"
    using set_srce_fits [OF cs_names(2), of ?m0] cs_names(4) by (auto simp: zero_msg_def)
  have "wf_msg (set_iop (ucast IOP_DBASE_WRITE) (set_iid IID_EL_DBASE m1))" using set_srce_Inr [OF 1] by simp
  then show ?thesis using 1 by (simp add: write_req_cs_def addi_def Let_def)
qed

theorem test_write_never_taken_witness:
  "\<exists>m p p2. write_req_cs 0 [1, 2] 2 = Inr (1, m) \<and> box (dp_chan p) EL_KEY_ID = m
     \<and> elDbaseProc_sv good_os p = Inr p2 \<and> box (dp_chan p2) EL_KEY_ID = m"
proof -
  obtain m where m: "write_req_cs 0 [1, 2] 2 = Inr (1, m)" using write_req_cs_demo by blast
  let ?p = "\<lparr>dp_chan = demo_chan m, dp_seq = 0\<rparr> :: dbase_proc" and ?q = "with_box m demo_server"
  have "box (dp_chan ?p) EL_KEY_ID = m" by (simp add: demo_box)
  moreover obtain p2 where "elDbaseProc_sv good_os ?p = Inr p2" "box (dp_chan p2) EL_KEY_ID = m"
    using test_write_never_taken [OF good_os_ok m, of ?p ?q] calculation by auto
  ultimately show ?thesis using m by blast
qed

text \<open>
  the thread of the test program \<^verbatim>\<open>client/\<close> answers every read request of \<^verbatim>\<open>server/\<close>: it takes the
  request and leaves in the mailbox an acknowledgement with the request's index and
  synchronous mark, addressed to the sender, with error number 0 and the four bytes
  \<^verbatim>\<open>12 34 56 78\<close>; its operation code, though, is the interface number.
\<close>

theorem test_read_answered:
  assumes "os_ok os" and "ch_lock (dp_chan p) = LkFree" and "box (dp_chan p) EL_KEY_ID = m"
    and m: "request seq EL_APP_NAME_cs RH_APP_NAME_cs 0x10 m"
  shows "\<exists>p' ack. elDbaseProc_cl os p = Inr p' \<and> box (dp_chan p') EL_KEY_ID = ack
     \<and> matches EL_APP_NAME_cs m ack \<and> ack_errNo ack = 0 \<and> nSize_of ack = 4
     \<and> take 4 (ack_pValue ack) = [0x12, 0x34, 0x56, 0x78] \<and> tag_iop ack = tag_iid m"
proof -
  have rq: "wf_msg m" "terminated (h_szSrce m)" "h_state m = MSG_REQ" "terminated (h_szDest m)"
    "ccont (h_szDest m) = ccont RH_APP_NAME_cs" "tag_iop m = 0x10" "h_sync m = 1"
    "ccont (h_szSrce m) = ccont EL_APP_NAME_cs"
    using m by (simp_all add: request_def)
  have recv: "SmMsgRecv os RH_APP_NAME_cs EL_KEY_ID zero_msg (dp_chan p) =
      Inr (put_box (dp_chan p) EL_KEY_ID (m\<lparr>h_state := MSG_IDLE\<rparr>), m, 0)"
    using SmMsgRecv_closed [OF assms(1) cs_names(1), of "dp_chan p" EL_KEY_ID zero_msg] rq assms(3) by (simp add: Let_def)
  have short: "length (ccont RH_APP_NAME_cs) < 64" by (simp add: cs_names)
  obtain m1 m2 where h: "set_srce RH_APP_NAME_cs (zero_msg\<lparr>h_state := MSG_ACK, h_sync := h_sync m, h_index := h_index m\<rparr>) = Inr m1"
    "set_dest (h_szSrce m) m1 = Inr m2" "wf_msg m2" "h_state m2 = MSG_ACK" "h_sync m2 = h_sync m" "h_index m2 = h_index m"
    "ccont (h_szDest m2) = ccont (h_szSrce m)"
    using ack_head [OF cs_names(1) short rq(1,2)] by blast
  let ?m = "set_nSize 4 (set_errNo 0 (set_iop (tag_iid m) (set_iid IID_EL_DBASE m2)))"
  let ?b = "patch (ack_pValue ?m) 0 [0x12, 0x34, 0x56, 0x78]"
  let ?ack = "set_ack_pValue ?b ?m"
  have wm: "wf_msg ?m" using h(3) by simp
  have lb: "length ?b = 2048" using wm by simp
  have echo: "echo_msg_cs RH_APP_NAME_cs 0 m [0x12, 0x34, 0x56, 0x78] 4 = Inr ?ack"
    using h wm by (simp add: echo_msg_cs_def Let_def)
  have "SmMsgSendEcho os EL_KEY_ID ?ack (put_box (dp_chan p) EL_KEY_ID (m\<lparr>h_state := MSG_IDLE\<rparr>)) =
      Inr (put_box (dp_chan p) EL_KEY_ID ?ack, 0)"
    using SmMsgSendEcho_closed [OF assms(1), of "put_box (dp_chan p) EL_KEY_ID (m\<lparr>h_state := MSG_IDLE\<rparr>)"] assms(2) by simp
  then have "elDbaseProc_cl os p = Inr (p\<lparr>dp_chan := put_box (dp_chan p) EL_KEY_ID ?ack\<rparr>)"
    using recv echo rq(6)
    by (simp add: elDbaseProc_cl_def s_dbaseMsgMap_cl_def ucast_iop read_test_cl_def el_msg_echo_cl_def cl_copy Let_def)
  moreover have "matches EL_APP_NAME_cs m ?ack"
    using h rq by (simp add: matches_def)
  moreover have "ack_errNo ?ack = 0" "nSize_of ?ack = 4" "tag_iop ?ack = tag_iid m" "ack_pValue ?ack = ?b"
    using wm lb h(3) by simp_all
  moreover have "take 4 ?b = [0x12, 0x34, 0x56, 0x78]" by (simp add: patch_def)
  moreover have "box (dp_chan (p\<lparr>dp_chan := put_box (dp_chan p) EL_KEY_ID ?ack\<rparr>)) EL_KEY_ID = ?ack" by simp
  ultimately show ?thesis by metis
qed

theorem test_read_answered_witness:
  "\<exists>m p'. new_req 0 EL_APP_NAME_cs RH_APP_NAME_cs IID_EL_DBASE IOP_DBASE_READ = Inr (1, m)
     \<and> elDbaseProc_cl good_os \<lparr>dp_chan = demo_chan m, dp_seq = 0\<rparr> = Inr p'
     \<and> take 4 (ack_pValue (box (dp_chan p') EL_KEY_ID)) = [0x12, 0x34, 0x56, 0x78]"
proof -
  have "length (ccont EL_APP_NAME_cs) < 64" "length (ccont RH_APP_NAME_cs) < 64" by (simp_all add: cs_names)
  from new_req_ok [of 0, OF _ _ cs_names(2) this(1) cs_names(1) this(2), of IID_EL_DBASE IOP_DBASE_READ]
  obtain m where m: "new_req 0 EL_APP_NAME_cs RH_APP_NAME_cs IID_EL_DBASE IOP_DBASE_READ = Inr (1, m)"
    "request 0 EL_APP_NAME_cs RH_APP_NAME_cs 0x10 m" by (auto simp: ucast_iop)
  let ?p = "\<lparr>dp_chan = demo_chan m, dp_seq = 0\<rparr> :: dbase_proc"
  from test_read_answered [OF good_os_ok, of ?p m 0] m show ?thesis by (auto simp: demo_box)
qed

end
