(* ===== verification/MemIec.thy ===== *)
theory MemIec
  imports MemStore
begin

text \<open>
  The access functions by telecontrol address.  The bisection of a sorted point table is
  characterised completely: it finds the entry, or reports it absent, or, for an address above
  all others, reads one entry behind the table.  The rest is the state of the two mutexes after
  each exit: the writer never releases the device mutex, and the reader forgets the table mutex
  on one of its exits.
\<close>

section \<open>Bisection\<close>

definition addrs :: "POINT_ITEM_T list \<Rightarrow> int list" where
  "addrs xs = map pt_addr xs"

definition addr_result :: "POINT_ITEM_T list \<Rightarrow> int \<Rightarrow> int option res" where
  "addr_result xs a =
     (case find_ix (\<lambda>p. pt_addr p = a) xs of
        Some i \<Rightarrow> Inr (Some (int i))
      | None \<Rightarrow> if list_all (\<lambda>p. pt_addr p < a) xs then Inl OutOfBounds else Inr None)"

lemma find_ix_sorted:
  assumes "sorted_wrt (<) (addrs xs)" and "i < length xs" and "pt_addr (xs ! i) = a"
  shows "find_ix (\<lambda>p. pt_addr p = a) xs = Some i"
proof -
  have "list_ex (\<lambda>p. pt_addr p = a) xs" using assms(2,3) by (auto simp: list_ex_length)
  then obtain j where j: "find_ix (\<lambda>p. pt_addr p = a) xs = Some j" by (simp add: find_ix_def)
  then have "j < length xs" "pt_addr (xs ! j) = a" using find_ix_Some by fastforce+
  moreover have "pt_addr (xs ! k) < pt_addr (xs ! l)" if "k < l" "l < length xs" for k l
    using assms(1) that by (auto simp: addrs_def sorted_wrt_iff_nth_less)
  ultimately have "j = i" using assms(2,3) by (metis linorder_neqE_nat less_irrefl)
  with j show ?thesis by simp
qed

lemma bisect_closed:
  assumes "sorted_wrt (<) (addrs xs)" and "0 \<le> s" and "e \<le> int (length xs)" and "s \<le> e + 1" and "s \<le> int (length xs)"
    and "\<And>i. i < length xs \<Longrightarrow> int i < s \<Longrightarrow> pt_addr (xs ! i) < a"
    and "\<And>i. i < length xs \<Longrightarrow> e < int i \<Longrightarrow> a < pt_addr (xs ! i)"
    and "e = int (length xs) \<or> (\<exists>p \<in> set xs. a < pt_addr p)"
  shows "bisect (Some xs) a s e = addr_result xs a"
  using assms(2-8)
proof (induction "nat (e - s + 1)" arbitrary: s e rule: less_induct)
  case less
  have mono: "pt_addr (xs ! k) < pt_addr (xs ! l)" if "k < l" "l < length xs" for k l
    using assms(1) that by (auto simp: addrs_def sorted_wrt_iff_nth_less)
  show ?case
  proof (cases "s \<le> e")
    case False
    have "pt_addr p \<noteq> a" if "p \<in> set xs" for p
    proof -
      from that obtain i where "i < length xs" "p = xs ! i" by (auto simp: in_set_conv_nth)
      with less.prems(5,6) [of i] False show ?thesis by (cases "int i < s") fastforce+
    qed
    then have "find_ix (\<lambda>p. pt_addr p = a) xs = None" by (auto simp: find_ix_def list_ex_iff)
    moreover have "\<not> list_all (\<lambda>p. pt_addr p < a) xs"
    proof (cases "e = int (length xs)")
      case True
      with False less.prems(4) show ?thesis by simp
    next
      case False
      with less.prems(7) show ?thesis by (fastforce simp: list_all_iff)
    qed
    ultimately show ?thesis using False by (simp add: bisect.simps addr_result_def)
  next
    case True
    let ?m = "(s + e) div 2"
    have m: "s \<le> ?m" "?m \<le> e" using True by simp_all
    show ?thesis
    proof (cases "?m < int (length xs)")
      case False
      with m less.prems(2) True have "s = int (length xs)" "e = int (length xs)" by linarith+
      then have all: "\<And>i. i < length xs \<Longrightarrow> pt_addr (xs ! i) < a" using less.prems(5) by simp
      then have "\<forall>p \<in> set xs. pt_addr p < a" by (auto simp: in_set_conv_nth)
      then have "find_ix (\<lambda>p. pt_addr p = a) xs = None" by (auto simp: find_ix_def list_ex_iff)
      moreover have "list_all (\<lambda>p. pt_addr p < a) xs" using all by (simp add: list_all_length)
      moreover have "rdpi (Some xs) ?m = Inl OutOfBounds"
        using False m less.prems(1) by (auto simp: rdpi_def rdi_def rd_def)
      ultimately show ?thesis
        using True by (simp add: bisect.simps [of _ _ s e] addr_result_def)
    next
      case lt: True
      let ?x = "xs ! nat ?m"
      have n: "nat ?m < length xs" using lt m less.prems(1) by linarith
      have rd: "rdpi (Some xs) ?m = Inr ?x"
        using n m less.prems(1) by (simp add: rdpi_def rdi_def)
      consider "pt_addr ?x = a" | "pt_addr ?x < a" | "a < pt_addr ?x" by linarith
      then show ?thesis
      proof cases
        case 1
        then have "find_ix (\<lambda>p. pt_addr p = a) xs = Some (nat ?m)" by (rule find_ix_sorted [OF assms(1) n])
        with 1 True rd m less.prems(1) show ?thesis
          by (simp add: bisect.simps [of _ _ s e] addr_result_def)
      next
        case 2
        have below: "pt_addr (xs ! i) < a" if "i < length xs" "int i < ?m + 1" for i
        proof (cases "i = nat ?m")
          case False
          with that have "i < nat ?m" by linarith
          with mono [OF this n] 2 show ?thesis by simp
        qed (use 2 in simp)
        have "bisect (Some xs) a s e = bisect (Some xs) a (?m + 1) e"
          using 2 True rd by (simp add: bisect.simps [of _ _ s e])
        also have "\<dots> = addr_result xs a"
        proof (rule less.hyps)
          show "?m + 1 \<le> int (length xs)" using lt by simp
        qed (use m less.prems below True in auto)
        finally show ?thesis .
      next
        case 3
        have above: "a < pt_addr (xs ! i)" if "i < length xs" "?m - 1 < int i" for i
        proof (cases "i = nat ?m")
          case False
          with that have "nat ?m < i" by linarith
          with mono [OF this that(1)] 3 show ?thesis by simp
        qed (use 3 in simp)
        have "bisect (Some xs) a s e = bisect (Some xs) a s (?m - 1)"
          using 3 True rd by (simp add: bisect.simps [of _ _ s e])
        also have "\<dots> = addr_result xs a"
        proof (rule less.hyps)
          show "?m - 1 = int (length xs) \<or> (\<exists>p \<in> set xs. a < pt_addr p)"
            using 3 n nth_mem by blast
        qed (use m less.prems above True in auto)
        finally show ?thesis .
      qed
    qed
  qed
qed

lemma find_addr_closed:
  assumes "pl_point pl = Some xs" and "pl_nNum pl = int (length xs)" and "sorted_wrt (<) (addrs xs)"
  shows "find_addr pl a = addr_result xs a"
  unfolding find_addr_def assms(1,2) by (rule bisect_closed [OF assms(3)]) simp_all

section \<open>The searches by name\<close>

definition wf_pt :: "POINT_ITEM_T \<Rightarrow> bool" where
  "wf_pt p \<longleftrightarrow> terminated (pt_ied_tag p) \<and> terminated (pt_do_tag p) \<and> terminated (pt_dotype_tag p)"

definition sorted_points :: "DATA_TYPE_E \<Rightarrow> mem_state \<Rightarrow> bool" where
  "sorted_points ty m \<longleftrightarrow>
     (let pl = point_list ty (s_pointMap m) in
      case pl_point pl of None \<Rightarrow> False
      | Some xs \<Rightarrow> pl_nNum pl = int (length xs) \<and> list_all wf_pt xs \<and> sorted_wrt (<) (addrs xs))"

definition iec_lookup :: "mem_state \<Rightarrow> POINT_ITEM_T \<Rightarrow> iec_find" where
  "iec_lookup m point =
     (let ieds = elems (mm_pIedList (s_memMap m)) in
      case find_ix (\<lambda>d. ccont (pt_ied_tag point) = ccont (ied_tag d)) ieds of None \<Rightarrow> NoIed | Some i \<Rightarrow>
      (let dos = elems (ied_pDoList (ieds ! i)) in
      case find_ix (\<lambda>d. ccont (pt_do_tag point) = ccont (dl_do_tag d)) dos of None \<Rightarrow> NoDo | Some k \<Rightarrow>
      (case find_ix (\<lambda>u. ccont (pt_dotype_tag point) = ccont (du_dotype_tag u)) (elems (dl_pDotList_104 (dos ! k))) of
         None \<Rightarrow> NoDot | Some l \<Rightarrow> Found i (dos ! k) (dl_pDotList_104 (dos ! k)) l)))"

lemma scan_only:
  assumes t: "table ok p n" and P: "\<And>x. ok x \<Longrightarrow> P x = Inr (q x)"
  shows "bindR (scan P p n) (\<lambda>i. if int i \<ge> n then none else f i) =
     (case find_ix q (elems p) of None \<Rightarrow> none | Some i \<Rightarrow> f i)"
proof -
  have "bindR (scan P p n) (\<lambda>i. if int i \<ge> n then none else f i) =
      bindR (scan P p n) (\<lambda>i. if int i \<ge> n then none else bindR (rdp p i) (\<lambda>_. f i))"
  proof (rule bindR_cong [OF refl])
    fix i assume "scan P p n = Inr i"
    show "(if int i \<ge> n then none else f i) = (if int i \<ge> n then none else bindR (rdp p i) (\<lambda>_. f i))"
      using t by (auto simp: table_def rdp_def split: option.splits)
  qed
  also have "\<dots> = (case find_ix q (elems p) of None \<Rightarrow> none | Some i \<Rightarrow> f i)"
    by (rule scan_then [OF t P])
  finally show ?thesis .
qed

lemma scan_tag:
  assumes "wf_mem m" and "terminated t"
  shows "bindR (scan (\<lambda>d. str_eq t (ied_tag d)) (mm_pIedList (s_memMap m)) (mm_nNum (s_memMap m)))
       (\<lambda>k. if int k \<ge> mm_nNum (s_memMap m) then none else bindR (rdp (mm_pIedList (s_memMap m)) k) (f k)) =
     (case find_ix (\<lambda>d. ccont t = ccont (ied_tag d)) (elems (mm_pIedList (s_memMap m))) of
        None \<Rightarrow> none | Some k \<Rightarrow> f k (elems (mm_pIedList (s_memMap m)) ! k))"
  using assms by (intro scan_then [where ok = wf_ied]) (simp_all add: wf_mem_def wf_ied_def str_eq_closed)

lemma scan_type:
  assumes "terminated t" and "wf_do d"
  shows "bindR (scan (\<lambda>u. str_eq t (du_dotype_tag u)) (dl_pDotList_104 d) (dl_nNum d))
       (\<lambda>k. if int k \<ge> dl_nNum d then none else f k) =
     (case find_ix (\<lambda>u. ccont t = ccont (du_dotype_tag u)) (elems (dl_pDotList_104 d)) of
        None \<Rightarrow> none | Some k \<Rightarrow> f k)"
  using assms by (intro scan_only [where ok = wf_unit]) (auto simp: wf_do_def wf_unit_def str_eq_closed)

lemma sorted_point:
  assumes "sorted_points ty m" and "pl_point (point_list ty (s_pointMap m)) = Some xs" and "i < length xs"
  shows "terminated (pt_ied_tag (xs ! i))" "terminated (pt_do_tag (xs ! i))" "terminated (pt_dotype_tag (xs ! i))"
    "rdpi (Some xs) (int i) = Inr (xs ! i)"
  using assms by (simp_all add: sorted_points_def Let_def list_all_length wf_pt_def rdpi_def)

lemma find_iec_closed:
  assumes wf: "wf_mem m" and pts: "sorted_points ty m"
    and xs: "pl_point (point_list ty (s_pointMap m)) = Some xs"
  shows "find_iec m ty a =
     (case find_ix (\<lambda>p. pt_addr p = a) xs of
        Some i \<Rightarrow> Inr (iec_lookup m (xs ! i))
      | None \<Rightarrow> if list_all (\<lambda>p. pt_addr p < a) xs then Inl OutOfBounds else Inr NoAddr)"
proof -
  have addr: "find_addr (point_list ty (s_pointMap m)) a = addr_result xs a"
    using pts xs by (intro find_addr_closed) (simp_all add: sorted_points_def Let_def)
  show ?thesis
  proof (cases "find_ix (\<lambda>p. pt_addr p = a) xs")
    case None
    then show ?thesis by (simp add: find_iec_def addr addr_result_def)
  next
    case (Some i)
    then have "i < length xs" using find_ix_Some by blast
    note pt = sorted_point [OF pts xs this]
    show ?thesis
      unfolding find_iec_def Let_def addr addr_result_def Some xs
      using find_ix_ok [OF wf_tables(1) [OF wf]] find_ix_ok [OF wf_tables(3)]
      by (auto simp: pt scan_tag [OF wf] scan_object scan_type iec_lookup_def Let_def split: option.split)
  qed
qed

section \<open>The two mutexes\<close>

definition list_lock :: "DATA_TYPE_E \<Rightarrow> lock \<Rightarrow> mem_state \<Rightarrow> mem_state" where
  "list_lock ty l m = m\<lparr>s_pointMap :=
     set_point_list ty ((point_list ty (s_pointMap m))\<lparr>pl_lock := l\<rparr>) (s_pointMap m)\<rparr>"

definition ied_locked :: "nat \<Rightarrow> lock \<Rightarrow> mem_state \<Rightarrow> mem_state" where
  "ied_locked i l m = m\<lparr>s_memMap := (s_memMap m)\<lparr>mm_pIedList :=
     Some ((elems (mm_pIedList (s_memMap m)))[i := (elems (mm_pIedList (s_memMap m)) ! i)\<lparr>ied_lock := l\<rparr>])\<rparr>\<rparr>"

lemma point_list_set [simp]:
  "point_list ty (set_point_list ty pl pm) = pl" "id_list (set_point_list ty pl pm) = id_list pm"
  by (cases ty; simp)+

lemma list_lock_simps [simp]:
  "pl_lock (point_list ty (s_pointMap (list_lock ty l m))) = l"
  "pl_point (point_list ty (s_pointMap (list_lock ty l m))) = pl_point (point_list ty (s_pointMap m))"
  "pl_nNum (point_list ty (s_pointMap (list_lock ty l m))) = pl_nNum (point_list ty (s_pointMap m))"
  "id_list (s_pointMap (list_lock ty l m)) = id_list (s_pointMap m)"
  "s_memMap (list_lock ty l m) = s_memMap m" "s_pDataMem (list_lock ty l m) = s_pDataMem m"
  "list_lock ty l (list_lock ty l' m) = list_lock ty l m"
  by (cases ty; simp add: list_lock_def)+

lemma list_lock_same: "pl_lock (point_list ty (s_pointMap m)) = l \<Longrightarrow> list_lock ty l m = m"
  by (cases ty) (auto simp: list_lock_def)

lemma on_list_lock_closed:
  "on_list_lock f ty m = bindR (f (pl_lock (point_list ty (s_pointMap m)))) (\<lambda>l. Inr (list_lock ty l m))"
  by (simp add: on_list_lock_def list_lock_def Let_def)

lemma wf_list_lock [simp]:
  "wf_mem (list_lock ty l m) = wf_mem m" "ieds_free (list_lock ty l m) = ieds_free m"
  "sorted_points ty (list_lock ty l m) = sorted_points ty m" "iec_lookup (list_lock ty l m) pt = iec_lookup m pt"
  by (simp_all only: wf_mem_def ieds_free_def sorted_points_def iec_lookup_def list_lock_simps Let_def)

lemma on_ied_lock_locked:
  assumes "i < length (elems (mm_pIedList (s_memMap m)))"
  shows "on_ied_lock f i m = bindR (f (ied_lock (elems (mm_pIedList (s_memMap m)) ! i))) (\<lambda>l. Inr (ied_locked i l m))"
  using assms by (auto simp: on_ied_lock_def ied_locked_def elems_def upd_def bindR_assoc split: option.splits)

lemma ied_locked_simps [simp]:
  "s_pointMap (ied_locked i l m) = s_pointMap m" "s_pDataMem (ied_locked i l m) = s_pDataMem m"
  "with_data bs (list_lock ty l m) = list_lock ty l (with_data bs m)"
  "with_data bs (ied_locked i l m) = ied_locked i l (with_data bs m)"
  "list_lock ty l (ied_locked i k m) = ied_locked i k (list_lock ty l m)"
  by (cases ty; simp add: ied_locked_def with_data_def list_lock_def)+

lemma iec_lookup_ied:
  assumes "wf_mem m" and "ieds_free m" and "iec_lookup m pt = Found i d us l"
  shows "i < length (elems (mm_pIedList (s_memMap m)))"
    and "ied_lock (elems (mm_pIedList (s_memMap m)) ! i) = Unlocked"
    and "us = dl_pDotList_104 d" and "l < length (elems us)"
    and "d \<in> set (elems (ied_pDoList (elems (mm_pIedList (s_memMap m)) ! i)))"
proof -
  let ?es = "elems (mm_pIedList (s_memMap m))"
  from assms(3) obtain q1 q2 q3 k where i: "find_ix q1 ?es = Some i"
    and k: "find_ix q2 (elems (ied_pDoList (?es ! i))) = Some k" and d: "d = elems (ied_pDoList (?es ! i)) ! k"
    and l: "find_ix q3 (elems (dl_pDotList_104 d)) = Some l" and us: "us = dl_pDotList_104 d"
    by (auto simp: iec_lookup_def Let_def split: option.splits)
  from i show lt: "i < length ?es" using find_ix_Some by blast
  from us show "us = dl_pDotList_104 d" .
  from l us show "l < length (elems us)" using find_ix_Some by blast
  from k d show "d \<in> set (elems (ied_pDoList (?es ! i)))" using find_ix_Some by fastforce
  have mm: "table wf_ied (mm_pIedList (s_memMap m)) (mm_nNum (s_memMap m))"
    using assms(1) by (simp add: wf_mem_def)
  have "wf_ied (?es ! i)" using find_ix_ok [OF mm i] .
  moreover have "0 < length (elems (ied_pDoList (?es ! i)))" using find_ix_Some [OF k] by auto
  ultimately have "0 < ied_nNum (?es ! i)"
    by (auto simp: wf_ied_def table_def elems_def split: option.splits)
  with assms(2) lt show "ied_lock (?es ! i) = Unlocked" by (simp add: ieds_free_def list_all_length)
qed

text \<open>The state between two calls of the address functions, and the entry an address has.\<close>

definition iec_ready :: "DATA_TYPE_E \<Rightarrow> mem_state \<Rightarrow> bool" where
  "iec_ready ty m \<longleftrightarrow> wf_mem m \<and> ieds_free m \<and> sorted_points ty m
     \<and> pl_lock (point_list ty (s_pointMap m)) = Unlocked \<and> s_pDataMem m \<noteq> None"

definition point_at :: "DATA_TYPE_E \<Rightarrow> mem_state \<Rightarrow> int \<Rightarrow> POINT_ITEM_T option" where
  "point_at ty m a = (let xs = elems (pl_point (point_list ty (s_pointMap m))) in
     map_option (\<lambda>i. xs ! i) (find_ix (\<lambda>p. pt_addr p = a) xs))"

lemma find_iec_at:
  assumes "wf_mem m" and "sorted_points ty m" and "point_at ty m a = Some pt"
  shows "find_iec m ty a = Inr (iec_lookup m pt)"
proof -
  obtain xs where xs: "pl_point (point_list ty (s_pointMap m)) = Some xs"
    using assms(2) by (auto simp: sorted_points_def Let_def split: option.splits)
  then show ?thesis
    using find_iec_closed [OF assms(1,2) xs] assms(3) by (auto simp: point_at_def elems_def)
qed

lemma point_at_list_lock [simp]: "point_at ty (list_lock ty l m) a = point_at ty m a"
  by (simp add: point_at_def)

section \<open>The exits\<close>

lemma write_iec_found:
  assumes r: "iec_ready ty m" and ty: "data_type_of b = Some ty" and pt: "point_at ty m a = Some pt"
    and f: "iec_lookup m pt = Found i d us l"
  shows "rh_mem_data_write_iec m b a k data n =
     bindR (smallcpy (mem_cells m) (data_addr d (elems us ! l)) data 0 n) (\<lambda>mem'.
       Inr (ied_locked i Locked (with_data mem' m), 0))"
proof -
  have wf: "wf_mem m" "ieds_free m" "sorted_points ty m"
    and lk: "pl_lock (point_list ty (s_pointMap m)) = Unlocked" and mem: "s_pDataMem m = Some (mem_cells m)"
    using r by (auto simp: iec_ready_def mem_cells_def)
  note ied = iec_lookup_ied [OF wf(1,2) f]
  have "rdp us l = Inr (elems us ! l)" using ied(4) by (auto simp: rdp_def elems_def split: option.splits)
  moreover have "list_lock ty Unlocked (with_data bs m) = with_data bs m" for bs
    by (rule list_lock_same) (simp add: lk)
  ultimately show ?thesis
    using lk mem ied find_iec_at [of "list_lock ty Locked m" ty a pt] wf pt f
    by (simp add: rh_mem_data_write_iec_def ty on_list_lock_closed on_ied_lock_locked mem_write_def
        bindR_assoc flip: with_data_def cong: bindR_cong)
qed

lemma sum_lens_closed:
  assumes "l + n \<le> length us" and "list_all (\<lambda>u. 0 \<le> du_dataLen u) (take n (drop l us))" and "0 \<le> acc"
    and "acc + sum_list (map du_dataLen (take n (drop l us))) \<le> 2147483647"
  shows "sum_lens (Some us) l n acc = Inr (acc + sum_list (map du_dataLen (take n (drop l us))))"
  using assms
proof (induction n arbitrary: l acc)
  case (Suc n)
  have l: "drop l us = us ! l # drop (Suc l) us" using Suc.prems(1) by (simp add: Cons_nth_drop_Suc)
  have pos: "0 \<le> sum_list (map du_dataLen (take n (drop (Suc l) us)))"
    using Suc.prems(2) by (intro sum_list_nonneg) (auto simp: l list_all_iff)
  have "addi acc (du_dataLen (us ! l)) = Inr (acc + du_dataLen (us ! l))"
    using Suc.prems pos by (simp add: addi_def l)
  with Suc show ?case by (simp add: l rdp_def)
qed simp

lemma read_iec_found:
  assumes r: "iec_ready ty m" and ty: "data_type_of b = Some ty" and pt: "point_at ty m a = Some pt"
    and f: "iec_lookup m pt = Found i d (Some us) l"
    and k: "l + k \<le> length us" "list_all (\<lambda>u. 0 \<le> du_dataLen u) (take k (drop l us))"
    and tot: "tot = sum_list (map du_dataLen (take k (drop l us)))" "tot \<le> 2147483647"
  shows "rh_mem_data_read_iec m b a (int k) buf sz =
     (if tot > sz then Inr (m, buf, - 1)
      else bindR (smallcpy buf 0 (mem_cells m) (data_addr d (us ! l)) tot) (\<lambda>buf'. Inr (m, buf', tot)))"
proof -
  have wf: "wf_mem m" "ieds_free m" "sorted_points ty m"
    and lk: "pl_lock (point_list ty (s_pointMap m)) = Unlocked" and mem: "s_pDataMem m = Some (mem_cells m)"
    using r by (auto simp: iec_ready_def mem_cells_def)
  let ?m = "list_lock ty Locked m"
  have wf': "wf_mem ?m" "ieds_free ?m" using wf by simp_all
  have "iec_lookup ?m pt = Found i d (Some us) l" using f by simp
  note ied = iec_lookup_ied [OF wf' this]
  have sum: "sum_lens (Some us) l k 0 = Inr tot"
    using sum_lens_closed [of l k us 0] k tot by simp
  have rd: "rdp (Some us) l = Inr (us ! l)" using ied(4) by (simp add: rdp_def elems_def)
  have un: "list_lock ty Unlocked m = m" by (rule list_lock_same) (simp add: lk)
  obtain m' where m': "on_ied_lock mutex_lock i ?m = Inr m'" "s_pDataMem m' = s_pDataMem ?m"
    "on_ied_lock mutex_unlock i m' = Inr ?m"
    using unlock_lock [OF ied(1,2)] by metis
  show ?thesis
    using lk mem m' rd sum un find_iec_at [of ?m ty a pt] wf pt f
    by (cases "smallcpy buf 0 (mem_cells m) (data_addr d (us ! l)) tot")
      (simp_all add: rh_mem_data_read_iec_def ty on_list_lock_closed mem_read_def)
qed

lemma ied_locked_elems:
  "elems (mm_pIedList (s_memMap (ied_locked i l m))) =
     (elems (mm_pIedList (s_memMap m)))[i := (elems (mm_pIedList (s_memMap m)) ! i)\<lparr>ied_lock := l\<rparr>]"
  by (simp add: ied_locked_def elems_def [where p = "Some _"])

lemma find_ix_map: "find_ix q (map f xs) = find_ix (\<lambda>x. q (f x)) xs"
proof -
  have "takeWhile (\<lambda>x. \<not> q x) (map f xs) = map f (takeWhile (\<lambda>x. \<not> q (f x)) xs)"
    by (induction xs) auto
  then show ?thesis by (simp add: find_ix_def list_ex_iff)
qed

lemma map_update_same: "i < length xs \<Longrightarrow> f y = f (xs ! i) \<Longrightarrow> map f (xs[i := y]) = map f xs"
  by (metis length_map list_update_id map_update nth_map)

lemma iec_lookup_ied_locked:
  assumes "i < length (elems (mm_pIedList (s_memMap m)))"
  shows "iec_lookup (ied_locked i l m) pt = iec_lookup m pt"
proof -
  let ?es = "elems (mm_pIedList (s_memMap m))" and ?es' = "elems (mm_pIedList (s_memMap (ied_locked i l m)))"
  have "map ied_tag ?es' = map ied_tag ?es" "map ied_pDoList ?es' = map ied_pDoList ?es" "length ?es' = length ?es"
    using assms by (simp_all add: ied_locked_elems map_update_same)
  then have tags: "find_ix (\<lambda>d. ccont (pt_ied_tag pt) = ccont (ied_tag d)) ?es' =
      find_ix (\<lambda>d. ccont (pt_ied_tag pt) = ccont (ied_tag d)) ?es"
    and dos: "\<And>j. j < length ?es \<Longrightarrow> ied_pDoList (?es' ! j) = ied_pDoList (?es ! j)"
    by (metis find_ix_map [where q = "\<lambda>t. ccont (pt_ied_tag pt) = ccont t" and f = ied_tag])
      (metis \<open>map ied_pDoList ?es' = _\<close> \<open>length ?es' = _\<close> nth_map)
  show ?thesis
  proof (cases "find_ix (\<lambda>d. ccont (pt_ied_tag pt) = ccont (ied_tag d)) ?es")
    case None
    then show ?thesis by (simp add: iec_lookup_def Let_def tags)
  next
    case (Some k)
    then have "k < length ?es" using find_ix_Some by blast
    with Some show ?thesis by (simp add: iec_lookup_def Let_def tags dos)
  qed
qed

lemma wf_ied_locked:
  assumes "i < length (elems (mm_pIedList (s_memMap m)))" and "wf_mem m"
  shows "wf_mem (ied_locked i l m)"
proof -
  let ?es = "elems (mm_pIedList (s_memMap m))"
  have t: "table wf_ied (mm_pIedList (s_memMap m)) (mm_nNum (s_memMap m))" using assms(2) by (simp add: wf_mem_def)
  then have "list_all wf_ied ?es" using table_elems by (auto simp: list_all_iff)
  moreover have "wf_ied ((?es ! i)\<lparr>ied_lock := l\<rparr>)"
    using table_elems [OF t] assms(1) by (simp add: wf_ied_def)
  ultimately have "list_all wf_ied (?es[i := (?es ! i)\<lparr>ied_lock := l\<rparr>])"
    using assms(1) by (auto simp: list_all_iff dest!: set_update_subset_insert [THEN subsetD])
  moreover have "mm_nNum (s_memMap m) = int (length ?es)"
    using t assms(1) by (auto simp: table_def elems_def split: option.splits)
  ultimately show ?thesis
    using assms(2) by (simp add: wf_mem_def ied_locked_def table_def)
qed

section \<open>Properties\<close>

text \<open>The index of the witnesses of \<open>MemStore\<close> with three telemetry points; the last names no device.\<close>

definition demo_iec :: mem_state where
  "demo_iec = demo_mem\<lparr>s_pointMap := (s_pointMap demo_mem)\<lparr>yc_list := \<lparr>pl_nNum = 3, pl_point = Some
     [\<lparr>pt_ied_tag = [100, 0], pt_do_tag = [111, 0], pt_dotype_tag = [97, 0], pt_addr = 10\<rparr>,
      \<lparr>pt_ied_tag = [100, 0], pt_do_tag = [111, 0], pt_dotype_tag = [98, 0], pt_addr = 20\<rparr>,
      \<lparr>pt_ied_tag = [120, 0], pt_do_tag = [111, 0], pt_dotype_tag = [97, 0], pt_addr = 30\<rparr>],
     pl_lock = Unlocked\<rparr>\<rparr>\<rparr>"

definition demo_pt :: POINT_ITEM_T where
  "demo_pt = \<lparr>pt_ied_tag = [100, 0], pt_do_tag = [111, 0], pt_dotype_tag = [98, 0], pt_addr = 20\<rparr>"

definition demo_lost :: POINT_ITEM_T where
  "demo_lost = \<lparr>pt_ied_tag = [120, 0], pt_do_tag = [111, 0], pt_dotype_tag = [97, 0], pt_addr = 30\<rparr>"

definition demo_do :: IED_DO_LIST_T where
  "demo_do = hd (elems (ied_pDoList demo_ied))"

lemma demo_iec:
  "iec_ready DATA_YC demo_iec" "data_type_of 0 = Some DATA_YC"
  "point_at DATA_YC demo_iec 20 = Some demo_pt" "point_at DATA_YC demo_iec 30 = Some demo_lost"
  "iec_lookup demo_iec demo_pt = Found 0 demo_do (Some [demo_unit 97 0 2, demo_unit 98 2 3]) 1"
  "iec_lookup demo_iec demo_lost = NoIed" "data_addr demo_do (demo_unit 98 2 3) = 3"
  "length (mem_cells demo_iec) = 7" "take 3 (drop 3 (mem_cells demo_iec)) = [13, 14, 15]"
  by code_simp+

text \<open>
  C27: the bisection of a point table with strictly ascending addresses is correct for every
  address it finds and for every absent address that is not above all others; for one that is,
  it reads the entry behind the table, because the search interval starts at \<^verbatim>\<open>[0, nNum]\<close>.
\<close>

theorem bisection_result:
  assumes "pl_point pl = Some xs" and "pl_nNum pl = int (length xs)" and "sorted_wrt (<) (map pt_addr xs)"
  shows "(\<forall>i < length xs. find_addr pl (pt_addr (xs ! i)) = Inr (Some (int i)))
     \<and> (\<forall>a. a \<notin> pt_addr ` set xs \<longrightarrow> find_addr pl a =
          (if \<forall>p \<in> set xs. pt_addr p < a then Inl OutOfBounds else Inr None))"
proof -
  have sorted: "sorted_wrt (<) (addrs xs)" using assms(3) by (simp add: addrs_def)
  note closed = find_addr_closed [OF assms(1,2) sorted]
  have "find_addr pl (pt_addr (xs ! i)) = Inr (Some (int i))" if "i < length xs" for i
    using find_ix_sorted [OF sorted that refl] by (simp add: closed addr_result_def)
  moreover have "find_addr pl a = (if \<forall>p \<in> set xs. pt_addr p < a then Inl OutOfBounds else Inr None)"
    if "a \<notin> pt_addr ` set xs" for a
    using that by (auto simp: closed addr_result_def find_ix_def list_ex_iff list_all_iff)
  ultimately show ?thesis by blast
qed

theorem bisection_result_witness:
  "find_addr (yc_list (s_pointMap demo_iec)) 20 = Inr (Some 1)
     \<and> find_addr (yc_list (s_pointMap demo_iec)) 31 = Inl OutOfBounds"
proof -
  obtain xs where xs: "pl_point (yc_list (s_pointMap demo_iec)) = Some xs" by (simp add: demo_iec_def)
  then have n: "pl_nNum (yc_list (s_pointMap demo_iec)) = int (length xs)" "sorted_wrt (<) (map pt_addr xs)"
    and "length xs = 3" "pt_addr (xs ! 1) = 20" "\<forall>p \<in> set xs. pt_addr p < 31" "31 \<notin> pt_addr ` set xs"
    by (auto simp: demo_iec_def)
  with bisection_result [OF xs n] show ?thesis by (metis (no_types, lifting) of_nat_1 one_less_numeral_iff semiring_norm(77))
qed

lemma iec_lookup_field: "iec_lookup m pt = Found i d us l \<Longrightarrow> rdp us l = Inr (elems us ! l)"
  by (auto simp: iec_lookup_def rdp_def elems_def Let_def dest: find_ix_Some split: option.splits)

text \<open>Every access that comes to the mutex of a locked device waits for ever.\<close>

lemma locked_device_blocks:
  assumes wf: "wf_mem m" and i: "i < length (elems (mm_pIedList (s_memMap m)))"
    and held: "ied_lock (elems (mm_pIedList (s_memMap m)) ! i) = Locked"
  shows "oop_lookup m nPn nDi = Some (i, e, u) \<Longrightarrow> rh_mem_data_read_oop m nPn nDi buf sz = Inl Deadlock"
    and "oop_lookup m nPn nDi = Some (i, e, u) \<Longrightarrow> rh_mem_data_write_oop m nPn nDi data n = Inl Deadlock"
    and "data_type_of b = Some ty \<Longrightarrow> sorted_points ty m \<Longrightarrow> pl_lock (point_list ty (s_pointMap m)) = Unlocked \<Longrightarrow>
      point_at ty m a = Some pt \<Longrightarrow> iec_lookup m pt = Found i d us l \<Longrightarrow>
      rh_mem_data_write_iec m b a k data n = Inl Deadlock
      \<and> (\<forall>buf sz tot. sum_lens us l (nat k) 0 = Inr tot \<and> tot \<le> sz \<longrightarrow> rh_mem_data_read_iec m b a k buf sz = Inl Deadlock)"
proof -
  show "rh_mem_data_read_oop m nPn nDi buf sz = Inl Deadlock" if "oop_lookup m nPn nDi = Some (i, e, u)"
    using that find_oop_closed [OF wf] i held by (simp add: rh_mem_data_read_oop_def on_ied_lock_locked)
  show "rh_mem_data_write_oop m nPn nDi data n = Inl Deadlock" if "oop_lookup m nPn nDi = Some (i, e, u)"
    using that find_oop_closed [OF wf] i held by (simp add: rh_mem_data_write_oop_def on_ied_lock_locked)
  assume ty: "data_type_of b = Some ty" and pts: "sorted_points ty m" "pl_lock (point_list ty (s_pointMap m)) = Unlocked"
    and pt: "point_at ty m a = Some pt" and f: "iec_lookup m pt = Found i d us l"
  have find: "find_iec (list_lock ty Locked m) ty a = Inr (Found i d us l)"
    using find_iec_at [of "list_lock ty Locked m" ty a pt] wf pts(1) pt f by simp
  note u = iec_lookup_field [OF f]
  show "rh_mem_data_write_iec m b a k data n = Inl Deadlock
      \<and> (\<forall>buf sz tot. sum_lens us l (nat k) 0 = Inr tot \<and> tot \<le> sz \<longrightarrow> rh_mem_data_read_iec m b a k buf sz = Inl Deadlock)"
    using find u i held pts(2)
    by (simp add: rh_mem_data_write_iec_def rh_mem_data_read_iec_def ty on_list_lock_closed on_ied_lock_locked)
qed

text \<open>
  C34: a successful write by address stores the data, but the mutex of the point's device stays held.
  From then on every access that comes to this device waits for ever: reads and writes by identifier
  of any of its data, writes by any address of it in any of the three point tables (the same write
  again is one), and reads by such an address into a buffer that is large enough.
\<close>

theorem iec_write_keeps_device_locked:
  assumes r: "iec_ready ty m" and ty: "data_type_of b = Some ty" and pt: "point_at ty m a = Some pt"
    and f: "iec_lookup m pt = Found i d us l" and at: "data_addr d (elems us ! l) = int p"
    and len: "p + n \<le> length (mem_cells m)" "n \<le> length data"
  shows "\<exists>m'. rh_mem_data_write_iec m b a k data (int n) = Inr (m', 0)
     \<and> mem_cells m' = patch (mem_cells m) p (take n data)
     \<and> (\<forall>nPn nDi e u. oop_lookup m' nPn nDi = Some (i, e, u) \<longrightarrow>
          (\<forall>buf sz. rh_mem_data_read_oop m' nPn nDi buf sz = Inl Deadlock)
          \<and> (\<forall>data n. rh_mem_data_write_oop m' nPn nDi data n = Inl Deadlock))
     \<and> (\<forall>ty' b' a' pt' d' us' l' k' data' n'. data_type_of b' = Some ty' \<and> sorted_points ty' m
          \<and> pl_lock (point_list ty' (s_pointMap m)) = Unlocked
          \<and> point_at ty' m a' = Some pt' \<and> iec_lookup m pt' = Found i d' us' l' \<longrightarrow>
          rh_mem_data_write_iec m' b' a' k' data' n' = Inl Deadlock
          \<and> (\<forall>buf sz tot. sum_lens us' l' (nat k') 0 = Inr tot \<and> tot \<le> sz \<longrightarrow>
               rh_mem_data_read_iec m' b' a' k' buf sz = Inl Deadlock))"
proof -
  let ?m = "ied_locked i Locked (with_data (patch (mem_cells m) p (take n data)) m)"
  have wf: "wf_mem m" "ieds_free m" using r by (simp_all add: iec_ready_def)
  note ied = iec_lookup_ied [OF wf f]
  have "smallcpy (mem_cells m) (data_addr d (elems us ! l)) data 0 (int n) = Inr (patch (mem_cells m) p (take n data))"
    using len by (simp add: smallcpy_closed at)
  then have w: "rh_mem_data_write_iec m b a k data (int n) = Inr (?m, 0)"
    by (simp add: write_iec_found [OF r ty pt f])
  have cells: "mem_cells ?m = patch (mem_cells m) p (take n data)" by (simp add: mem_cells_def)
  have m': "wf_mem ?m" "i < length (elems (mm_pIedList (s_memMap ?m)))" "ied_lock (elems (mm_pIedList (s_memMap ?m)) ! i) = Locked"
    using wf_ied_locked [of i "with_data _ m"] ied(1) wf(1) by (simp_all add: wf_mem_def ied_locked_elems)
  have same: "sorted_points ty' ?m = sorted_points ty' m" "point_list ty' (s_pointMap ?m) = point_list ty' (s_pointMap m)"
    "point_at ty' ?m a' = point_at ty' m a'" "iec_lookup ?m pt' = iec_lookup m pt'" for ty' a' pt'
    using iec_lookup_ied_locked [of i "with_data (patch (mem_cells m) p (take n data)) m"] ied(1)
    by (simp_all add: sorted_points_def point_at_def iec_lookup_def)
  note blocks = locked_device_blocks [OF m']
  note by_address = blocks(3) [unfolded same]
  show ?thesis
  proof (intro exI [of _ ?m] conjI allI impI)
    fix ty' b' a' pt' d' us' l' k' data' n'
    assume h: "data_type_of b' = Some ty' \<and> sorted_points ty' m \<and> pl_lock (point_list ty' (s_pointMap m)) = Unlocked
        \<and> point_at ty' m a' = Some pt' \<and> iec_lookup m pt' = Found i d' us' l'"
    show "rh_mem_data_write_iec ?m b' a' k' data' n' = Inl Deadlock"
      using by_address [of b' ty' a' pt' d' us' l' k' data' n'] h by blast
    fix buf sz tot assume t: "sum_lens us' l' (nat k') 0 = Inr tot \<and> tot \<le> sz"
    show "rh_mem_data_read_iec ?m b' a' k' buf sz = Inl Deadlock"
      using by_address [of b' ty' a' pt' d' us' l' k' data' n'] h t by blast
  qed (use w cells blocks(1,2) in blast)+
qed

theorem iec_write_keeps_device_locked_witness:
  "\<exists>m'. rh_mem_data_write_iec demo_iec 0 20 1 [7, 8] 2 = Inr (m', 0)
     \<and> rh_mem_data_write_iec m' 0 20 1 [7, 8] 2 = Inl Deadlock"
proof -
  have at: "data_addr demo_do (elems (Some [demo_unit 97 0 2, demo_unit 98 2 3]) ! 1) = int 3"
    using demo_iec(7) by (simp add: elems_def)
  have len: "3 + 2 \<le> length (mem_cells demo_iec)" "2 \<le> length [7, 8 :: u8]" by (simp_all add: demo_iec(8))
  obtain m' where m': "rh_mem_data_write_iec demo_iec 0 20 1 [7, 8] (int 2) = Inr (m', 0)"
    and blocked: "\<forall>ty' b' a' pt' d' us' l' k' data' n'. data_type_of b' = Some ty' \<and> sorted_points ty' demo_iec
          \<and> pl_lock (point_list ty' (s_pointMap demo_iec)) = Unlocked
          \<and> point_at ty' demo_iec a' = Some pt' \<and> iec_lookup demo_iec pt' = Found 0 d' us' l' \<longrightarrow>
          rh_mem_data_write_iec m' b' a' k' data' n' = Inl Deadlock
          \<and> (\<forall>buf sz tot. sum_lens us' l' (nat k') 0 = Inr tot \<and> tot \<le> sz \<longrightarrow>
               rh_mem_data_read_iec m' b' a' k' buf sz = Inl Deadlock)"
    using iec_write_keeps_device_locked [OF demo_iec(1-3,5) at len, of 1] by (elim exE conjE)
  have "sorted_points DATA_YC demo_iec" "pl_lock (point_list DATA_YC (s_pointMap demo_iec)) = Unlocked"
    using demo_iec(1) by (simp_all add: iec_ready_def)
  then have "rh_mem_data_write_iec m' 0 20 1 [7, 8] 2 = Inl Deadlock" using blocked demo_iec(2,3,5) by blast
  with m' show ?thesis by (auto simp only: of_nat_numeral)
qed

text \<open>
  a read by address of \<open>k\<close> consecutive fields returns the sum of their lengths and that many
  bytes from the first field on, refuses a buffer that is too small without touching it, and
  restores both mutexes and the store.
\<close>

theorem iec_read_result:
  assumes "iec_ready ty m" and "data_type_of b = Some ty" and "point_at ty m a = Some pt"
    and "iec_lookup m pt = Found i d (Some us) l"
    and "l + k \<le> length us" and "list_all (\<lambda>u. 0 \<le> du_dataLen u) (take k (drop l us))"
    and tot: "sum_list (map du_dataLen (take k (drop l us))) = int n" "n < 2 ^ 31" and at: "data_addr d (us ! l) = int p"
    and len: "p + n \<le> length (mem_cells m)" and buf: "sz = int (length buf)"
  shows "rh_mem_data_read_iec m b a (int k) buf sz =
     (if n > length buf then Inr (m, buf, - 1)
      else Inr (m, patch buf 0 (take n (drop p (mem_cells m))), int n))"
proof -
  have "smallcpy buf 0 (mem_cells m) (int p) (int n) = Inr (patch buf 0 (take n (drop p (mem_cells m))))"
    if "n \<le> length buf"
    using that len by (simp add: smallcpy_closed)
  then show ?thesis
    using read_iec_found [OF assms(1-6), of "int n" buf sz] tot at buf by simp
qed

theorem iec_read_result_witness:
  "rh_mem_data_read_iec demo_iec 0 20 1 [0, 0, 0, 0] 4 = Inr (demo_iec, [13, 14, 15, 0], 3)"
proof -
  have "rh_mem_data_read_iec demo_iec 0 20 (int 1) [0, 0, 0, 0] 4 =
     (if 3 > length [0, 0, 0, 0 :: u8] then Inr (demo_iec, [0, 0, 0, 0], - 1)
      else Inr (demo_iec, patch [0, 0, 0, 0] 0 (take 3 (drop 3 (mem_cells demo_iec))), int 3))"
    by (rule iec_read_result [OF demo_iec(1-3,5)]) (use demo_iec in \<open>simp_all add: demo_unit_def\<close>)
  then show ?thesis by (simp add: demo_iec(9) patch_def)
qed

text \<open>
  when the point's device is not in the index, the reader returns -1 with the mutex of the
  point table still held, and the next access to that table waits for ever; the writer releases
  it on the same exit.
\<close>

theorem iec_read_unknown_device_keeps_lock:
  assumes r: "iec_ready ty m" and ty: "data_type_of b = Some ty" and pt: "point_at ty m a = Some pt"
    and f: "iec_lookup m pt = NoIed"
  shows "\<exists>m'. rh_mem_data_read_iec m b a k buf sz = Inr (m', buf, - 1)
     \<and> rh_mem_data_read_iec m' b a' k' buf' sz' = Inl Deadlock
     \<and> rh_mem_data_write_iec m' b a' k' data n = Inl Deadlock
     \<and> rh_mem_data_write_iec m b a k data n = Inr (m, - 1)"
proof -
  have wf: "wf_mem m" "sorted_points ty m" and lk: "pl_lock (point_list ty (s_pointMap m)) = Unlocked"
    using r by (auto simp: iec_ready_def)
  have un: "list_lock ty Unlocked m = m" by (rule list_lock_same) (simp add: lk)
  have find: "find_iec (list_lock ty Locked m) ty a = Inr NoIed"
    using find_iec_at [of "list_lock ty Locked m" ty a pt] wf pt f by simp
  have "rh_mem_data_read_iec m b a k buf sz = Inr (list_lock ty Locked m, buf, - 1)"
    using lk find by (simp add: rh_mem_data_read_iec_def ty on_list_lock_closed)
  moreover have "rh_mem_data_write_iec m b a k data n = Inr (m, - 1)"
    using lk find un by (simp add: rh_mem_data_write_iec_def ty on_list_lock_closed)
  moreover have "rh_mem_data_read_iec (list_lock ty Locked m) b a' k' buf' sz' = Inl Deadlock"
    "rh_mem_data_write_iec (list_lock ty Locked m) b a' k' data n = Inl Deadlock"
    by (simp_all add: rh_mem_data_read_iec_def rh_mem_data_write_iec_def ty on_list_lock_closed)
  ultimately show ?thesis by blast
qed

theorem iec_read_unknown_device_keeps_lock_witness:
  "\<exists>m'. rh_mem_data_read_iec demo_iec 0 30 1 [0] 1 = Inr (m', [0], - 1)
     \<and> rh_mem_data_read_iec m' 0 20 1 [0] 1 = Inl Deadlock"
  using iec_read_unknown_device_keeps_lock [OF demo_iec(1,2,4,6)] by blast

end
