(* ===== verification/MailboxNet.thy ===== *)
theory MailboxNet
  imports EndToEnd
begin

text \<open>
  The mailbox between any number of clients and the data server's thread, one step per access to
  the shared message or to a mutex: each check of \<^verbatim>\<open>rh_msg_channel.c\<close> that reads a field is a step of
  its own, each copy of the message is one, and so is each store that frees the mailbox, since the
  mutex \<open>s_lock\<close> is private to a process and keeps no other process out.  A copy or a comparison of names
  counts as one access, which \<^verbatim>\<open>memcpy\<close> does not promise: a process may see a half-copied message, and
  the steps do not show that.  Client \<open>i\<close> makes one call of
  \<^verbatim>\<open>SmMsgSendWait\<close>; clients of one process share its mutex.  The steps are executable; a schedule is a
  list of actors.  The only thread that takes requests is the data server's.  \<open>NetCalls\<close> shows that the
  functions of \<open>MsgChannel\<close> and the thread of \<open>RhDbase\<close> are runs of these steps.
\<close>

section \<open>Processes\<close>

text \<open>
  Where a client is in \<^verbatim>\<open>SmMsgSendWait\<close>: before the mutex; about to sleep and read the state in the
  first loop; having seen the mailbox idle; about to sleep and read the state in the second loop;
  after the checks of state, synchronous mark, index and addressee; having copied the answer; about
  to release the mutex with a result; returned.  The number is \<^verbatim>\<open>time\<close>.
\<close>

datatype client_pc =
  Starting
| Sending nat
| SawIdle nat
| Waiting nat
| SawAck nat
| SawSync nat
| SawIndex nat
| Matched
| Copied RH_MSG_BUFFER_T
| Leaving "RH_MSG_BUFFER_T option" int
| Returned "RH_MSG_BUFFER_T option" int
| Crashed fault

text \<open>
  Where the thread is: in \<^verbatim>\<open>SmMsgRecv\<close> before the check of the state, after it, after the check of the
  addressee, having copied the request; in the handler; in \<^verbatim>\<open>SmMsgSendEcho\<close> before the mutex, holding
  it, having seen the mailbox idle, about to release it.
\<close>

datatype server_pc =
  Listening
| SawReq
| Accepted
| Taken RH_MSG_BUFFER_T
| Handling RH_MSG_BUFFER_T
| Answering RH_MSG_BUFFER_T
| Locked RH_MSG_BUFFER_T
| Echoing RH_MSG_BUFFER_T
| Unlocking
| Stopped fault

record net =
  mailbox :: RH_MSG_BUFFER_T
  clients :: "nat \<Rightarrow> client_pc"
  thread :: server_pc
  held :: "nat \<Rightarrow> bool"
  store :: mem_state

text \<open>
  What does not change: each client's request \<^verbatim>\<open>*pMsg\<close>, the name \<^verbatim>\<open>szSrc\<close> it waits under, its clamped
  waiting time and the time one sleep takes, its process, and the server's process.
\<close>

record net_config =
  rq :: "nat \<Rightarrow> RH_MSG_BUFFER_T"
  who :: "nat \<Rightarrow> u8 list"
  limit :: "nat \<Rightarrow> nat"
  tick :: "nat \<Rightarrow> nat"
  process :: "nat \<Rightarrow> nat"
  server :: nat

definition goto :: "nat \<Rightarrow> client_pc \<Rightarrow> net \<Rightarrow> net" where
  "goto i pc s = s\<lparr>clients := (clients s)(i := pc)\<rparr>"

definition free_box :: "net \<Rightarrow> net" where
  "free_box s = s\<lparr>mailbox := (mailbox s)\<lparr>h_state := MSG_IDLE\<rparr>\<rparr>"

definition hold :: "nat \<Rightarrow> bool \<Rightarrow> net \<Rightarrow> net" where
  "hold p b s = s\<lparr>held := (held s)(p := b)\<rparr>"

definition client_step :: "net_config \<Rightarrow> nat \<Rightarrow> net \<Rightarrow> net" where
  "client_step S i s =
     (case clients s i of
        Starting \<Rightarrow> if held s (process S i) then s else hold (process S i) True (goto i (Sending 0) s)
      | Sending t \<Rightarrow>
          if limit S i \<le> t then free_box (goto i (Leaving None (- 3)) s)
          else if h_state (mailbox s) \<noteq> MSG_IDLE then goto i (Sending (t + tick S i)) s
          else goto i (SawIdle t) s
      | SawIdle t \<Rightarrow> (goto i (Waiting t) s)\<lparr>mailbox := rq S i\<rparr>
      | Waiting t \<Rightarrow>
          if limit S i \<le> t then free_box (goto i (Leaving None (- 4)) s)
          else if h_state (mailbox s) \<noteq> MSG_ACK then goto i (Waiting (t + tick S i)) s
          else goto i (SawAck t) s
      | SawAck t \<Rightarrow> if h_sync (mailbox s) = 0 then goto i (Waiting (t + tick S i)) s else goto i (SawSync t) s
      | SawSync t \<Rightarrow>
          if h_index (mailbox s) \<noteq> h_index (rq S i) then goto i (Waiting (t + tick S i)) s
          else goto i (SawIndex t) s
      | SawIndex t \<Rightarrow>
          (case strcmp (h_szDest (mailbox s)) (who S i) of
             Inl e \<Rightarrow> goto i (Crashed e) s
           | Inr c \<Rightarrow> if c \<noteq> 0 then goto i (Waiting (t + tick S i)) s else goto i Matched s)
      | Matched \<Rightarrow> goto i (Copied (mailbox s)) s
      | Copied r \<Rightarrow> free_box (goto i (Leaving (Some r) 0) s)
      | Leaving r c \<Rightarrow> hold (process S i) False (goto i (Returned r c) s)
      | Returned r c \<Rightarrow> s
      | Crashed e \<Rightarrow> s)"

text \<open>
  The handlers of \<^verbatim>\<open>elDbase.c\<close> up to the answer they build; \<open>None\<close> for a request without handler.
\<close>

definition handle_rh :: "mem_state \<Rightarrow> RH_MSG_BUFFER_T \<Rightarrow> (mem_state \<times> RH_MSG_BUFFER_T option) res" where
  "handle_rh m req =
     (if tag_iop req = ucast IOP_DBASE_READ then
        bindR (get_pn_id (msg_pValue req)) (\<lambda>(nPn, di, nPos).
        bindR (rh_mem_data_read_oop m nPn di (replicate 128 0) 128) (\<lambda>(m, dataBuf, nRet).
        bindR (echo_msg_rh (if nRet > 0 then 0 else 1) req dataBuf nRet) (\<lambda>a. Inr (m, Some a))))
      else if tag_iop req = ucast IOP_DBASE_WRITE then
        bindR (get_pn_id (msg_pValue req)) (\<lambda>(nPn, di, nPos).
        bindR (xdr_get_OCTET_STRING (msg_pValue req) (nat nPos) (replicate 128 0) 128) (\<lambda>(dataBuf, datalen, n).
        bindR (rh_mem_data_write_oop m nPn di dataBuf (sint datalen)) (\<lambda>(m, nRet).
        bindR (echo_msg_rh (if nRet > 0 then 0 else 1) req dataBuf nRet) (\<lambda>a. Inr (m, Some a)))))
      else Inr (m, None))"

definition thread_step :: "net_config \<Rightarrow> net \<Rightarrow> net" where
  "thread_step S s =
     (case thread s of
        Listening \<Rightarrow> if h_state (mailbox s) \<noteq> MSG_REQ then s else s\<lparr>thread := SawReq\<rparr>
      | SawReq \<Rightarrow>
          (case strcmp (h_szDest (mailbox s)) RH_APP_NAME of
             Inl e \<Rightarrow> s\<lparr>thread := Stopped e\<rparr>
           | Inr c \<Rightarrow> s\<lparr>thread := if c = 0 then Accepted else Listening\<rparr>)
      | Accepted \<Rightarrow> s\<lparr>thread := Taken (mailbox s)\<rparr>
      | Taken req \<Rightarrow> free_box (s\<lparr>thread := Handling req\<rparr>)
      | Handling req \<Rightarrow>
          (case handle_rh (store s) req of
             Inl e \<Rightarrow> s\<lparr>thread := Stopped e\<rparr>
           | Inr (m, None) \<Rightarrow> s\<lparr>store := m, thread := Listening\<rparr>
           | Inr (m, Some a) \<Rightarrow> s\<lparr>store := m, thread := Answering a\<rparr>)
      | Answering a \<Rightarrow> if held s (server S) then s else hold (server S) True (s\<lparr>thread := Locked a\<rparr>)
      | Locked a \<Rightarrow> s\<lparr>thread := if h_state (mailbox s) \<noteq> MSG_IDLE then Unlocking else Echoing a\<rparr>
      | Echoing a \<Rightarrow> s\<lparr>mailbox := a, thread := Unlocking\<rparr>
      | Unlocking \<Rightarrow> hold (server S) False (s\<lparr>thread := Listening\<rparr>)
      | Stopped e \<Rightarrow> s)"

datatype actor = Client nat | Server

fun net_step :: "net_config \<Rightarrow> actor \<Rightarrow> net \<Rightarrow> net" where
  "net_step S (Client i) s = client_step S i s"
| "net_step S Server s = thread_step S s"

fun net_run :: "net_config \<Rightarrow> actor list \<Rightarrow> net \<Rightarrow> net" where
  "net_run S [] s = s"
| "net_run S (a # as) s = net_run S as (net_step S a s)"

text \<open>
  The start: an idle mailbox, free mutexes, a listening thread, clients about to call (or, as \<open>P\<close>
  says, not taking part).  The states of all interleavings are \<open>reachable\<close>.
\<close>

definition net_start :: "(nat \<Rightarrow> bool) \<Rightarrow> net \<Rightarrow> bool" where
  "net_start P s \<longleftrightarrow> h_state (mailbox s) = MSG_IDLE \<and> thread s = Listening \<and> (\<forall>p. \<not> held s p)
     \<and> (\<forall>i. clients s i = (if P i then Starting else Returned None (- 1)))"

inductive reachable :: "net_config \<Rightarrow> (nat \<Rightarrow> bool) \<Rightarrow> net \<Rightarrow> bool" for S P where
  start: "net_start P s \<Longrightarrow> reachable S P s"
| step: "reachable S P s \<Longrightarrow> reachable S P (net_step S a s)"

lemma net_run_append [simp]: "net_run S (as @ bs) s = net_run S bs (net_run S as s)"
  by (induction as arbitrary: s) simp_all

lemma reachable_run: "reachable S P s \<Longrightarrow> reachable S P (net_run S as s)"
  by (induction as arbitrary: s) (simp_all add: reachable.step)

lemma reachable_is_run: "reachable S P t \<Longrightarrow> \<exists>s as. net_start P s \<and> net_run S as s = t"
proof (induction rule: reachable.induct)
  case (start s)
  then show ?case by (metis net_run.simps(1))
next
  case (step s a)
  then obtain s0 as where "net_start P s0" "net_run S as s0 = s" by blast
  then have "net_run S (as @ [a]) s0 = net_step S a s" by simp
  with \<open>net_start P s0\<close> show ?case by blast
qed

named_theorems net_simps

declare goto_def [net_simps] free_box_def [net_simps] hold_def [net_simps]

lemma client_step_same [simp]:
  "thread (client_step S i s) = thread s" "store (client_step S i s) = store s"
  "j \<noteq> i \<Longrightarrow> clients (client_step S i s) j = clients s j"
  by (simp_all add: client_step_def net_simps split: client_pc.split sum.split)

lemma thread_step_same [simp]: "clients (thread_step S s) = clients s"
  by (simp add: thread_step_def net_simps split: server_pc.split sum.split prod.split option.split)

section \<open>The handlers\<close>

lemma handler_ignores_state [simp]: "handle_rh m (req\<lparr>h_state := x\<rparr>) = handle_rh m req"
  by (simp add: handle_rh_def echo_msg_rh_def tag_iop_def msg_pValue_def win_def)

text \<open>\<open>a\<close> is what the server answers to client \<open>j\<close>'s request from some contents of its memory.\<close>

definition reply_to :: "net_config \<Rightarrow> nat \<Rightarrow> RH_MSG_BUFFER_T \<Rightarrow> bool" where
  "reply_to S j a \<longleftrightarrow> (\<exists>m m'. handle_rh m (rq S j) = Inr (m', Some a))"

lemma handler_answers: "handle_rh m req = Inr (m', Some a) \<Longrightarrow> answers req a"
  by (auto simp: handle_rh_def bindR_eq_Inr dest!: echo_msg_answers split: if_splits)

lemma reply_answers: "reply_to S j a \<Longrightarrow> answers (rq S j) a"
  using handler_answers by (auto simp: reply_to_def)

lemma reply_head:
  assumes "reply_to S j a"
  shows "h_state a = MSG_ACK" "h_index a = h_index (rq S j)" "h_sync a = h_sync (rq S j)"
    "terminated (h_szDest a)" "ccont (h_szDest a) = ccont (h_szSrce (rq S j))"
  using reply_answers [OF assms] by (simp_all add: answers_def)

end
