(* ===== verification/NetCalls.thy ===== *)
theory NetCalls
  imports MailboxNet
begin

text \<open>
  The functions of \<^verbatim>\<open>rh_msg_channel.c\<close> as runs of the steps of \<open>MailboxNet\<close>: one iteration of the server's
  thread, and a call of \<^verbatim>\<open>SmMsgSendWait\<close> during whose sleeps the other actors follow a schedule.
\<close>

section \<open>One iteration of the server's thread\<close>

lemma recv_open:
  assumes "os_ok os"
  shows "SmMsgRecv os nm key buf ch =
     (let seg = box ch key in
      if h_state seg \<noteq> MSG_REQ then Inr (put_box ch key seg, buf, - 3)
      else bindR (strcmp (h_szDest seg) nm) (\<lambda>c.
        if c = 0 then Inr (put_box ch key (seg\<lparr>h_state := MSG_IDLE\<rparr>), seg, 0)
        else Inr (put_box ch key seg, buf, - 4)))"
  using assms by (simp add: SmMsgRecv_def get_que shmat_ok Let_def cong: if_cong)

lemma dispatch_handle:
  "dispatch s_dbaseMsgMap_rh os req p =
     bindR (handle_rh (dp_mem p) req) (\<lambda>(m, a).
       case a of
         None \<Rightarrow> Inr p
       | Some a \<Rightarrow> bindR (SmMsgSendEcho os EL_KEY_ID a (dp_chan p)) (\<lambda>(ch, _). Inr (p\<lparr>dp_mem := m, dp_chan := ch\<rparr>)))"
proof -
  have iop: "(ucast IOP_DBASE_READ :: u16) \<noteq> ucast IOP_DBASE_WRITE" by (simp add: ucast_iop)
  consider "tag_iop req = ucast IOP_DBASE_READ" | "tag_iop req = ucast IOP_DBASE_WRITE"
    | "tag_iop req \<noteq> ucast IOP_DBASE_READ" "tag_iop req \<noteq> ucast IOP_DBASE_WRITE" by blast
  then show ?thesis
    by cases (use iop in \<open>auto simp: s_dbaseMsgMap_rh_def handle_rh_def read_mem_data_def write_mem_data_def
        el_msg_echo_rh_def Let_def bindR_def split: sum.split prod.split\<close>)
qed

lemma handle_none: "handle_rh m req = Inr (m', None) \<Longrightarrow> m' = m"
  by (auto simp: handle_rh_def bindR_eq_Inr split: if_splits)

lemma echo_run:
  assumes "thread s = Answering a" and "\<not> held s (server S)" and "mailbox s = box ch EL_KEY_ID"
    and "os_ok os" and "ch_lock ch = LkFree"
  shows "\<exists>n ch' r. SmMsgSendEcho os EL_KEY_ID a ch = Inr (ch', r) \<and> n \<le> 4 \<and> ch_lock ch' = LkFree
     \<and> net_run S (replicate n Server) s = s\<lparr>mailbox := box ch' EL_KEY_ID, thread := Listening\<rparr>"
proof (cases "h_state (box ch EL_KEY_ID) = MSG_IDLE")
  case True
  have "net_run S (replicate 4 Server) s = s\<lparr>mailbox := a, thread := Listening\<rparr>"
    using assms True by (simp add: numeral_eq_Suc thread_step_def net_simps fun_upd_idem)
  then show ?thesis using SmMsgSendEcho_closed [OF assms(4,5), of EL_KEY_ID a] True assms(5)
    by (intro exI [of _ 4]) simp
next
  case False
  have "net_run S (replicate 3 Server) s = s\<lparr>mailbox := box ch EL_KEY_ID, thread := Listening\<rparr>"
    using assms(1-3) False by (cases s) (simp add: numeral_eq_Suc thread_step_def net_simps fun_upd_idem)
  then show ?thesis using SmMsgSendEcho_closed [OF assms(4,5), of EL_KEY_ID a] False assms(5)
    by (intro exI [of _ 3]) simp
qed

lemma taken_run:
  assumes "thread s = Listening" and "h_state (mailbox s) = MSG_REQ"
    and "strcmp (h_szDest (mailbox s)) RH_APP_NAME = Inr 0"
  shows "net_run S (replicate 4 Server) s =
     s\<lparr>mailbox := (mailbox s)\<lparr>h_state := MSG_IDLE\<rparr>, thread := Handling (mailbox s)\<rparr>"
  using assms by (simp add: numeral_eq_Suc thread_step_def net_simps)

lemma replicate_add_run:
  "net_run S (replicate (m + n) a) s = net_run S (replicate n a) (net_run S (replicate m a) s)"
  by (simp add: replicate_add)

lemma thread_iteration_run:
  assumes "os_ok os" and "ch_lock (dp_chan p) = LkFree" and "thread s = Listening"
    and "\<not> held s (server S)" and box: "mailbox s = box (dp_chan p) EL_KEY_ID" and mem: "store s = dp_mem p"
  shows "\<exists>n \<le> 9. case elDbaseProc_rh os p of
       Inl e \<Rightarrow> thread (net_run S (replicate n Server) s) = Stopped e
     | Inr p' \<Rightarrow> net_run S (replicate n Server) s = s\<lparr>mailbox := box (dp_chan p') EL_KEY_ID, store := dp_mem p'\<rparr>
         \<and> ch_lock (dp_chan p') = LkFree"
proof -
  let ?seg = "box (dp_chan p) EL_KEY_ID" and ?ch = "\<lambda>m. put_box (dp_chan p) EL_KEY_ID m"
  note recv = recv_open [OF assms(1), of RH_APP_NAME EL_KEY_ID zero_msg "dp_chan p"]
  consider "h_state ?seg \<noteq> MSG_REQ"
    | e where "h_state ?seg = MSG_REQ" "strcmp (h_szDest ?seg) RH_APP_NAME = Inl e"
    | c where "h_state ?seg = MSG_REQ" "strcmp (h_szDest ?seg) RH_APP_NAME = Inr c" "c \<noteq> 0"
    | "h_state ?seg = MSG_REQ" "strcmp (h_szDest ?seg) RH_APP_NAME = Inr 0"
    by (metis sum.exhaust)
  then show ?thesis
  proof cases
    case 1
    then have "elDbaseProc_rh os p = Inr (p\<lparr>dp_chan := ?ch ?seg\<rparr>)" by (simp add: elDbaseProc_rh_def recv Let_def)
    then show ?thesis using assms 1 by (intro exI [of _ 0]) simp
  next
    case 2
    then have "elDbaseProc_rh os p = Inl e" by (simp add: elDbaseProc_rh_def recv Let_def)
    moreover have "thread (net_run S (replicate 2 Server) s) = Stopped e"
      using assms 2 by (simp add: numeral_2_eq_2 thread_step_def)
    ultimately show ?thesis by (intro exI [of _ 2]) simp
  next
    case 3
    then have "elDbaseProc_rh os p = Inr (p\<lparr>dp_chan := ?ch ?seg\<rparr>)" by (simp add: elDbaseProc_rh_def recv Let_def)
    moreover have "net_run S (replicate 2 Server) s = s"
      using assms(3,5) 3 by (simp add: numeral_2_eq_2 thread_step_def)
    ultimately show ?thesis using assms by (intro exI [of _ 2]) simp
  next
    case 4
    let ?p = "p\<lparr>dp_chan := ?ch (?seg\<lparr>h_state := MSG_IDLE\<rparr>)\<rparr>"
      and ?s = "s\<lparr>mailbox := ?seg\<lparr>h_state := MSG_IDLE\<rparr>, thread := Handling ?seg\<rparr>"
    have p: "elDbaseProc_rh os p = dispatch s_dbaseMsgMap_rh os ?seg ?p"
      using 4 by (simp add: elDbaseProc_rh_def recv Let_def)
    have run: "net_run S (replicate 4 Server) s = ?s" using taken_run [of s S] 4 assms(3) box by simp
    consider e where "handle_rh (dp_mem p) ?seg = Inl e" | "handle_rh (dp_mem p) ?seg = Inr (dp_mem p, None)"
      | m a where "handle_rh (dp_mem p) ?seg = Inr (m, Some a)"
      using handle_none by (metis sum.exhaust prod.exhaust option.exhaust)
    then show ?thesis
    proof cases
      case (1 e)
      then have "elDbaseProc_rh os p = Inl e" using p by (simp add: dispatch_handle)
      moreover have "thread (net_run S (replicate (4 + 1) Server) s) = Stopped e"
        unfolding replicate_add_run run using 1 mem by (simp add: thread_step_def)
      ultimately show ?thesis by (intro exI [of _ 5]) simp
    next
      case 2
      then have "elDbaseProc_rh os p = Inr ?p" using p by (simp add: dispatch_handle)
      moreover have "net_run S (replicate (4 + 1) Server) s = s\<lparr>mailbox := ?seg\<lparr>h_state := MSG_IDLE\<rparr>\<rparr>"
        unfolding replicate_add_run run using 2 mem assms(3) by (cases s) (simp add: thread_step_def)
      ultimately show ?thesis using mem assms(2) by (intro exI [of _ 5]) simp
    next
      case (3 m a)
      let ?t = "?s\<lparr>store := m, thread := Answering a\<rparr>"
      have r1: "net_run S (replicate (4 + 1) Server) s = ?t"
        unfolding replicate_add_run run using 3 mem by (simp add: thread_step_def)
      obtain n ch' r where e: "SmMsgSendEcho os EL_KEY_ID a (dp_chan ?p) = Inr (ch', r)" "n \<le> 4" "ch_lock ch' = LkFree"
        "net_run S (replicate n Server) ?t = ?t\<lparr>mailbox := box ch' EL_KEY_ID, thread := Listening\<rparr>"
        using echo_run [of ?t a S "dp_chan ?p" os] assms(1,2,4) by auto
      have "elDbaseProc_rh os p = Inr (?p\<lparr>dp_mem := m, dp_chan := ch'\<rparr>)" using p 3 e(1) by (simp add: dispatch_handle)
      moreover have "net_run S (replicate (4 + 1 + n) Server) s = s\<lparr>mailbox := box ch' EL_KEY_ID, store := m\<rparr>"
        unfolding replicate_add_run [of S "4 + 1"] r1 e(4) using assms(3) by (cases s) simp
      ultimately show ?thesis using e(2,3) by (intro exI [of _ "5 + n"]) simp
    qed
  qed
qed

section \<open>A call of SmMsgSendWait\<close>

text \<open>The environment of a caller that sleeps: in its \<open>k\<close>-th sleep the others follow \<open>sched k\<close>.\<close>

definition beside :: "net_config \<Rightarrow> (nat \<Rightarrow> actor list) \<Rightarrow> net tick_env" where
  "beside S sched = (\<lambda>k (seg, s). let t = net_run S (sched k) (s\<lparr>mailbox := seg\<rparr>) in (mailbox t, t))"

text \<open>The others neither see nor change where client \<open>i\<close> is.\<close>

lemma step_frame: "a \<noteq> Client i \<Longrightarrow> net_step S a (goto i pc s) = goto i pc (net_step S a s)"
proof (cases a)
  case (Client j)
  moreover assume "a \<noteq> Client i"
  ultimately show ?thesis
    by (simp add: client_step_def net_simps fun_upd_twist split: client_pc.split sum.split)
next
  case Server
  then show ?thesis
    by (simp add: thread_step_def net_simps split: server_pc.split sum.split prod.split option.split)
qed

lemma run_frame: "Client i \<notin> set as \<Longrightarrow> net_run S as (goto i pc s) = goto i pc (net_run S as s)"
  by (induction as arbitrary: s) (auto simp: step_frame)

lemma goto_simps [simp]:
  "clients (goto i pc s) i = pc" "mailbox (goto i pc s) = mailbox s" "held (goto i pc s) = held s"
  "goto i pc (goto i pc' s) = goto i pc s" "(goto i pc s)\<lparr>mailbox := m\<rparr> = goto i pc (s\<lparr>mailbox := m\<rparr>)"
  "store (goto i pc s) = store s" "thread (goto i pc s) = thread s" "j \<noteq> i \<Longrightarrow> clients (goto i pc s) j = clients s j"
  by (simp_all add: goto_def)

lemma mailbox_same [simp]: "s\<lparr>mailbox := mailbox s\<rparr> = s"
  by (cases s) simp

lemma others_only: "Client i \<notin> set as \<Longrightarrow> filter (\<lambda>a. a \<noteq> Client i) as = as"
  by (induction as) auto

text \<open>The schedule of sleeps \<open>k\<close> to \<open>k' - 1\<close>, with the caller's own steps between them.\<close>

definition interleaves :: "(nat \<Rightarrow> actor list) \<Rightarrow> nat \<Rightarrow> nat \<Rightarrow> nat \<Rightarrow> actor list \<Rightarrow> bool" where
  "interleaves sched i k k' as \<longleftrightarrow> k \<le> k' \<and> filter (\<lambda>a. a \<noteq> Client i) as = concat (map sched [k..<k'])"

lemma interleaves_none: "interleaves sched i k k (replicate n (Client i))"
  by (simp add: interleaves_def)

lemma interleaves_sleep:
  assumes "Client i \<notin> set (sched k)" and "interleaves sched i (Suc k) k' as"
  shows "interleaves sched i k k' (sched k @ replicate n (Client i) @ as)"
  using assms by (simp add: interleaves_def others_only upt_conv_Cons)

lemma interleaves_append:
  assumes "interleaves sched i k k' as" and "interleaves sched i k' k'' bs"
  shows "interleaves sched i k k'' (as @ bs)"
proof -
  have "[k..<k''] = [k..<k'] @ [k'..<k'']"
    using assms upt_add_eq_append [of k k' "k'' - k'"] by (simp add: interleaves_def)
  then show ?thesis using assms by (simp add: interleaves_def)
qed

lemma after_sleep:
  assumes "Client i \<notin> set (sched k)" and "beside S sched k (seg, s) = (seg', s')"
  shows "net_run S (sched k) (goto i pc (s\<lparr>mailbox := seg\<rparr>)) = goto i pc (s'\<lparr>mailbox := seg'\<rparr>)"
  using assms by (auto simp: beside_def run_frame Let_def)

lemma send_poll_run:
  assumes others: "\<forall>k. Client i \<notin> set (sched k)" and W: "W = limit S i" "step = tick S i" "0 < step"
  shows "send_poll (beside S sched) step W (rq S i) k t (seg, s) = (t', k', seg', s') \<Longrightarrow>
     \<exists>as. interleaves sched i k k' as \<and> net_run S as (goto i (Sending t) (s\<lparr>mailbox := seg\<rparr>)) =
       goto i (if t' < W then Waiting t' else Sending t') (s'\<lparr>mailbox := seg'\<rparr>)"
proof (induction "W - t" arbitrary: k t seg s rule: less_induct)
  case less
  show ?case
  proof (cases "t < W")
    case False
    then have "t' = t" "k' = k" "seg' = seg" "s' = s" using less.prems by (simp_all add: send_poll_end)
    then show ?thesis using False interleaves_none [of sched i k 0] by (intro exI [of _ "[]"]) simp
  next
    case True
    obtain seg1 s1 where e: "beside S sched k (seg, s) = (seg1, s1)" by (metis surj_pair)
    have o: "Client i \<notin> set (sched k)" using others by blast
    note sleep = after_sleep [OF o e, of "Sending t"]
    show ?thesis
    proof (cases "h_state seg1 = MSG_IDLE")
      case idle: True
      then have r: "t' = t" "k' = Suc k" "seg' = rq S i" "s' = s1"
        using less.prems True W(3) e by (simp_all add: send_poll_step)
      let ?as = "sched k @ replicate 2 (Client i)"
      have "net_run S ?as (goto i (Sending t) (s\<lparr>mailbox := seg\<rparr>)) = goto i (Waiting t) (s1\<lparr>mailbox := rq S i\<rparr>)"
        using sleep idle True W(1) by (simp add: numeral_2_eq_2 client_step_def)
      moreover have "interleaves sched i k k' ?as"
        using interleaves_sleep [where n = 2, OF o interleaves_none [of sched i "Suc k" 0]] r(2) by simp
      ultimately show ?thesis using r True by auto
    next
      case busy: False
      then have "send_poll (beside S sched) step W (rq S i) (Suc k) (t + step) (seg1, s1) = (t', k', seg', s')"
        using less.prems True W(3) e by (simp add: send_poll_step)
      moreover have "W - (t + step) < W - t" using True W(3) by simp
      ultimately obtain as where as: "interleaves sched i (Suc k) k' as"
        "net_run S as (goto i (Sending (t + step)) (s1\<lparr>mailbox := seg1\<rparr>)) =
          goto i (if t' < W then Waiting t' else Sending t') (s'\<lparr>mailbox := seg'\<rparr>)" using less.hyps by blast
      have "net_run S (sched k @ replicate 1 (Client i)) (goto i (Sending t) (s\<lparr>mailbox := seg\<rparr>)) =
          goto i (Sending (t + step)) (s1\<lparr>mailbox := seg1\<rparr>)"
        using sleep busy True W(1,2) by (simp add: client_step_def)
      with as show ?thesis
        using interleaves_sleep [OF o as(1), of 1] by (intro exI [of _ "sched k @ replicate 1 (Client i) @ as"]) simp
    qed
  qed
qed

text \<open>The number of checks the message \<open>m\<close> passes, each an access, and where the caller is then.\<close>

definition checks :: "net_config \<Rightarrow> nat \<Rightarrow> RH_MSG_BUFFER_T \<Rightarrow> nat" where
  "checks S i m = (if h_state m \<noteq> MSG_ACK then 1 else if h_sync m = 0 then 2
     else if h_index m \<noteq> h_index (rq S i) then 3 else 4)"

definition checked :: "net_config \<Rightarrow> nat \<Rightarrow> nat \<Rightarrow> RH_MSG_BUFFER_T \<Rightarrow> client_pc" where
  "checked S i t m =
     (if checks S i m < 4 then Waiting (t + tick S i)
      else case strcmp (h_szDest m) (who S i) of
             Inl e \<Rightarrow> Crashed e | Inr c \<Rightarrow> if c \<noteq> 0 then Waiting (t + tick S i) else Matched)"

lemma checks_run:
  "t < limit S i \<Longrightarrow> net_run S (replicate (checks S i (mailbox s)) (Client i)) (goto i (Waiting t) s) =
     goto i (checked S i t (mailbox s)) s"
  by (simp add: checks_def checked_def numeral_eq_Suc client_step_def split: sum.split)

lemma recv_poll_checked:
  assumes "t < W" and "0 < step" and "env k sw = (seg, w)" and "step = tick S i"
  shows "recv_poll env step W (who S i) (rq S i) k t sw =
     (case checked S i t seg of
        Crashed e \<Rightarrow> Inl e
      | Matched \<Rightarrow> Inr (Some seg, Suc k, seg\<lparr>h_state := MSG_IDLE\<rparr>, w)
      | _ \<Rightarrow> recv_poll env step W (who S i) (rq S i) (Suc k) (t + step) (seg, w))"
  using assms by (subst recv_poll.simps) (simp add: checked_def checks_def bindR_def split: sum.split)

lemma checked_cases:
  "(\<exists>e. checked S i t m = Crashed e) \<or> checked S i t m = Matched \<or> checked S i t m = Waiting (t + tick S i)"
  by (simp add: checked_def split: sum.split)

lemma recv_poll_run:
  assumes others: "\<forall>k. Client i \<notin> set (sched k)" and W: "W = limit S i" "step = tick S i" "0 < step"
  shows "case recv_poll (beside S sched) step W (who S i) (rq S i) k t (seg, s) of
       Inl e \<Rightarrow> \<exists>as k'. interleaves sched i k k' as
         \<and> clients (net_run S as (goto i (Waiting t) (s\<lparr>mailbox := seg\<rparr>))) i = Crashed e
     | Inr (r, k', seg', s') \<Rightarrow> \<exists>as. interleaves sched i k k' as
         \<and> net_run S as (goto i (Waiting t) (s\<lparr>mailbox := seg\<rparr>)) =
            goto i (Leaving r (if r = None then - 4 else 0)) (s'\<lparr>mailbox := seg'\<lparr>h_state := MSG_IDLE\<rparr>\<rparr>)"
proof (induction "W - t" arbitrary: k t seg s rule: less_induct)
  case less
  show ?case
  proof (cases "t < W")
    case False
    have "net_run S (replicate 1 (Client i)) (goto i (Waiting t) (s\<lparr>mailbox := seg\<rparr>)) =
        goto i (Leaving None (- 4)) (s\<lparr>mailbox := seg\<lparr>h_state := MSG_IDLE\<rparr>\<rparr>)"
      using False W(1) by (simp add: client_step_def free_box_def)
    then have "\<exists>as. interleaves sched i k k as \<and> net_run S as (goto i (Waiting t) (s\<lparr>mailbox := seg\<rparr>)) =
        goto i (Leaving None (- 4)) (s\<lparr>mailbox := seg\<lparr>h_state := MSG_IDLE\<rparr>\<rparr>)" using interleaves_none by blast
    then show ?thesis using False by (simp add: recv_poll_end)
  next
    case True
    obtain seg1 s1 where e: "beside S sched k (seg, s) = (seg1, s1)" by (metis surj_pair)
    have o: "Client i \<notin> set (sched k)" using others by blast
    let ?n = "checks S i seg1"
    have run: "net_run S (sched k @ replicate ?n (Client i)) (goto i (Waiting t) (s\<lparr>mailbox := seg\<rparr>)) =
        goto i (checked S i t seg1) (s1\<lparr>mailbox := seg1\<rparr>)"
      using after_sleep [OF o e, of "Waiting t"] checks_run [of t S i "s1\<lparr>mailbox := seg1\<rparr>"] True W(1) by simp
    note step = recv_poll_checked [where env = "beside S sched" and k = k and sw = "(seg, s)", OF True W(3) e W(2)]
    have i: "interleaves sched i k (Suc k) (sched k @ replicate n (Client i))" for n
      using interleaves_sleep [OF o interleaves_none [of sched i "Suc k" 0], of n] by simp
    consider e where "checked S i t seg1 = Crashed e" | "checked S i t seg1 = Matched"
      | "checked S i t seg1 = Waiting (t + step)" using checked_cases W(2) by blast
    then show ?thesis
    proof cases
      case (1 e)
      have "clients (net_run S (sched k @ replicate ?n (Client i)) (goto i (Waiting t) (s\<lparr>mailbox := seg\<rparr>))) i = Crashed e"
        unfolding run by (simp add: 1)
      then have "\<exists>as k'. interleaves sched i k k' as
          \<and> clients (net_run S as (goto i (Waiting t) (s\<lparr>mailbox := seg\<rparr>))) i = Crashed e" using i by blast
      then show ?thesis using 1 step by simp
    next
      case 2
      let ?as = "(sched k @ replicate ?n (Client i)) @ replicate 2 (Client i)"
      have "net_run S ?as (goto i (Waiting t) (s\<lparr>mailbox := seg\<rparr>)) =
          goto i (Leaving (Some seg1) 0) (s1\<lparr>mailbox := seg1\<lparr>h_state := MSG_IDLE\<rparr>\<rparr>)"
        unfolding net_run_append [of S "sched k @ replicate ?n (Client i)"] run
        by (simp add: 2 numeral_2_eq_2 client_step_def free_box_def)
      moreover have "interleaves sched i k (Suc k) ?as" using i [of "?n + 2"] by (simp only: replicate_add append_assoc)
      ultimately have "\<exists>as. interleaves sched i k (Suc k) as \<and> net_run S as (goto i (Waiting t) (s\<lparr>mailbox := seg\<rparr>)) =
          goto i (Leaving (Some seg1) 0) (s1\<lparr>mailbox := seg1\<lparr>h_state := MSG_IDLE\<rparr>\<rparr>)" by blast
      then show ?thesis using 2 step by simp
    next
      case 3
      have r: "recv_poll (beside S sched) step W (who S i) (rq S i) k t (seg, s) =
          recv_poll (beside S sched) step W (who S i) (rq S i) (Suc k) (t + step) (seg1, s1)" using 3 step by simp
      have ih: "W - (t + step) < W - t" using True W(3) by simp
      have go: "net_run S ((sched k @ replicate ?n (Client i)) @ as) (goto i (Waiting t) (s\<lparr>mailbox := seg\<rparr>)) =
          net_run S as (goto i (Waiting (t + step)) (s1\<lparr>mailbox := seg1\<rparr>))" for as
        unfolding net_run_append [of S "sched k @ replicate ?n (Client i)"] run 3 ..
      have in': "interleaves sched i (Suc k) k' as \<Longrightarrow> interleaves sched i k k' ((sched k @ replicate ?n (Client i)) @ as)" for k' as
        using interleaves_sleep [of i sched k, OF o] by simp
      show ?thesis
        using less.hyps [OF ih, of "Suc k" seg1 s1] unfolding r
        by (auto split: sum.splits simp del: append_assoc net_run_append) (metis go in')+
    qed
  qed
qed

text \<open>The whole call, made in the state \<open>s\<close>; the world of the environment has the caller's mutex held.\<close>

lemma send_wait_run:
  assumes "os_ok os" and "ch_lock ch = LkFree" and others: "\<forall>k. Client i \<notin> set (sched k)"
    and s: "clients s i = Starting" "\<not> held s (process S i)" "mailbox s = box ch key"
    and W: "limit S i = unat (clamp_wait nWaittime) * unit" "tick S i = step" "0 < step"
  shows "case send_wait step unit os (beside S sched) (who S i) key (rq S i) pRet nWaittime ch (hold (process S i) True s) of
       Inl e \<Rightarrow> \<exists>as n. interleaves sched i 0 n as \<and> clients (net_run S as s) i = Crashed e
     | Inr (ch', s', ret, r) \<Rightarrow> \<exists>as n. interleaves sched i 0 n as
         \<and> net_run S as s = hold (process S i) False (goto i (Returned (if r = 0 then Some ret else None) r)
              (s'\<lparr>mailbox := box ch' key\<rparr>))
         \<and> ch_lock ch' = LkFree"
proof -
  let ?p = "process S i" and ?W = "limit S i" and ?e = "beside S sched"
  let ?s = "hold ?p True s"
  obtain t k seg s1 where p: "send_poll ?e step ?W (rq S i) 0 0 (box ch key, ?s) = (t, k, seg, s1)" by (metis surj_pair)
  have "?s\<lparr>mailbox := box ch key\<rparr> = ?s" using s(3) by (cases s) (simp add: hold_def)
  then obtain as where as: "interleaves sched i 0 k as"
      "net_run S as (goto i (Sending 0) ?s) = goto i (if t < ?W then Waiting t else Sending t) (s1\<lparr>mailbox := seg\<rparr>)"
    using send_poll_run [OF others refl W(2) [symmetric] W(3) p] by auto
  have "client_step S i s = goto i (Sending 0) ?s" using s(1,2) by (simp add: client_step_def net_simps)
  then have lock: "net_run S (replicate 1 (Client i) @ as) s =
      goto i (if t < ?W then Waiting t else Sending t) (s1\<lparr>mailbox := seg\<rparr>)" using as(2) by simp
  have lock': "interleaves sched i 0 k (replicate 1 (Client i) @ as)" using as(1) by (simp add: interleaves_def)
  have leave: "net_run S (replicate 1 (Client i)) (goto i (Leaving r c) v) = hold ?p False (goto i (Returned r c) v)" for r c v
    by (simp add: client_step_def)
  have own: "interleaves sched i k k' bs \<Longrightarrow> interleaves sched i 0 k' ((replicate 1 (Client i) @ as) @ bs @ replicate 1 (Client i))" for k' bs
    using interleaves_append [OF lock', of k' bs] by (simp add: interleaves_def)
  note closed = send_wait_closed [OF assms(1,2), of step unit ?e "who S i" key "rq S i" pRet nWaittime ?s,
      unfolded W(1) [symmetric] p Let_def prod.case]
  show ?thesis
  proof (cases "?W \<le> t")
    case True
    have "net_run S (replicate 1 (Client i)) (goto i (Sending t) (s1\<lparr>mailbox := seg\<rparr>)) =
        goto i (Leaving None (- 3)) (s1\<lparr>mailbox := seg\<lparr>h_state := MSG_IDLE\<rparr>\<rparr>)"
      using True by (simp add: client_step_def free_box_def)
    with lock True have "net_run S ((replicate 1 (Client i) @ as) @ replicate 1 (Client i) @ replicate 1 (Client i)) s =
        hold ?p False (goto i (Returned None (- 3)) (s1\<lparr>mailbox := seg\<lparr>h_state := MSG_IDLE\<rparr>\<rparr>))"
      unfolding net_run_append [of S "replicate 1 (Client i) @ as"] net_run_append [of S "replicate 1 (Client i)" "replicate 1 (Client i)"]
      by (simp only: leave not_less [symmetric] if_False)
    then show ?thesis
      using True closed own [OF interleaves_none [of sched i k 1]] assms(2) by auto
  next
    case False
    note run = recv_poll_run [OF others refl W(2) [symmetric] W(3), of k t seg s1]
    show ?thesis
    proof (cases "recv_poll ?e step ?W (who S i) (rq S i) k t (seg, s1)")
      case (Inl e)
      with run obtain bs k' where "interleaves sched i k k' bs"
        "clients (net_run S bs (goto i (Waiting t) (s1\<lparr>mailbox := seg\<rparr>))) i = Crashed e" by auto
      then have "interleaves sched i 0 k' ((replicate 1 (Client i) @ as) @ bs)"
        "clients (net_run S ((replicate 1 (Client i) @ as) @ bs) s) i = Crashed e"
        using interleaves_append [OF lock'] lock False by (simp_all only: net_run_append [of S "replicate 1 (Client i) @ as"]) simp
      then show ?thesis using closed Inl False by auto
    next
      case (Inr z)
      obtain r k' seg' s' where z: "z = (r, k', seg', s')" by (cases z)
      with run Inr obtain bs where bs: "interleaves sched i k k' bs"
        "net_run S bs (goto i (Waiting t) (s1\<lparr>mailbox := seg\<rparr>)) =
          goto i (Leaving r (if r = None then - 4 else 0)) (s'\<lparr>mailbox := seg'\<lparr>h_state := MSG_IDLE\<rparr>\<rparr>)" by auto
      have "net_run S ((replicate 1 (Client i) @ as) @ bs @ replicate 1 (Client i)) s =
          hold ?p False (goto i (Returned r (if r = None then - 4 else 0)) (s'\<lparr>mailbox := seg'\<lparr>h_state := MSG_IDLE\<rparr>\<rparr>))"
        unfolding net_run_append [of S "replicate 1 (Client i) @ as"] lock
        using False bs(2) by (simp only: net_run_append leave if_True not_le)
      then show ?thesis using closed Inr z False own [OF bs(1)] assms(2) by (cases r) auto
    qed
  qed
qed

section \<open>An example\<close>

text \<open>
  Client 0 is the energy-loss application reading field 5 of point 1 of \<open>demo_mem\<close>, client 1 another
  program; the processes are 1, 2 and, of the server, 0.
\<close>

definition demo_rq :: "nat \<Rightarrow> RH_MSG_BUFFER_T" where
  "demo_rq i = (if i = 0 then (case read_req_el 0 1 5 of Inl e \<Rightarrow> zero_msg | Inr (seq, m) \<Rightarrow> m)
     else zero_msg\<lparr>h_state := MSG_REQ, h_sync := 1, h_index := 1,
       h_szSrce := [116, 115, 116] @ replicate 61 0, h_szDest := RH_APP_NAME @ replicate 58 0\<rparr>)"

definition demo_config :: net_config where
  "demo_config = \<lparr>rq = demo_rq, who = (\<lambda>i. if i = 0 then EL_APP_NAME else [116, 115, 116, 0]),
     limit = (\<lambda>i. 30), tick = (\<lambda>i. 1), process = Suc, server = 0\<rparr>"

definition demo_net :: "(nat \<Rightarrow> bool) \<Rightarrow> net" where
  "demo_net P = \<lparr>mailbox = idle_box, clients = (\<lambda>i. if P i then Starting else Returned None (- 1)),
     thread = Listening, held = (\<lambda>p. False), store = demo_mem\<rparr>"

lemma demo_start: "net_start P (demo_net P)"
  by (simp add: net_start_def demo_net_def idle_box_def)

lemma demo_request: "read_req_el 0 1 5 = Inr (1, demo_rq 0)" "request 0 EL_APP_NAME RH_APP_NAME 0x10 (demo_rq 0)"
  "req_key (demo_rq 0) = (1, 5)"
  using read_req_el_ok [of 0 1 5] by (auto simp: demo_rq_def)

lemma handle_read:
  assumes "valid_mem m" and "wf_msg req" and "terminated (h_szSrce req)" "terminated (h_szDest req)"
    and "tag_iop req = 0x10" and "oop_field m (req_key req) = Some (a, n)" and "n \<le> 128"
  shows "\<exists>m' ack. handle_rh m req = Inr (m', Some ack)"
proof -
  have "ready good_os (demo_server\<lparr>dp_mem := m\<rparr>)" using assms(1) by (simp add: ready_def demo_server_def good_os_ok)
  moreover have "askable req" using assms(2-4) by (simp add: askable_def)
  ultimately obtain p where "read_mem_data good_os req (demo_server\<lparr>dp_mem := m\<rparr>) = Inr (p, 0)"
    using read_mem_data_known [of good_os "demo_server\<lparr>dp_mem := m\<rparr>" req a n] assms(6,7) by auto
  then obtain nPn di k m1 buf n1 x where "get_pn_id (msg_pValue req) = Inr (nPn, di, k)"
      "rh_mem_data_read_oop m nPn di (replicate 128 0) 128 = Inr (m1, buf, n1)"
      "echo_msg_rh (if n1 > 0 then 0 else 1) req buf n1 = Inr x"
    by (auto simp: read_mem_data_def el_msg_echo_rh_def bindR_eq_Inr Let_def)
  then show ?thesis using assms(5) by (simp add: handle_rh_def ucast_iop)
qed

lemma demo_handled: "\<exists>m' a. handle_rh demo_mem (demo_rq 0) = Inr (m', Some a)"
  by (rule handle_read [where a = 1 and n = 2])
    (use demo_request(2,3) demo_mem in \<open>simp_all add: request_def\<close>)

section \<open>Properties\<close>

text \<open>
  C19: one iteration of the server's thread is a run of at most nine accesses of the net's server: it
  leaves the same message in the mailbox and the same data memory, and faults when the iteration
  does.
\<close>

theorem thread_iteration_is_run:
  assumes "os_ok os" and "ch_lock (dp_chan p) = LkFree" and "thread s = Listening"
    and "\<not> held s (server S)" and "mailbox s = box (dp_chan p) EL_KEY_ID" and "store s = dp_mem p"
  shows "\<exists>n \<le> 9. case elDbaseProc_rh os p of
       Inl e \<Rightarrow> thread (net_run S (replicate n Server) s) = Stopped e
     | Inr p' \<Rightarrow> net_run S (replicate n Server) s = s\<lparr>mailbox := box (dp_chan p') EL_KEY_ID, store := dp_mem p'\<rparr>
         \<and> ch_lock (dp_chan p') = LkFree"
  using assms by (rule thread_iteration_run)

theorem thread_iteration_is_run_witness:
  "\<exists>n \<le> 9. case elDbaseProc_rh good_os (with_box (demo_rq 0) demo_server) of
       Inl e \<Rightarrow> thread (net_run demo_config (replicate n Server) ((demo_net (\<lambda>i. False))\<lparr>mailbox := demo_rq 0\<rparr>)) = Stopped e
     | Inr p' \<Rightarrow> net_run demo_config (replicate n Server) ((demo_net (\<lambda>i. False))\<lparr>mailbox := demo_rq 0\<rparr>) =
           (demo_net (\<lambda>i. False))\<lparr>mailbox := demo_rq 0, mailbox := box (dp_chan p') EL_KEY_ID, store := dp_mem p'\<rparr>
         \<and> ch_lock (dp_chan p') = LkFree"
proof -
  let ?s = "(demo_net (\<lambda>i. False))\<lparr>mailbox := demo_rq 0\<rparr>" and ?p = "with_box (demo_rq 0) demo_server"
  have "ch_lock (dp_chan ?p) = LkFree" "thread ?s = Listening" "\<not> held ?s (server demo_config)"
    "mailbox ?s = box (dp_chan ?p) EL_KEY_ID" "store ?s = dp_mem ?p"
    by (simp_all add: demo_net_def demo_server_def)
  from thread_iteration_is_run [OF good_os_ok this] show ?thesis .
qed

text \<open>
  C18: a call of \<^verbatim>\<open>SmMsgSendWait\<close> is a run of the net: whatever the other actors do during its sleeps,
  there is an interleaving of their schedule with the caller's accesses that ends with the call's
  result, with the mailbox as the call leaves it, its mutex released, and everything else as the
  others left it; the call faults when the caller's comparison of names does.
\<close>

theorem send_wait_is_run:
  assumes "os_ok os" and "ch_lock ch = LkFree" and "\<forall>k. Client i \<notin> set (sched k)"
    and "clients s i = Starting" and "\<not> held s (process S i)" and "mailbox s = box ch key"
    and "limit S i = unat (clamp_wait nWaittime) * unit" and "tick S i = step" and "0 < step"
  shows "case send_wait step unit os (beside S sched) (who S i) key (rq S i) pRet nWaittime ch (hold (process S i) True s) of
       Inl e \<Rightarrow> \<exists>as n. interleaves sched i 0 n as \<and> clients (net_run S as s) i = Crashed e
     | Inr (ch', s', ret, r) \<Rightarrow> \<exists>as n. interleaves sched i 0 n as
         \<and> net_run S as s = hold (process S i) False (goto i (Returned (if r = 0 then Some ret else None) r)
              (s'\<lparr>mailbox := box ch' key\<rparr>))
         \<and> ch_lock ch' = LkFree"
  using assms by (rule send_wait_run)

theorem send_wait_is_run_witness:
  "case SmMsgSendWait good_os (beside demo_config (\<lambda>k. replicate 9 Server)) EL_APP_NAME 1024 (demo_rq 0) zero_msg 30
       (demo_chan idle_box) (hold 1 True (demo_net (\<lambda>i. i = 0))) of
     Inl e \<Rightarrow> \<exists>as n. interleaves (\<lambda>k. replicate 9 Server) 0 0 n as
       \<and> clients (net_run demo_config as (demo_net (\<lambda>i. i = 0))) 0 = Crashed e
   | Inr (ch', s', ret, r) \<Rightarrow> \<exists>as n. interleaves (\<lambda>k. replicate 9 Server) 0 0 n as
       \<and> net_run demo_config as (demo_net (\<lambda>i. i = 0)) =
          hold 1 False (goto 0 (Returned (if r = 0 then Some ret else None) r) (s'\<lparr>mailbox := box ch' 1024\<rparr>))
       \<and> ch_lock ch' = LkFree"
proof -
  let ?s = "demo_net (\<lambda>i. i = 0)"
  have "clients ?s 0 = Starting" "\<not> held ?s (process demo_config 0)" "mailbox ?s = box (demo_chan idle_box) 1024"
    "limit demo_config 0 = unat (clamp_wait 30) * 1" "tick demo_config 0 = 1" "process demo_config 0 = 1"
    "who demo_config 0 = EL_APP_NAME" "rq demo_config 0 = demo_rq 0"
    by (simp_all add: demo_net_def demo_config_def clamp_wait_def MAX_MSG_TIMEOUT_def)
  moreover have "\<forall>k. Client 0 \<notin> set ((\<lambda>k. replicate 9 Server) k)" by simp
  ultimately show ?thesis
    using send_wait_is_run [of good_os "demo_chan idle_box" 0 "\<lambda>k. replicate 9 Server" ?s demo_config 1024 30 1 1 zero_msg]
    by (simp only: good_os_ok demo_chan(1) SmMsgSendWait_def zero_less_one simp_thms)
qed

end
