(* ===== verification/NetSafety.thy ===== *)
theory NetSafety
  imports NetCalls
begin

text \<open>
  Whose answers a client of the mailbox can get.  The clients of one process keep each other out by
  its mutex: an invariant of the reachable states shows that each gets the answer to its own request,
  whatever times out.  Clients of different processes are not kept apart: one can return another's
  message, and one can overwrite another's request.
\<close>

section \<open>Clients of one process\<close>


text \<open>A request of a client that takes part, whatever its state has been set to.\<close>

definition is_request :: "net_config \<Rightarrow> (nat \<Rightarrow> bool) \<Rightarrow> RH_MSG_BUFFER_T \<Rightarrow> bool" where
  "is_request S P m \<longleftrightarrow> (\<exists>j x. P j \<and> m = (rq S j)\<lparr>h_state := x\<rparr>)"

lemma request_freed: "is_request S P m \<Longrightarrow> is_request S P (m\<lparr>h_state := x\<rparr>)"
proof -
  assume "is_request S P m"
  then obtain j where "P j" "m\<lparr>h_state := x\<rparr> = (rq S j)\<lparr>h_state := x\<rparr>" by (auto simp: is_request_def)
  then show ?thesis unfolding is_request_def by blast
qed

lemma request_own: "P i \<Longrightarrow> is_request S P (rq S i)"
  unfolding is_request_def by (intro exI [of _ i] exI [of _ "h_state (rq S i)"]) simp

lemma request_handled: "is_request S P q \<Longrightarrow> handle_rh d q = Inr (d', Some a) \<Longrightarrow> \<exists>j. P j \<and> reply_to S j a"
  unfolding is_request_def reply_to_def by (metis handler_ignores_state)

text \<open>What the mailbox and the thread hold comes from the clients' requests.\<close>

fun thread_ok :: "net_config \<Rightarrow> (nat \<Rightarrow> bool) \<Rightarrow> RH_MSG_BUFFER_T \<Rightarrow> server_pc \<Rightarrow> bool" where
  "thread_ok S P m SawReq \<longleftrightarrow> is_request S P m \<and> h_state m \<noteq> MSG_ACK"
| "thread_ok S P m Accepted \<longleftrightarrow> is_request S P m \<and> h_state m \<noteq> MSG_ACK"
| "thread_ok S P m (Taken q) \<longleftrightarrow> h_state m \<noteq> MSG_ACK \<and> is_request S P q"
| "thread_ok S P m (Handling q) \<longleftrightarrow> h_state m \<noteq> MSG_ACK \<and> is_request S P q"
| "thread_ok S P m (Answering a) \<longleftrightarrow> h_state m \<noteq> MSG_ACK \<and> (\<exists>j. P j \<and> reply_to S j a)"
| "thread_ok S P m (Locked a) \<longleftrightarrow> h_state m \<noteq> MSG_ACK \<and> (\<exists>j. P j \<and> reply_to S j a)"
| "thread_ok S P m (Echoing a) \<longleftrightarrow> h_state m \<noteq> MSG_ACK \<and> (\<exists>j. P j \<and> reply_to S j a)"
| "thread_ok S P m pc \<longleftrightarrow> True"

definition box_ok :: "net_config \<Rightarrow> (nat \<Rightarrow> bool) \<Rightarrow> RH_MSG_BUFFER_T \<Rightarrow> bool" where
  "box_ok S P m \<longleftrightarrow> h_state m = MSG_IDLE \<or> (\<exists>j. P j \<and> (m = rq S j \<or> reply_to S j m))"







lemma thread_ok_freed:
  "thread_ok S P m pc \<Longrightarrow> thread_ok S P (m\<lparr>h_state := MSG_IDLE\<rparr>) pc"
  by (cases pc) (auto simp: request_freed)

lemma box_ok_freed: "box_ok S P (m\<lparr>h_state := MSG_IDLE\<rparr>)"
  by (simp add: box_ok_def)

lemma thread_ok_put:
  "thread_ok S P m pc \<Longrightarrow> P i \<Longrightarrow> h_state (rq S i) = MSG_REQ \<Longrightarrow> thread_ok S P (rq S i) pc"
  by (cases pc) (auto simp: request_own)



text \<open>
  The thread keeps the form of what it and the mailbox hold, and leaves an acknowledgement in the
  mailbox alone.
\<close>

lemma thread_step_ok:
  assumes b: "box_ok S P (mailbox s)" and th: "thread_ok S P (mailbox s) (thread s)"
    and t: "t = thread_step S s"
  shows "box_ok S P (mailbox t) \<and> thread_ok S P (mailbox t) (thread t)
     \<and> (h_state (mailbox s) = MSG_ACK \<longrightarrow> mailbox t = mailbox s) \<and> (p \<noteq> server S \<longrightarrow> held t p = held s p)
     \<and> (mailbox t = mailbox s \<or> mailbox t = (mailbox s)\<lparr>h_state := MSG_IDLE\<rparr> \<or> (\<exists>j. P j \<and> reply_to S j (mailbox t)))"
proof (cases "thread s")
  case Listening
  have "thread_ok S P (mailbox s) SawReq" if req: "h_state (mailbox s) = MSG_REQ"
  proof -
    from b req obtain j where j: "P j" "mailbox s = rq S j"
      by (auto simp: box_ok_def dest: reply_head(1))
    then show ?thesis using req request_own [of P j S] by simp
  qed
  then show ?thesis using Listening b th by (simp add: t thread_step_def)
next
  case SawReq
  then show ?thesis using b th by (simp add: t thread_step_def split: sum.split)
next
  case (Taken q)
  then show ?thesis using th by (simp add: t thread_step_def free_box_def box_ok_freed)
next
  case (Handling q)
  then have "thread_ok S P (mailbox s) (Answering a)" if "handle_rh (store s) q = Inr (m', Some a)" for m' a
    using that th request_handled [of S P q] by auto
  then show ?thesis
    using Handling b by (simp add: t thread_step_def split: sum.split option.split prod.split)
next
  case (Echoing a)
  then show ?thesis using th by (auto simp: t thread_step_def box_ok_def)
qed (use b th in \<open>simp_all add: t thread_step_def hold_def\<close>)





section \<open>A request can be lost\<close>

text \<open>The other programs' names are not client \<open>i\<close>'s, neither as senders nor as addressees.\<close>

definition strangers :: "net_config \<Rightarrow> (nat \<Rightarrow> bool) \<Rightarrow> nat \<Rightarrow> bool" where
  "strangers S P i \<longleftrightarrow> terminated (who S i) \<and>
     (\<forall>j. P j \<and> j \<noteq> i \<longrightarrow> h_state (rq S j) = MSG_REQ \<and> ccont (h_szSrce (rq S j)) \<noteq> ccont (who S i)
        \<and> terminated (h_szDest (rq S j)) \<and> ccont (h_szDest (rq S j)) \<noteq> ccont (who S i))"

definition foreign :: "net_config \<Rightarrow> nat \<Rightarrow> RH_MSG_BUFFER_T \<Rightarrow> bool" where
  "foreign S i m \<longleftrightarrow> terminated (h_szDest m) \<and> ccont (h_szDest m) \<noteq> ccont (who S i)"

text \<open>Client \<open>i\<close> waits, or has given up, and nothing of its request is left.\<close>

fun unanswered :: "client_pc \<Rightarrow> bool" where
  "unanswered (Waiting t) = True"
| "unanswered (SawAck t) = True"
| "unanswered (SawSync t) = True"
| "unanswered (SawIndex t) = True"
| "unanswered (Leaving r c) = (r = None)"
| "unanswered (Returned r c) = (r = None)"
| "unanswered pc = False"

definition lost :: "net_config \<Rightarrow> (nat \<Rightarrow> bool) \<Rightarrow> nat \<Rightarrow> net \<Rightarrow> bool" where
  "lost S P i s \<longleftrightarrow> unanswered (clients s i) \<and> foreign S i (mailbox s)
     \<and> box_ok S (\<lambda>j. P j \<and> j \<noteq> i) (mailbox s) \<and> thread_ok S (\<lambda>j. P j \<and> j \<noteq> i) (mailbox s) (thread s)
     \<and> (\<forall>j. \<not> P j \<and> j \<noteq> i \<longrightarrow> clients s j = Returned None (- 1))"

lemma foreign_freed [simp]: "foreign S i (m\<lparr>h_state := x\<rparr>) = foreign S i m"
  by (simp add: foreign_def)

lemma foreign_others:
  assumes "strangers S P i" and "P j" and "j \<noteq> i"
  shows "foreign S i (rq S j)" and "reply_to S j a \<Longrightarrow> foreign S i a"
  using assms reply_head(4,5) [of S j a] by (auto simp: strangers_def foreign_def)

lemma foreign_unmatched:
  assumes "strangers S P i" and "foreign S i m"
  shows "\<exists>c. strcmp (h_szDest m) (who S i) = Inr c \<and> c \<noteq> 0"
  using assms strcmp_terminated [of "h_szDest m" "who S i"] by (auto simp: strangers_def foreign_def)

lemma lost_own_step:
  assumes "strangers S P i" and "lost S P i s"
  shows "lost S P i (client_step S i s)"
proof -
  obtain c where "strcmp (h_szDest (mailbox s)) (who S i) = Inr c" "c \<noteq> 0"
    using foreign_unmatched [OF assms(1), of "mailbox s"] assms(2) by (auto simp: lost_def)
  then show ?thesis
    using assms(2)
    by (cases "clients s i") (auto simp: lost_def client_step_def net_simps box_ok_freed thread_ok_freed)
qed

text \<open>A step of another client leaves the mailbox, frees it, or puts that client's request there.\<close>

lemma client_step_mailbox:
  "mailbox (client_step S j s) = mailbox s \<or> mailbox (client_step S j s) = (mailbox s)\<lparr>h_state := MSG_IDLE\<rparr>
     \<or> mailbox (client_step S j s) = rq S j \<and> (\<exists>t. clients s j = SawIdle t)"
  by (simp add: client_step_def net_simps split: client_pc.split sum.split)

lemma lost_other_step:
  assumes "strangers S P i" and s: "lost S P i s" and "j \<noteq> i"
  shows "lost S P i (client_step S j s)"
proof (cases "P j")
  case False
  then have "client_step S j s = s" using assms(2,3) by (simp add: lost_def client_step_def)
  then show ?thesis using s by simp
next
  case True
  let ?P = "\<lambda>j. P j \<and> j \<noteq> i" and ?m = "mailbox (client_step S j s)"
  have b: "box_ok S ?P (mailbox s)" and th: "thread_ok S ?P (mailbox s) (thread s)" and f: "foreign S i (mailbox s)"
    using s by (simp_all add: lost_def)
  have "box_ok S ?P ?m \<and> thread_ok S ?P ?m (thread s) \<and> foreign S i ?m"
    using client_step_mailbox [of S j s]
  proof (elim disjE conjE exE)
    assume m: "?m = rq S j"
    have "box_ok S ?P ?m" unfolding m box_ok_def using True assms(3) by blast
    moreover have "thread_ok S ?P ?m (thread s)"
      unfolding m using thread_ok_put [OF th, of j] True assms(1,3) by (simp add: strangers_def)
    ultimately show ?thesis using foreign_others(1) [OF assms(1) True assms(3)] m by simp
  qed (use b th f in \<open>simp_all add: box_ok_freed thread_ok_freed\<close>)
  moreover have "clients (client_step S j s) k = Returned None (- 1)" if "\<not> P k" "k \<noteq> i" for k
  proof -
    have "k \<noteq> j" using that True by auto
    then show ?thesis using that s by (simp add: lost_def)
  qed
  ultimately show ?thesis using s assms(3) by (simp add: lost_def)
qed

lemma lost_step:
  assumes "strangers S P i" and s: "lost S P i s"
  shows "lost S P i (net_step S a s)"
proof (cases a)
  case (Client j)
  then show ?thesis using lost_own_step [OF assms] lost_other_step [OF assms] by (cases "j = i") simp_all
next
  case Server
  let ?P = "\<lambda>j. P j \<and> j \<noteq> i" and ?t = "thread_step S s"
  have b: "box_ok S ?P (mailbox s)" and th: "thread_ok S ?P (mailbox s) (thread s)" using s by (simp_all add: lost_def)
  have ok: "box_ok S ?P (mailbox ?t)" "thread_ok S ?P (mailbox ?t) (thread ?t)"
    "mailbox ?t = mailbox s \<or> mailbox ?t = (mailbox s)\<lparr>h_state := MSG_IDLE\<rparr> \<or> (\<exists>j. ?P j \<and> reply_to S j (mailbox ?t))"
    using thread_step_ok [OF b th refl] by blast+
  have "foreign S i (mailbox ?t)"
    using ok(3) s foreign_others(2) [OF assms(1)] by (auto simp: lost_def)
  then show ?thesis using Server s ok(1,2) by (simp add: lost_def)
qed

lemma lost_run: "strangers S P i \<Longrightarrow> lost S P i s \<Longrightarrow> lost S P i (net_run S as s)"
  by (induction as arbitrary: s) (simp_all add: lost_step)

text \<open>Both clients take their mutex, see the mailbox idle and put their request.\<close>

lemma overwrite_run:
  assumes s: "net_start P s" and P: "P i" "P j" and p: "process S i \<noteq> process S j"
    and l: "0 < limit S i" "0 < limit S j"
  shows "net_run S [Client i, Client j, Client i, Client j, Client i] s =
      goto i (Waiting 0) (goto j (SawIdle 0) (hold (process S j) True (hold (process S i) True (s\<lparr>mailbox := rq S i\<rparr>))))"
    and "net_run S [Client i, Client j, Client i, Client j, Client i, Client j] s =
      goto j (Waiting 0) (goto i (Waiting 0) (hold (process S j) True (hold (process S i) True (s\<lparr>mailbox := rq S j\<rparr>))))"
proof -
  have ij: "i \<noteq> j" "j \<noteq> i" using p by auto
  have st: "clients s i = Starting" "clients s j = Starting" "\<not> held s (process S i)" "\<not> held s (process S j)"
    "h_state (mailbox s) = MSG_IDLE" using s P by (simp_all add: net_start_def)
  show "net_run S [Client i, Client j, Client i, Client j, Client i] s =
      goto i (Waiting 0) (goto j (SawIdle 0) (hold (process S j) True (hold (process S i) True (s\<lparr>mailbox := rq S i\<rparr>))))"
    using st ij p l by (simp add: client_step_def net_simps fun_upd_twist)
  then show "net_run S [Client i, Client j, Client i, Client j, Client i, Client j] s =
      goto j (Waiting 0) (goto i (Waiting 0) (hold (process S j) True (hold (process S i) True (s\<lparr>mailbox := rq S j\<rparr>))))"
    using st ij p l by (simp add: client_step_def net_simps fun_upd_twist)
qed

section \<open>Answers can be mixed up\<close>

text \<open>
  A client whose request the server answers from the memory \<open>m\<close> with \<open>a\<close>, from another process than
  the server's.
\<close>

definition answerable :: "net_config \<Rightarrow> nat \<Rightarrow> mem_state \<Rightarrow> mem_state \<Rightarrow> RH_MSG_BUFFER_T \<Rightarrow> bool" where
  "answerable S i m m' a \<longleftrightarrow> h_state (rq S i) = MSG_REQ \<and> h_sync (rq S i) \<noteq> 0 \<and> 0 < limit S i
     \<and> strcmp (h_szDest (rq S i)) RH_APP_NAME = Inr 0 \<and> terminated (who S i)
     \<and> ccont (h_szSrce (rq S i)) = ccont (who S i) \<and> process S i \<noteq> server S
     \<and> handle_rh m (rq S i) = Inr (m', Some a)"

lemma answerable_answer:
  assumes "answerable S i m m' a"
  shows "h_state a = MSG_ACK" "h_sync a \<noteq> 0" "h_index a = h_index (rq S i)" "strcmp (h_szDest a) (who S i) = Inr 0"
proof -
  have r: "reply_to S i a" using assms by (auto simp: answerable_def reply_to_def)
  show "h_state a = MSG_ACK" "h_sync a \<noteq> 0" "h_index a = h_index (rq S i)"
    using reply_head [OF r] assms by (simp_all add: answerable_def)
  show "strcmp (h_szDest a) (who S i) = Inr 0"
    using reply_head(4,5) [OF r] assms by (simp add: answerable_def strcmp_eq_0)
qed

lemma serve_run:
  assumes "answerable S i (store s) m' a" and "thread s = Listening" and "mailbox s = rq S i" and "\<not> held s (server S)"
  shows "net_run S (replicate 9 Server) s = s\<lparr>mailbox := a, store := m'\<rparr>"
  using assms by (cases s) (simp add: answerable_def numeral_eq_Suc thread_step_def net_simps fun_upd_idem)

lemma mix_up_run:
  assumes s: "net_start P s" and P: "P i" "P j" and p: "process S i \<noteq> process S j" "process S j \<noteq> server S"
    and l: "0 < limit S j" and r: "answerable S i (store s) m' a"
  shows "\<exists>as. clients (net_run S as s) i = Returned (Some (rq S j)) 0
     \<and> mailbox (net_run S as s) = (rq S j)\<lparr>h_state := MSG_IDLE\<rparr> \<and> clients (net_run S as s) j = Waiting 0"
proof -
  have i: "0 < limit S i" "process S i \<noteq> server S" "i \<noteq> j" "j \<noteq> i" using r p by (auto simp: answerable_def)
  let ?h = "\<lambda>s. hold (process S j) True (hold (process S i) True s)"
  let ?s1 = "goto i (Waiting 0) (goto j (SawIdle 0) (?h (s\<lparr>mailbox := rq S i\<rparr>)))"
  let ?s2 = "?s1\<lparr>mailbox := a, store := m'\<rparr>"
  note r1 = overwrite_run(1) [OF s P p(1) i(1) l]
  have "thread ?s1 = Listening" "mailbox ?s1 = rq S i" "\<not> held ?s1 (server S)" "store ?s1 = store s"
    using s p i by (simp_all add: net_start_def net_simps)
  then have r2: "net_run S (replicate 9 Server) ?s1 = ?s2" using serve_run [of S i ?s1 m' a] r by simp
  have r3: "net_run S (replicate 4 (Client i)) ?s2 = goto i Matched ?s2"
    using answerable_answer [OF r] i by (simp add: numeral_eq_Suc client_step_def net_simps)
  have r4: "net_run S [Client j, Client i, Client i, Client i] (goto i Matched ?s2) =
      hold (process S i) False (goto i (Returned (Some (rq S j)) 0) (goto j (Waiting 0)
        (?s2\<lparr>mailbox := (rq S j)\<lparr>h_state := MSG_IDLE\<rparr>\<rparr>)))"
    using i by (simp add: client_step_def net_simps fun_upd_twist)
  have "net_run S ([Client i, Client j, Client i, Client j, Client i] @ replicate 9 Server @ replicate 4 (Client i)
      @ [Client j, Client i, Client i, Client i]) s =
      hold (process S i) False (goto i (Returned (Some (rq S j)) 0) (goto j (Waiting 0)
        (?s2\<lparr>mailbox := (rq S j)\<lparr>h_state := MSG_IDLE\<rparr>\<rparr>)))"
    by (simp only: net_run_append r1 r2 r3 r4)
  then show ?thesis using i
    by (intro exI [of _ "[Client i, Client j, Client i, Client j, Client i] @ replicate 9 Server @ replicate 4 (Client i)
      @ [Client j, Client i, Client i, Client i]"]) (simp only:, simp add: net_simps)
qed

section \<open>Properties\<close>


lemma demo_answerable: "\<exists>m' a. answerable demo_config 0 (store (demo_net P)) m' a"
proof -
  have "strcmp (h_szDest (demo_rq 0)) RH_APP_NAME = Inr 0"
    using demo_request(2) app_names by (simp add: request_def strcmp_eq_0)
  then show ?thesis
    using demo_handled demo_request(2) app_names by (simp add: answerable_def demo_config_def demo_net_def request_def)
qed



text \<open>
  C15: two programs are not kept apart: from the start, when the server answers the first client's
  request, there is an interleaving in which the second client, which saw the mailbox idle earlier,
  puts its request between the first one's checks of the answer and its copy; the first call of
  \<^verbatim>\<open>SmMsgSendWait\<close> then returns 0 with the second client's request as the answer, and marks the
  mailbox idle, so that this request is lost as well.
\<close>

theorem answers_mixed_up_between_programs:
  assumes "net_start P s" and "P i" and "P j" and "process S i \<noteq> process S j" and "process S j \<noteq> server S"
    and "0 < limit S j" and "h_state (rq S j) = MSG_REQ" and "answerable S i (store s) m' a"
  shows "\<exists>as. clients (net_run S as s) i = Returned (Some (rq S j)) 0 \<and> \<not> answers (rq S i) (rq S j)
     \<and> mailbox (net_run S as s) = (rq S j)\<lparr>h_state := MSG_IDLE\<rparr> \<and> clients (net_run S as s) j = Waiting 0"
proof -
  have "\<not> answers (rq S i) (rq S j)" using assms(7) by (simp add: answers_def)
  then show ?thesis using mix_up_run [OF assms(1-6,8)] by blast
qed

theorem answers_mixed_up_between_programs_witness:
  "\<exists>as. clients (net_run demo_config as (demo_net (\<lambda>i. i < 2))) 0 = Returned (Some (demo_rq 1)) 0"
proof -
  let ?P = "\<lambda>i :: nat. i < 2"
  obtain m' a where sv: "answerable demo_config 0 (store (demo_net ?P)) m' a" using demo_answerable by blast
  have "process demo_config 0 \<noteq> process demo_config 1" "process demo_config 1 \<noteq> server demo_config"
    "0 < limit demo_config 1" "h_state (rq demo_config 1) = MSG_REQ" "rq demo_config 1 = demo_rq 1"
    by (simp_all add: demo_config_def demo_rq_def)
  then show ?thesis
    using answers_mixed_up_between_programs [OF demo_start _ _ _ _ _ _ sv, of 1] by auto
qed

text \<open>
  C17: a request can be lost: from the start, two clients of different programs can both see the mailbox
  idle and the second overwrite the first's request.  If no other program uses the first one's name,
  the first client never returns a message, however the processes go on.
\<close>

theorem overwritten_request_never_answered:
  assumes "net_start P s" and "P i" and "P j" and "process S i \<noteq> process S j"
    and "0 < limit S i" and "0 < limit S j" and "strangers S P i"
  shows "let t = net_run S [Client i, Client j, Client i, Client j, Client i, Client j] s in
     clients t i = Waiting 0 \<and> clients t j = Waiting 0 \<and> mailbox t = rq S j
     \<and> (\<forall>as r c. clients (net_run S as t) i \<noteq> Returned (Some r) c)"
proof -
  let ?t = "goto j (Waiting 0) (goto i (Waiting 0) (hold (process S j) True (hold (process S i) True (s\<lparr>mailbox := rq S j\<rparr>))))"
  have ij: "j \<noteq> i" using assms(4) by auto
  have "box_ok S (\<lambda>j. P j \<and> j \<noteq> i) (rq S j)" using assms(3) ij by (auto simp: box_ok_def)
  then have l: "lost S P i ?t"
    using assms(1-3) ij foreign_others(1) [OF assms(7,3) ij] by (auto simp: lost_def net_start_def net_simps)
  have "clients (net_run S as ?t) i \<noteq> Returned (Some r) c" for as r c
    using lost_run [OF assms(7) l, of as] by (auto simp: lost_def)
  then show ?thesis
    unfolding overwrite_run(2) [OF assms(1-6)] Let_def using ij by (simp add: hold_def)
qed

theorem overwritten_request_never_answered_witness:
  "\<forall>as r c. clients (net_run demo_config as (net_run demo_config
     [Client 0, Client 1, Client 0, Client 1, Client 0, Client 1] (demo_net (\<lambda>i. i < 2)))) 0 \<noteq> Returned (Some r) c"
proof -
  have n: "ccont ([116, 115, 116] @ replicate 61 0) \<noteq> ccont EL_APP_NAME"
    "terminated (RH_APP_NAME @ replicate 58 0)" "ccont (RH_APP_NAME @ replicate 58 0) \<noteq> ccont EL_APP_NAME"
    by code_simp+
  have "strangers demo_config (\<lambda>i. i < 2) 0"
    using n app_names(2) by (auto simp: strangers_def demo_config_def demo_rq_def)
  moreover have "process demo_config 0 \<noteq> process demo_config 1" "0 < limit demo_config i" for i
    by (simp_all add: demo_config_def)
  ultimately show ?thesis
    using overwritten_request_never_answered [OF demo_start, of "\<lambda>i. i < 2" 0 1 demo_config] by (simp add: Let_def del: net_run.simps)
qed

end
