(* ===== verification/NetLive.thy ===== *)
theory NetLive
  imports NetSafety
begin

text \<open>
  A client that has the mailbox to itself is served unless the server is starved: the server needs
  eight accesses, from the check of the state to the copy of its answer, and the client seven of its
  own to fetch it.
\<close>

section \<open>The server's way through a request\<close>

text \<open>After \<open>k\<close> accesses to the request of client \<open>c\<close>, answered with \<open>a\<close>; the ninth releases the mutex.\<close>

definition way :: "RH_MSG_BUFFER_T \<Rightarrow> RH_MSG_BUFFER_T \<Rightarrow> server_pc list" where
  "way q a = [Listening, SawReq, Accepted, Taken q, Handling q, Answering a, Locked a, Echoing a, Unlocking, Listening]"

definition stage :: "net_config \<Rightarrow> nat \<Rightarrow> mem_state \<Rightarrow> mem_state \<Rightarrow> RH_MSG_BUFFER_T \<Rightarrow> nat \<Rightarrow> net \<Rightarrow> bool" where
  "stage S c m m' a k s \<longleftrightarrow> k \<le> 9 \<and> thread s = way (rq S c) a ! k \<and> store s = (if k \<le> 4 then m else m')
     \<and> mailbox s = (if k \<le> 3 then rq S c else if k \<le> 7 then (rq S c)\<lparr>h_state := MSG_IDLE\<rparr> else a)
     \<and> held s (server S) = (6 \<le> k \<and> k \<le> 8)"

lemma stage_cases: "(k :: nat) \<le> 9 \<Longrightarrow> k \<in> {0, 1, 2, 3, 4, 5, 6, 7, 8, 9}"
  by auto

lemma stage_server:
  assumes "answerable S c m m' a" and "stage S c m m' a k s"
  shows "stage S c m m' a (min 9 (Suc k)) (thread_step S s)"
proof -
  have "k \<in> {0, 1, 2, 3, 4, 5, 6, 7, 8, 9}" using assms(2) stage_cases by (simp add: stage_def)
  then show ?thesis
    using assms answerable_answer(1) [OF assms(1)]
    by (elim insertE; simp add: stage_def way_def answerable_def thread_step_def net_simps)
qed

lemma stage_ack: "answerable S c m m' a \<Longrightarrow> stage S c m m' a k s \<Longrightarrow> h_state (mailbox s) = MSG_ACK \<longleftrightarrow> 8 \<le> k"
  using answerable_answer(1) by (auto simp: stage_def answerable_def)

lemma stage_client [simp]: "stage S c m m' a k (goto i pc s) = stage S c m m' a k s"
  by (simp add: stage_def)

section \<open>Up to the answer\<close>

text \<open>The others do not take part.\<close>

definition alone :: "nat \<Rightarrow> net \<Rightarrow> bool" where
  "alone c s \<longleftrightarrow> (\<forall>i. i \<noteq> c \<longrightarrow> clients s i = Returned None (- 1))"

lemma alone_step: "alone c s \<Longrightarrow> alone c (net_step S b s) \<and> (\<forall>i. b = Client i \<and> i \<noteq> c \<longrightarrow> net_step S b s = s)"
proof (cases b)
  case (Client i)
  assume al: "alone c s"
  have "client_step S i s = s" if "i \<noteq> c" using al that by (simp add: alone_def client_step_def)
  moreover have "alone c (client_step S c s)" using al by (simp add: alone_def)
  ultimately show ?thesis using Client al by (cases "i = c") simp_all
qed (simp add: alone_def)

text \<open>Before the request is in the mailbox.\<close>

definition sending :: "net_config \<Rightarrow> nat \<Rightarrow> mem_state \<Rightarrow> net \<Rightarrow> bool" where
  "sending S c m s \<longleftrightarrow> clients s c \<in> {Starting, Sending 0, SawIdle 0} \<and> h_state (mailbox s) = MSG_IDLE
     \<and> thread s = Listening \<and> store s = m \<and> \<not> held s (server S) \<and> (clients s c = Starting \<longrightarrow> \<not> held s (process S c))"

text \<open>From then on; \<open>n\<close> bounds the server's accesses from below as long as the client waits.\<close>

definition waiting :: "net_config \<Rightarrow> nat \<Rightarrow> mem_state \<Rightarrow> mem_state \<Rightarrow> RH_MSG_BUFFER_T \<Rightarrow> nat \<Rightarrow> net \<Rightarrow> bool" where
  "waiting S c m m' a n s \<longleftrightarrow>
     (case clients s c of
        Waiting t \<Rightarrow> \<exists>k. stage S c m m' a k s \<and> min 8 n \<le> k
      | SawAck t \<Rightarrow> \<exists>k. stage S c m m' a k s \<and> 8 \<le> k
      | SawSync t \<Rightarrow> \<exists>k. stage S c m m' a k s \<and> 8 \<le> k
      | SawIndex t \<Rightarrow> \<exists>k. stage S c m m' a k s \<and> 8 \<le> k
      | Starting \<Rightarrow> False | Sending t \<Rightarrow> False | SawIdle t \<Rightarrow> False
      | _ \<Rightarrow> True)"

lemma answer_passes:
  assumes "answerable S c m m' a" and "stage S c m m' a k s" and "8 \<le> k"
  shows "h_state (mailbox s) = MSG_ACK" "h_sync (mailbox s) \<noteq> 0" "h_index (mailbox s) = h_index (rq S c)"
    "strcmp (h_szDest (mailbox s)) (who S c) = Inr 0"
  using answerable_answer [OF assms(1)] assms(2,3) by (simp_all add: stage_def)

lemma sending_step:
  assumes "answerable S c m m' a" and "alone c s" and "sending S c m s"
  shows "sending S c m (net_step S b s) \<or> waiting S c m m' a 0 (net_step S b s)"
proof (cases b)
  case (Client i)
  show ?thesis
  proof (cases "i = c")
    case True
    have "limit S c > 0" "process S c \<noteq> server S" using assms(1) by (simp_all add: answerable_def)
    moreover have "stage S c m m' a 0 (s\<lparr>mailbox := rq S c\<rparr>)"
      using assms(3) by (simp add: stage_def sending_def way_def)
    ultimately show ?thesis
      using assms(3) True Client
      by (auto simp: sending_def waiting_def client_step_def hold_def intro!: exI [of _ 0])
  next
    case False
    then show ?thesis using alone_step [OF assms(2), of S b] assms(3) Client by auto
  qed
next
  case Server
  then show ?thesis using assms(3) by (simp add: sending_def thread_step_def)
qed

lemma waiting_step:
  assumes sv: "answerable S c m m' a" and "alone c s" and w: "waiting S c m m' a n s"
  shows "waiting S c m m' a (if b = Server then Suc n else n) (net_step S b s)"
proof (cases b)
  case (Client i)
  show ?thesis
  proof (cases "i = c")
    case True
    show ?thesis
    proof (cases "clients s c")
      case (Waiting t)
      then obtain k where k: "stage S c m m' a k s" "min 8 n \<le> k" using w by (auto simp: waiting_def)
      then show ?thesis
        using True Client Waiting stage_ack [OF sv k(1)] by (auto simp: waiting_def client_step_def free_box_def)
    qed (use w True Client answer_passes [OF sv] in \<open>auto simp: waiting_def client_step_def free_box_def hold_def\<close>)
  next
    case False
    then show ?thesis using alone_step [OF assms(2), of S b] w Client by auto
  qed
next
  case Server
  have adv: "\<exists>k'. stage S c m m' a k' (thread_step S s) \<and> min 9 (Suc k) \<le> k'" if "stage S c m m' a k s" for k
    using stage_server [OF sv that] by blast
  show ?thesis
  proof (cases "clients s c")
    case (Waiting t)
    then obtain k where "stage S c m m' a k s" "min 8 n \<le> k" using w by (auto simp: waiting_def)
    with adv [of k] obtain k' where "stage S c m m' a k' (thread_step S s)" "min 8 (Suc n) \<le> k'" by fastforce
    then show ?thesis using Server Waiting by (auto simp: waiting_def)
  next
    case (SawAck t)
    then obtain k where "stage S c m m' a k s" "8 \<le> k" using w by (auto simp: waiting_def)
    with adv [of k] show ?thesis using Server SawAck by (fastforce simp: waiting_def)
  next
    case (SawSync t)
    then obtain k where "stage S c m m' a k s" "8 \<le> k" using w by (auto simp: waiting_def)
    with adv [of k] show ?thesis using Server SawSync by (fastforce simp: waiting_def)
  next
    case (SawIndex t)
    then obtain k where "stage S c m m' a k s" "8 \<le> k" using w by (auto simp: waiting_def)
    with adv [of k] show ?thesis using Server SawIndex by (fastforce simp: waiting_def)
  qed (use w Server in \<open>auto simp: waiting_def\<close>)
qed

lemma sending_run:
  assumes "answerable S c m m' a"
  shows "alone c s \<Longrightarrow> sending S c m s \<or> waiting S c m m' a 0 s \<Longrightarrow>
     sending S c m (net_run S as s) \<or> waiting S c m m' a 0 (net_run S as s)"
proof (induction as arbitrary: s)
  case (Cons b as)
  have "waiting S c m m' a 0 (net_step S b s)" if "waiting S c m m' a 0 s"
    using waiting_step [OF assms Cons.prems(1) that, of b] by (auto simp: waiting_def split: client_pc.splits)
  then show ?case
    using Cons.IH [of "net_step S b s"] sending_step [OF assms Cons.prems(1)] alone_step [OF Cons.prems(1), of S b] Cons.prems(2) by auto
qed simp

lemma waiting_run:
  assumes "answerable S c m m' a"
  shows "alone c s \<Longrightarrow> waiting S c m m' a n s \<Longrightarrow> waiting S c m m' a (n + count_list as Server) (net_run S as s)"
proof (induction as arbitrary: s n)
  case (Cons b as)
  have "alone c (net_step S b s)" using alone_step [OF Cons.prems(1)] by blast
  from Cons.IH [OF this waiting_step [OF assms Cons.prems]] show ?case by (cases "b = Server") simp_all
qed simp

lemma alone_run: "alone c s \<Longrightarrow> alone c (net_run S as s)"
  by (induction as arbitrary: s) (simp_all add: alone_step)

section \<open>Fetching the answer\<close>

text \<open>The client has \<open>r\<close> accesses left and the answer is in the mailbox until it is copied.\<close>

definition fetching :: "net_config \<Rightarrow> nat \<Rightarrow> mem_state \<Rightarrow> mem_state \<Rightarrow> RH_MSG_BUFFER_T \<Rightarrow> nat \<Rightarrow> net \<Rightarrow> bool" where
  "fetching S c m m' a r s \<longleftrightarrow>
     (case clients s c of
        Waiting t \<Rightarrow> r = 7 \<and> t < limit S c \<and> (\<exists>k. stage S c m m' a k s \<and> 8 \<le> k)
      | SawAck t \<Rightarrow> r = 6 \<and> (\<exists>k. stage S c m m' a k s \<and> 8 \<le> k)
      | SawSync t \<Rightarrow> r = 5 \<and> (\<exists>k. stage S c m m' a k s \<and> 8 \<le> k)
      | SawIndex t \<Rightarrow> r = 4 \<and> (\<exists>k. stage S c m m' a k s \<and> 8 \<le> k)
      | Matched \<Rightarrow> r = 3 \<and> (\<exists>k. stage S c m m' a k s \<and> 8 \<le> k)
      | Copied x \<Rightarrow> r = 2 \<and> x = a \<and> (\<exists>k. stage S c m m' a k s \<and> 8 \<le> k)
      | Leaving x y \<Rightarrow> r = 1 \<and> x = Some a \<and> y = 0 \<and> h_state (mailbox s) = MSG_IDLE \<and> store s = m'
          \<and> thread s \<in> {Listening, Unlocking}
      | Returned x y \<Rightarrow> r = 0 \<and> x = Some a \<and> y = 0 \<and> h_state (mailbox s) = MSG_IDLE \<and> store s = m'
          \<and> thread s \<in> {Listening, Unlocking} \<and> \<not> held s (process S c)
      | _ \<Rightarrow> False)"

lemma late_stage:
  "answerable S c m m' a \<Longrightarrow> stage S c m m' a k s \<Longrightarrow> 8 \<le> k \<Longrightarrow>
     \<exists>k'. stage S c m m' a k' (thread_step S s) \<and> 8 \<le> k'"
  using stage_server [of S c m m' a k s] by (intro exI [of _ "min 9 (Suc k)"]) simp

lemma late_stage_done:
  "stage S c m m' a k s \<Longrightarrow> 8 \<le> k \<Longrightarrow> mailbox s = a \<and> store s = m' \<and> thread s \<in> {Listening, Unlocking}"
  using stage_cases [of k] by (auto simp: stage_def way_def)

lemma fetching_server:
  assumes sv: "answerable S c m m' a" and f: "fetching S c m m' a r s"
  shows "fetching S c m m' a r (thread_step S s)"
proof (cases "clients s c")
  case (Leaving x y)
  then show ?thesis using f by (auto simp: fetching_def thread_step_def hold_def)
next
  case (Returned x y)
  then show ?thesis using f sv by (auto simp: fetching_def thread_step_def hold_def answerable_def)
qed (use f late_stage [OF sv] in \<open>auto simp: fetching_def\<close>)

lemma fetching_client:
  assumes sv: "answerable S c m m' a" and f: "fetching S c m m' a r s"
  shows "fetching S c m m' a (r - 1) (client_step S c s)"
proof (cases "clients s c")
  case (Waiting t)
  then obtain k where k: "stage S c m m' a k s" "8 \<le> k" "r = 7" "t < limit S c" using f by (auto simp: fetching_def)
  then show ?thesis using Waiting answer_passes [OF sv k(1,2)] by (auto simp: fetching_def client_step_def)
next
  case (Matched)
  then obtain k where k: "stage S c m m' a k s" "8 \<le> k" "r = 3" using f by (auto simp: fetching_def)
  then show ?thesis using Matched late_stage_done [OF k(1,2)] by (auto simp: fetching_def client_step_def)
next
  case (Copied x)
  then obtain k where k: "stage S c m m' a k s" "8 \<le> k" "r = 2" "x = a" using f by (auto simp: fetching_def)
  then show ?thesis using Copied late_stage_done [OF k(1,2)] by (auto simp: fetching_def client_step_def free_box_def)
next
  case (Leaving x y)
  then show ?thesis using f by (auto simp: fetching_def client_step_def hold_def)
qed (use f answer_passes [OF sv] in \<open>auto simp: fetching_def client_step_def\<close>)

lemma fetching_run:
  assumes "answerable S c m m' a"
  shows "alone c s \<Longrightarrow> fetching S c m m' a r s \<Longrightarrow> fetching S c m m' a (r - count_list as (Client c)) (net_run S as s)"
proof (induction as arbitrary: s r)
  case (Cons b as)
  have "fetching S c m m' a (if b = Client c then r - 1 else r) (net_step S b s)"
    using fetching_server [OF assms Cons.prems(2)] fetching_client [OF assms Cons.prems(2)]
      alone_step [OF Cons.prems(1), of S b] Cons.prems(2) by (cases b) auto
  moreover have "alone c (net_step S b s)" using alone_step [OF Cons.prems(1)] by blast
  ultimately show ?case using Cons.IH [of "net_step S b s" "if b = Client c then r - 1 else r"]
    by (cases "b = Client c") simp_all
qed simp

lemma lone_client:
  assumes s: "net_start (\<lambda>i. i = c) s" and sv: "answerable S c (store s) m' a"
    and u: "u = net_run S as s" "clients u c = Waiting t0"
    and v: "v = net_run S bs u" "clients v c = Waiting t" and bs: "8 \<le> count_list bs Server" and t: "t < limit S c"
    and cs: "7 \<le> count_list cs (Client c)"
  shows "fetching S c (store s) m' a 0 (net_run S cs v)"
proof -
  let ?m = "store s"
  have al: "alone c s" using s by (simp add: net_start_def alone_def)
  have "sending S c ?m s" using s by (simp add: net_start_def sending_def)
  then have "waiting S c ?m m' a 0 u"
    using sending_run [OF sv al, of as] u by (auto simp: sending_def)
  then have "waiting S c ?m m' a (0 + count_list bs Server) v"
    using waiting_run [OF sv _ \<open>waiting S c ?m m' a 0 u\<close>, of bs] alone_run [OF al] u(1) v(1) by simp
  then have "fetching S c ?m m' a 7 v" using bs t v(2) by (auto simp: waiting_def fetching_def)
  then have "fetching S c ?m m' a (7 - count_list cs (Client c)) (net_run S cs v)"
    using fetching_run [OF sv _ \<open>fetching S c ?m m' a 7 v\<close>] alone_run [OF al, of S "as @ bs"] u(1) v(1) by simp
  then show ?thesis using cs by simp
qed

section \<open>Properties\<close>

text \<open>
  C16: a client that is alone is served unless the server is starved.  Whatever the interleaving: if, after
  the request is in the mailbox, the server makes eight accesses while the client still has a poll
  left, then seven more accesses of the client bring it the server's answer with result 0, the
  mailbox is idle, the mutex released and the server's memory as the handler left it, however these
  accesses interleave with the server's.
\<close>

theorem lone_client_served:
  assumes "net_start (\<lambda>i. i = c) s" and "answerable S c (store s) m' a"
    and "u = net_run S as s" "clients u c = Waiting t0"
    and "v = net_run S bs u" "clients v c = Waiting t" and "8 \<le> count_list bs Server" and "t < limit S c"
    and "7 \<le> count_list cs (Client c)"
  shows "let w = net_run S cs v in clients w c = Returned (Some a) 0 \<and> h_state (mailbox w) = MSG_IDLE
     \<and> store w = m' \<and> \<not> held w (process S c)"
  using lone_client [OF assms] by (auto simp: fetching_def Let_def split: client_pc.splits)

theorem lone_client_served_witness:
  "\<exists>m' a. handle_rh demo_mem (demo_rq 0) = Inr (m', Some a)
     \<and> clients (net_run demo_config (replicate 7 (Client 0)) (net_run demo_config (replicate 8 Server)
         (net_run demo_config (replicate 3 (Client 0)) (demo_net (\<lambda>i. i = 0))))) 0 = Returned (Some a) 0"
proof -
  let ?s = "demo_net (\<lambda>i. i = 0)"
  let ?u = "net_run demo_config (replicate 3 (Client 0)) ?s"
  let ?v = "net_run demo_config (replicate 8 Server) ?u"
  obtain m' a where sv: "answerable demo_config 0 (store ?s) m' a" using demo_answerable by blast
  have u: "clients ?u 0 = Waiting 0"
    by (simp add: demo_net_def numeral_eq_Suc client_step_def net_simps demo_config_def idle_box_def)
  have same: "clients (net_run S (replicate n Server) s) = clients s" for S n s
    by (induction n arbitrary: s) simp_all
  have v: "clients ?v 0 = Waiting 0" by (simp only: same u)
  have "8 \<le> count_list (replicate 8 Server) Server" "0 < limit demo_config 0" "7 \<le> count_list (replicate 7 (Client 0)) (Client 0)"
    by (simp_all add: numeral_eq_Suc demo_config_def)
  from lone_client_served [OF demo_start sv refl u refl v this]
  have "clients (net_run demo_config (replicate 7 (Client 0)) ?v) 0 = Returned (Some a) 0" by (simp add: Let_def)
  moreover have "handle_rh demo_mem (demo_rq 0) = Inr (m', Some a)" using sv by (simp add: answerable_def demo_config_def demo_net_def)
  ultimately show ?thesis by blast
qed

end
