(* ===== verification/Binary32.thy ===== *)
theory Binary32
  imports RhPrelude
begin

text \<open>
  The C type \<^verbatim>\<open>float\<close> on the target: IEEE 754 binary32, each operation rounded to nearest with
  ties to even and no excess precision (\<^verbatim>\<open>FLT_EVAL_METHOD\<close> 0).  A value is its 32 bit pattern.

  Every finite value is a multiple of the smallest subnormal \<open>2 ^ (- 149)\<close>; \<open>units\<close> counts
  them, so that the operations and their order laws are statements on integers.  A pattern
  without sign is ordered like the magnitude it denotes, which the two bounds of \<open>round_mag\<close>
  turn into monotonicity of every operation.
\<close>

datatype binary32 = B32 (pat: u32)

section \<open>Magnitudes\<close>

text \<open>The magnitude a pattern without sign denotes, in units, read on past the infinite pattern.\<close>

definition mag :: "nat \<Rightarrow> nat" where
  "mag b = (let E = b div 2 ^ 23; F = b mod 2 ^ 23 in
     if E = 0 then F else (F + 2 ^ 23) * 2 ^ (E - 1))"

fun bitlen :: "nat \<Rightarrow> nat" where
  "bitlen n = (if n = 0 then 0 else Suc (bitlen (n div 2)))"

declare bitlen.simps [simp del]

text \<open>
  Rounding of \<open>num / den\<close> units to the nearest pattern: \<open>k\<close> is the number of low bits that do not
  fit the 24 bit significand.  A carry out of the significand runs into the exponent.
\<close>

definition cut :: "nat \<Rightarrow> nat" where
  "cut q = (if q < 2 ^ 24 then 0 else bitlen q - 24)"

definition nearest :: "nat \<Rightarrow> nat \<Rightarrow> nat" where
  "nearest n d = (let q = n div d; r = n mod d in
     if d < 2 * r \<or> 2 * r = d \<and> odd q then Suc q else q)"

definition round_mag :: "nat \<Rightarrow> nat \<Rightarrow> nat" where
  "round_mag num den = (let k = cut (num div den) in k * 2 ^ 23 + nearest num (den * 2 ^ k))"

definition inf_pat :: nat where "inf_pat = 0x7F800000"

section \<open>Values\<close>

definition neg :: "binary32 \<Rightarrow> bool" where
  "neg x \<longleftrightarrow> 2 ^ 31 \<le> unat (pat x)"

definition upat :: "binary32 \<Rightarrow> nat" where
  "upat x = unat (pat x) mod 2 ^ 31"

definition is_nan :: "binary32 \<Rightarrow> bool" where "is_nan x \<longleftrightarrow> inf_pat < upat x"
definition is_inf :: "binary32 \<Rightarrow> bool" where "is_inf x \<longleftrightarrow> upat x = inf_pat"
definition is_fin :: "binary32 \<Rightarrow> bool" where "is_fin x \<longleftrightarrow> upat x < inf_pat"

definition pack :: "bool \<Rightarrow> nat \<Rightarrow> binary32" where
  "pack s b = B32 (of_nat ((if s then 2 ^ 31 else 0) + min b inf_pat))"

definition quiet_nan :: binary32 where "quiet_nan = B32 0x7FC00000"

text \<open>The signed number of units; an infinite value counts as more units than any finite one.\<close>

definition units :: "binary32 \<Rightarrow> int" where
  "units x = (if neg x then - int (mag (upat x)) else int (mag (upat x)))"

definition round_units :: "bool \<Rightarrow> nat \<Rightarrow> nat \<Rightarrow> binary32" where
  "round_units s num den = pack s (round_mag num den)"

section \<open>Arithmetic\<close>

text \<open>The conversion from \<^verbatim>\<open>int\<close>, and the conversion to \<^verbatim>\<open>int\<close>, undefined outside its range.\<close>

definition of_int32 :: "int \<Rightarrow> binary32" where
  "of_int32 n = round_units (n < 0) (nat \<bar>n\<bar> * 2 ^ 149) 1"

definition to_int :: "binary32 \<Rightarrow> int res" where
  "to_int x =
     (if \<not> is_fin x then Inl IntOverflow
      else (let t = int (mag (upat x) div 2 ^ 149); n = (if neg x then - t else t) in
            if - 2147483648 \<le> n \<and> n \<le> 2147483647 then Inr n else Inl IntOverflow))"

definition fneg :: "binary32 \<Rightarrow> binary32" where
  "fneg x = pack (\<not> neg x) (upat x)"

definition fadd :: "binary32 \<Rightarrow> binary32 \<Rightarrow> binary32" where
  "fadd x y =
     (if is_nan x \<or> is_nan y then quiet_nan
      else if is_inf x then (if is_inf y \<and> neg x \<noteq> neg y then quiet_nan else x)
      else if is_inf y then y
      else (let s = units x + units y in
            if s = 0 then pack (neg x \<and> neg y) 0 else round_units (s < 0) (nat \<bar>s\<bar>) 1))"

definition fmul :: "binary32 \<Rightarrow> binary32 \<Rightarrow> binary32" where
  "fmul x y =
     (let s = (neg x \<noteq> neg y) in
      if is_nan x \<or> is_nan y then quiet_nan
      else if is_inf x \<or> is_inf y
      then (if upat x = 0 \<or> upat y = 0 then quiet_nan else pack s inf_pat)
      else round_units s (mag (upat x) * mag (upat y)) (2 ^ 149))"

definition fdiv :: "binary32 \<Rightarrow> binary32 \<Rightarrow> binary32" where
  "fdiv x y =
     (let s = (neg x \<noteq> neg y) in
      if is_nan x \<or> is_nan y then quiet_nan
      else if is_inf x then (if is_inf y then quiet_nan else pack s inf_pat)
      else if is_inf y then pack s 0
      else if upat y = 0 then (if upat x = 0 then quiet_nan else pack s inf_pat)
      else round_units s (mag (upat x) * 2 ^ 149) (mag (upat y)))"

instantiation binary32 :: "{zero, one, plus, minus, times, divide, ord}"
begin

definition zero_binary32 :: binary32 where "0 = B32 0"
definition one_binary32 :: binary32 where "1 = B32 0x3F800000"
definition plus_binary32 :: "binary32 \<Rightarrow> binary32 \<Rightarrow> binary32" where "x + y = fadd x y"
definition minus_binary32 :: "binary32 \<Rightarrow> binary32 \<Rightarrow> binary32" where
  "x - y = (if is_nan y then quiet_nan else fadd x (fneg y))"
definition times_binary32 :: "binary32 \<Rightarrow> binary32 \<Rightarrow> binary32" where "x * y = fmul x y"
definition divide_binary32 :: "binary32 \<Rightarrow> binary32 \<Rightarrow> binary32" where "x div y = fdiv x y"

text \<open>The comparisons of C: false whenever an operand is not a number.\<close>

definition less_eq_binary32 :: "binary32 \<Rightarrow> binary32 \<Rightarrow> bool" where
  "x \<le> y \<longleftrightarrow> \<not> is_nan x \<and> \<not> is_nan y \<and> units x \<le> units y"
definition less_binary32 :: "binary32 \<Rightarrow> binary32 \<Rightarrow> bool" where
  "x < y \<longleftrightarrow> \<not> is_nan x \<and> \<not> is_nan y \<and> units x < units y"

instance ..

end

text \<open>The four bytes of a \<^verbatim>\<open>float\<close> in memory.\<close>

definition float_bytes :: "binary32 \<Rightarrow> u8 list" where "float_bytes x = le32 (pat x)"
definition bytes_float :: "u8 list \<Rightarrow> binary32" where "bytes_float bs = B32 (u32_le bs)"

section \<open>Rounding is monotone and exact on patterns\<close>

lemma bitlen_bounds: "0 < n \<Longrightarrow> 0 < bitlen n \<and> 2 ^ (bitlen n - 1) \<le> n \<and> n < 2 ^ bitlen n"
proof (induction n rule: bitlen.induct)
  case (1 n)
  show ?case
  proof (cases "n div 2 = 0")
    case True
    with 1 have "n = 1" by auto
    then show ?thesis by (simp add: bitlen.simps)
  next
    case False
    with 1 have IH: "0 < bitlen (n div 2)" "2 ^ (bitlen (n div 2) - 1) \<le> n div 2" "n div 2 < 2 ^ bitlen (n div 2)"
      by auto
    obtain k where k: "bitlen (n div 2) = Suc k" using IH(1) by (cases "bitlen (n div 2)") auto
    have "bitlen n = Suc (Suc k)" using 1(2) k by (subst bitlen.simps) simp
    then show ?thesis using IH k by auto
  qed
qed

lemma cut_bounds: "q < 2 ^ (24 + cut q)" "cut q \<noteq> 0 \<Longrightarrow> 2 ^ (23 + cut q) \<le> q"
proof -
  have b: "0 < bitlen q \<and> 2 ^ (bitlen q - 1) \<le> q \<and> q < 2 ^ bitlen q" if "0 < q"
    using bitlen_bounds that .
  have big: "24 < bitlen q" if "2 ^ 24 \<le> q"
  proof (rule ccontr)
    assume "\<not> 24 < bitlen q"
    then have "(2 :: nat) ^ bitlen q \<le> 2 ^ 24" by (intro power_increasing) auto
    then show False using b that by fastforce
  qed
  show "q < 2 ^ (24 + cut q)"
  proof (cases "q < 2 ^ 24")
    case False
    then have "2 ^ 24 \<le> q" by simp
    then have "24 + cut q = bitlen q" using big False by (simp add: cut_def)
    then show ?thesis using b \<open>2 ^ 24 \<le> q\<close> by fastforce
  qed (simp add: cut_def)
  show "2 ^ (23 + cut q) \<le> q" if "cut q \<noteq> 0"
  proof -
    have q: "2 ^ 24 \<le> q" using that by (auto simp: cut_def split: if_splits)
    then have "23 + cut q = bitlen q - 1" using big by (simp add: cut_def)
    then show ?thesis using b q by fastforce
  qed
qed

text \<open>A pattern as a significand and the number of units of its last place.\<close>

definition sig :: "nat \<Rightarrow> nat \<Rightarrow> bool" where
  "sig k m \<longleftrightarrow> m < 2 ^ 24 \<and> (k = 0 \<or> 2 ^ 23 \<le> m)"

lemma pattern_cases:
  obtains k m where "b = k * 2 ^ 23 + m" and "sig k m"
proof (cases "b div 2 ^ 23 = 0")
  case True
  then have "b < 2 ^ 23" by (simp add: div_eq_0_iff)
  then show thesis using that [of 0 b] by (simp add: sig_def)
next
  case False
  then obtain e where e: "b div 2 ^ 23 = Suc e" by (cases "b div 2 ^ 23") auto
  have "b = Suc e * 2 ^ 23 + b mod 2 ^ 23" by (metis div_mult_mod_eq e)
  then have "b = e * 2 ^ 23 + (2 ^ 23 + b mod 2 ^ 23)" by simp
  moreover have "sig e (2 ^ 23 + b mod 2 ^ 23)" by (simp add: sig_def)
  ultimately show thesis by (rule that)
qed

lemma mag_pattern:
  assumes "m \<le> 2 ^ 24" and "k = 0 \<or> 2 ^ 23 \<le> m"
  shows "mag (k * 2 ^ 23 + m) = m * 2 ^ k"
proof -
  consider "m < 2 ^ 23" "k = 0" | "2 ^ 23 \<le> m" "m < 2 ^ 24" | "m = 2 ^ 24" using assms by force
  then show ?thesis
  proof cases
    case 2
    then have "k * 2 ^ 23 + m = Suc k * 2 ^ 23 + (m - 2 ^ 23)" "m - 2 ^ 23 < 2 ^ 23" by auto
    moreover from this have "(k * 2 ^ 23 + m) div 2 ^ 23 = Suc k" "(k * 2 ^ 23 + m) mod 2 ^ 23 = m - 2 ^ 23"
      by (simp_all only: div_mult_self3 mod_mult_self3 div_less mod_less)
    ultimately show ?thesis using 2 by (simp add: mag_def Let_def)
  next
    case 3
    then have "k * 2 ^ 23 + m = Suc (Suc k) * 2 ^ 23" by simp
    then have "(k * 2 ^ 23 + m) div 2 ^ 23 = Suc (Suc k)" "(k * 2 ^ 23 + m) mod 2 ^ 23 = 0"
      by (simp_all only: nonzero_mult_div_cancel_right mod_mult_self2_is_0) simp_all
    then show ?thesis using 3 by (simp add: mag_def Let_def)
  qed (simp add: mag_def)
qed

lemma mag_sig: "sig k m \<Longrightarrow> mag (k * 2 ^ 23 + m) = m * 2 ^ k"
  by (rule mag_pattern) (auto simp: sig_def)

lemma mag_bounds: "sig k m \<Longrightarrow> m * 2 ^ k < 2 ^ (24 + k)" "sig k m \<Longrightarrow> k \<noteq> 0 \<Longrightarrow> 2 ^ (23 + k) \<le> m * 2 ^ k"
  by (auto simp: sig_def power_add)

lemma nearest_bounds: "n div d \<le> nearest n d" "nearest n d \<le> Suc (n div d)"
  "n mod d = 0 \<Longrightarrow> 0 < d \<Longrightarrow> nearest n d = n div d"
  by (auto simp: nearest_def Let_def)

lemma pow_lt_exp: "(2 :: nat) ^ a < 2 ^ b \<Longrightarrow> a < b"
  by simp

text \<open>The significand the rounding computes.\<close>

lemma round_sig:
  assumes "0 < den" and k: "k = cut (num div den)"
  shows "round_mag num den = k * 2 ^ 23 + nearest num (den * 2 ^ k)"
    and "num div (den * 2 ^ k) < 2 ^ 24" and "k \<noteq> 0 \<Longrightarrow> 2 ^ 23 \<le> num div (den * 2 ^ k)"
proof -
  show "round_mag num den = k * 2 ^ 23 + nearest num (den * 2 ^ k)" by (simp add: round_mag_def k Let_def)
  have q: "num div (den * 2 ^ k) = num div den div 2 ^ k" by (simp add: div_mult2_eq)
  show "num div (den * 2 ^ k) < 2 ^ 24"
    unfolding q using cut_bounds(1) [of "num div den"] by (simp add: k power_add less_mult_imp_div_less)
  show "2 ^ 23 \<le> num div (den * 2 ^ k)" if "k \<noteq> 0"
    unfolding q using cut_bounds(2) [of "num div den"] that
    by (simp add: k power_add less_eq_div_iff_mult_less_eq)
qed

lemma round_mag_le:
  assumes "0 < den" and le: "num \<le> mag b * den"
  shows "round_mag num den \<le> b"
proof -
  obtain kb mb where b: "b = kb * 2 ^ 23 + mb" and s: "sig kb mb" by (rule pattern_cases)
  define k where k: "k = cut (num div den)"
  note r = round_sig [OF assms(1) k]
  have "num div den \<le> mag b" using div_le_mono [OF le, of den] assms(1) by simp
  then have q: "num div den \<le> mb * 2 ^ kb" unfolding b mag_sig [OF s] .
  have kk: "k \<le> kb"
  proof (rule ccontr)
    assume "\<not> k \<le> kb"
    then have "2 ^ (23 + k) \<le> num div den" using cut_bounds(2) [of "num div den"] k by simp
    then have "2 ^ (23 + k) \<le> mb * 2 ^ kb" using q by (rule le_trans)
    then have "(2 :: nat) ^ (23 + k) < 2 ^ (24 + kb)" using mag_bounds(1) [OF s] by (rule le_less_trans)
    then have "23 + k < 24 + kb" by (rule pow_lt_exp)
    then show False using \<open>\<not> k \<le> kb\<close> by simp
  qed
  let ?d = "den * 2 ^ k"
  show ?thesis
  proof (cases "k = kb")
    case True
    have "num \<le> mb * ?d" using le unfolding b mag_sig [OF s] True by (simp only: ac_simps)
    moreover have "0 < ?d" using assms(1) by simp
    ultimately have "nearest num ?d \<le> mb"
    proof (cases "num = mb * ?d")
      case True
      then show ?thesis using nearest_bounds(3) [of num ?d] \<open>0 < ?d\<close> by simp
    next
      case False
      with \<open>num \<le> mb * ?d\<close> have "num div ?d < mb" by (intro less_mult_imp_div_less) simp
      then show ?thesis using nearest_bounds(2) [of num ?d] by simp
    qed
    then show ?thesis using r(1) b True by simp
  next
    case False
    with kk have "Suc k \<le> kb" "2 ^ 23 \<le> mb" using s by (auto simp: sig_def)
    then have "Suc k * 2 ^ 23 + 2 ^ 23 \<le> b" unfolding b by (intro add_mono mult_right_mono) auto
    moreover have "nearest num ?d \<le> 2 ^ 24" using nearest_bounds(2) [of num ?d] r(2) by simp
    ultimately show ?thesis using r(1) by simp
  qed
qed

lemma round_mag_ge:
  assumes "0 < den" and le: "mag b * den \<le> num"
  shows "b \<le> round_mag num den"
proof -
  obtain kb mb where b: "b = kb * 2 ^ 23 + mb" and s: "sig kb mb" by (rule pattern_cases)
  define k where k: "k = cut (num div den)"
  note r = round_sig [OF assms(1) k]
  have "mag b \<le> num div den" using div_le_mono [OF le, of den] assms(1) by simp
  then have q: "mb * 2 ^ kb \<le> num div den" unfolding b mag_sig [OF s] .
  have kk: "kb \<le> k"
  proof (rule ccontr)
    assume "\<not> kb \<le> k"
    then have "2 ^ (23 + kb) \<le> mb * 2 ^ kb" using mag_bounds(2) [OF s] by simp
    then have "2 ^ (23 + kb) \<le> num div den" using q by (rule le_trans)
    then have "(2 :: nat) ^ (23 + kb) < 2 ^ (24 + k)" unfolding k using cut_bounds(1) by (rule le_less_trans)
    then have "23 + kb < 24 + k" by (rule pow_lt_exp)
    then show False using \<open>\<not> kb \<le> k\<close> by simp
  qed
  let ?d = "den * 2 ^ k"
  show ?thesis
  proof (cases "k = kb")
    case True
    have "mb * ?d \<le> num" using le unfolding b mag_sig [OF s] True by (simp only: ac_simps)
    moreover have "0 < ?d" using assms(1) by simp
    ultimately have "mb \<le> num div ?d" by (simp only: less_eq_div_iff_mult_less_eq)
    then show ?thesis using r(1) b True nearest_bounds(1) [of num ?d] by simp
  next
    case False
    with kk obtain j where j: "k = Suc j" "kb \<le> j" by (cases k) auto
    have "kb * 2 ^ 23 \<le> j * (2 ^ 23 :: nat)" using j(2) by simp
    moreover have "mb < 2 ^ 24" using s by (simp add: sig_def)
    ultimately have "b < j * 2 ^ 23 + 2 ^ 24" unfolding b by linarith
    moreover have "2 ^ 23 \<le> nearest num ?d" using r(3) j nearest_bounds(1) [of num ?d] by simp
    ultimately show ?thesis using r(1) j by simp
  qed
qed

lemma round_mag_exact: "round_mag (mag b) 1 = b"
  using round_mag_le [of 1 "mag b" b] round_mag_ge [of 1 b "mag b"] by simp

lemma mag_mono: "a \<le> b \<Longrightarrow> mag a \<le> mag b"
proof (rule ccontr)
  assume "a \<le> b" and "\<not> mag a \<le> mag b"
  then have "round_mag (mag b) 1 \<le> a" by (intro round_mag_le) auto
  moreover have "round_mag (mag b) 1 = b" by (rule round_mag_exact)
  ultimately show False using \<open>a \<le> b\<close> \<open>\<not> mag a \<le> mag b\<close> by simp
qed

lemma mag_inj: "mag a = mag b \<Longrightarrow> a = b"
  by (metis round_mag_exact)

lemma mag_le_iff: "mag a \<le> mag b \<longleftrightarrow> a \<le> b"
  by (metis mag_inj mag_mono le_antisym nat_le_linear)

text \<open>The rounding error is at most half a unit in the last place.\<close>

lemma nearest_error:
  assumes "0 < d"
  shows "2 * \<bar>int (nearest n d * d) - int n\<bar> \<le> int d"
proof -
  have n: "int n = int (n div d * d) + int (n mod d)"
    by (metis div_mult_mod_eq of_nat_add)
  have "n mod d < d" using assms by simp
  then have r: "int (n mod d) < int d" by (simp only: of_nat_less_iff)
  show ?thesis
  proof (cases "d < 2 * (n mod d) \<or> 2 * (n mod d) = d \<and> odd (n div d)")
    case True
    then have "nearest n d * d = n div d * d + d" by (simp add: nearest_def Let_def)
    then have "int (nearest n d * d) - int n = int d - int (n mod d)" using n by linarith
    moreover from True have "int d \<le> 2 * int (n mod d)" by linarith
    ultimately show ?thesis using r by simp
  next
    case False
    then have "nearest n d = n div d" by (auto simp: nearest_def Let_def)
    then have "int (nearest n d * d) - int n = - int (n mod d)" using n by simp
    moreover from False have "2 * int (n mod d) \<le> int d" by linarith
    ultimately show ?thesis by simp
  qed
qed

section \<open>Signs and bounds of results\<close>

lemma pack_sel [simp]: "neg (pack s b) = s" "upat (pack s b) = min b inf_pat"
proof -
  have "unat (of_nat ((if s then 2 ^ 31 else 0) + min b inf_pat) :: u32) = (if s then 2 ^ 31 else 0) + min b inf_pat"
    by (rule unat_of_nat32) (simp add: inf_pat_def min_def)
  then have u: "unat (pat (pack s b)) = (if s then 2 ^ 31 else 0) + min b inf_pat" by (simp add: pack_def)
  define c where "c = min b inf_pat"
  have m: "c < 2 ^ 31" by (simp add: inf_pat_def min_def c_def)
  show "neg (pack s b) = s" using m by (simp add: neg_def u c_def [symmetric])
  show "upat (pack s b) = min b inf_pat" using m by (simp add: upat_def u c_def [symmetric])
qed

lemma pack_class [simp]:
  "\<not> is_nan (pack s b)" "is_inf (pack s b) \<longleftrightarrow> inf_pat \<le> b" "is_fin (pack s b) \<longleftrightarrow> b < inf_pat"
  by (auto simp: is_nan_def is_inf_def is_fin_def)

lemma round_units_sel [simp]:
  "neg (round_units s n d) = s" "upat (round_units s n d) = min (round_mag n d) inf_pat"
  "\<not> is_nan (round_units s n d)"
  by (simp_all add: round_units_def)

text \<open>Sign bit clear and a number: the values the accumulators hold.\<close>

definition pos :: "binary32 \<Rightarrow> bool" where
  "pos x \<longleftrightarrow> \<not> neg x \<and> \<not> is_nan x"

lemma fin_not: "is_fin x \<Longrightarrow> \<not> is_nan x" "is_fin x \<Longrightarrow> \<not> is_inf x"
  by (auto simp: is_fin_def is_nan_def is_inf_def)

lemma zero_sel [simp]: "neg 0 = False" "upat 0 = 0" "\<not> is_nan 0" "is_fin 0" "pos 0" "units 0 = 0"
  by (simp_all add: zero_binary32_def neg_def upat_def is_nan_def is_fin_def inf_pat_def pos_def units_def mag_def)

lemma mag_0 [simp]: "mag 0 = 0" "mag b = 0 \<longleftrightarrow> b = 0"
proof -
  show z: "mag 0 = 0" by (simp add: mag_def)
  show "mag b = 0 \<longleftrightarrow> b = 0" using mag_inj [of b 0] z by auto
qed

lemma mag_gr0 [simp]: "0 < mag b \<longleftrightarrow> 0 < b"
  using mag_0(2) [of b] by linarith

lemma pos_nonneg: "pos x \<Longrightarrow> 0 \<le> x"
  by (simp add: pos_def less_eq_binary32_def units_def)

lemma fneg_sel [simp]:
  "\<not> is_nan x \<Longrightarrow> neg (fneg x) = (\<not> neg x)" "\<not> is_nan x \<Longrightarrow> upat (fneg x) = upat x" "\<not> is_nan (fneg x)"
  by (simp_all add: fneg_def is_nan_def)

lemma pos_add:
  assumes "pos x" and "pos y"
  shows "pos (x + y)"
  using assms by (auto simp: pos_def plus_binary32_def fadd_def Let_def units_def)

lemma mag_consts: "mag 0x42C80000 = 100 * 2 ^ 149" "mag 0x3F800000 = 2 ^ 149" "mag 0x4F000000 = 2 ^ 31 * 2 ^ 149"
  by (simp_all add: mag_def)

lemma round_int:
  assumes "mag b = n * 2 ^ 149" and "b < inf_pat"
  shows "upat (of_int32 (int n)) = b" and "neg (of_int32 (int n)) = False"
proof -
  have "round_mag (nat \<bar>int n\<bar> * 2 ^ 149) 1 = b" using round_mag_exact [of b] assms(1) by simp
  then show "upat (of_int32 (int n)) = b" using assms(2) by (simp add: of_int32_def)
qed (simp add: of_int32_def)

lemma small_ints:
  "neg (of_int32 100) = False" "upat (of_int32 100) = 0x42C80000" "neg 1 = False" "upat 1 = 0x3F800000"
  using round_int [of "0x42C80000" 100] mag_consts(1)
  by (simp_all add: inf_pat_def one_binary32_def neg_def upat_def)

lemma hundred: "is_fin (of_int32 100)" "\<not> is_nan (of_int32 100)" "\<not> is_inf (of_int32 100)" "upat (of_int32 100) \<noteq> 0"
  by (simp_all add: is_fin_def is_nan_def is_inf_def small_ints inf_pat_def)

lemma of_int32_pos:
  assumes "0 \<le> n" and "n \<le> 2147483647"
  shows "pos (of_int32 n)" and "is_fin (of_int32 n)"
proof -
  have "nat \<bar>n\<bar> \<le> 2 ^ 31" using assms by (simp add: nat_le_iff)
  then have "nat \<bar>n\<bar> * 2 ^ 149 \<le> mag 0x4F000000 * 1"
    unfolding mag_consts mult_1_right by (rule mult_right_mono) simp
  then have "round_mag (nat \<bar>n\<bar> * 2 ^ 149) 1 \<le> 0x4F000000" by (rule round_mag_le [rotated]) simp
  then show "is_fin (of_int32 n)" by (simp add: of_int32_def is_fin_def inf_pat_def)
  show "pos (of_int32 n)" using assms by (simp add: of_int32_def pos_def)
qed

lemma div_hundred_pos:
  assumes "pos x" and "is_fin x"
  shows "pos (x div of_int32 100)" and "is_fin (x div of_int32 100)"
proof -
  have "round_mag (mag (upat x) * 2 ^ 149) (mag (upat (of_int32 100))) \<le> upat x"
    by (intro round_mag_le) (simp_all add: small_ints mag_consts)
  then show "is_fin (x div of_int32 100)" "pos (x div of_int32 100)"
    using assms hundred fin_not [OF assms(2)]
    by (auto simp: divide_binary32_def fdiv_def Let_def is_fin_def pos_def small_ints)
qed

section \<open>A share in percent\<close>

lemma units_pos: "pos x \<Longrightarrow> units x = int (mag (upat x))"
  by (simp add: pos_def units_def)

lemma diff_pos:
  assumes x: "pos x" "is_fin x" and y: "pos y"
  shows "\<not> is_nan (x - y)" and "neg (x - y) \<longleftrightarrow> units x < units y" and "\<not> neg (x - y) \<Longrightarrow> upat (x - y) \<le> upat x"
proof -
  have n: "\<not> is_nan y" "\<not> neg y" "\<not> is_nan x" "\<not> neg x" "\<not> is_inf x"
    using x y fin_not [OF x(2)] by (simp_all add: pos_def)
  then have d: "x - y = (if is_inf y then fneg y
      else let s = units x - units y in
           if s = 0 then pack False 0 else round_units (s < 0) (nat \<bar>s\<bar>) 1)"
    by (simp add: minus_binary32_def fadd_def is_inf_def units_def Let_def)
  have big: "units x < units y" if "is_inf y"
    using that x(2) mag_le_iff [of "upat y" "upat x"] by (simp add: units_pos x y is_inf_def is_fin_def)
  have le: "round_mag (nat \<bar>units x - units y\<bar>) 1 \<le> upat x" if "units y \<le> units x"
    using that by (intro round_mag_le) (simp_all add: units_pos x y)
  show "\<not> is_nan (x - y)" by (simp add: d Let_def)
  show "neg (x - y) \<longleftrightarrow> units x < units y" using n big by (auto simp: d Let_def)
  show "upat (x - y) \<le> upat x" if "\<not> neg (x - y)"
    using that n le by (auto simp: d Let_def split: if_splits)
qed

lemma div_pos:
  assumes x: "pos x" "is_fin x" "upat x \<noteq> 0" and d: "\<not> is_nan d"
  shows "\<not> is_nan (d div x)" and "neg (d div x) = neg d"
    and "\<not> neg d \<Longrightarrow> upat d \<le> upat x \<Longrightarrow> upat (d div x) \<le> upat 1"
proof -
  have n: "\<not> is_nan x" "\<not> neg x" "\<not> is_inf x" using x fin_not [OF x(2)] by (simp_all add: pos_def)
  then have q: "d div x = (if is_inf d then pack (neg d) inf_pat
      else round_units (neg d) (mag (upat d) * 2 ^ 149) (mag (upat x)))"
    using d x(3) by (simp add: divide_binary32_def fdiv_def Let_def)
  show "\<not> is_nan (d div x)" "neg (d div x) = neg d" by (simp_all add: q)
  assume le: "\<not> neg d" "upat d \<le> upat x"
  then have "\<not> is_inf d" using x(2) by (simp add: is_inf_def is_fin_def)
  have "mag (upat d) * 2 ^ 149 \<le> mag (upat 1) * mag (upat x)"
    using mag_mono [OF le(2)] by (simp add: small_ints mag_consts)
  then have "round_mag (mag (upat d) * 2 ^ 149) (mag (upat x)) \<le> upat 1"
    using x(3) by (intro round_mag_le) simp_all
  then show "upat (d div x) \<le> upat 1" using \<open>\<not> is_inf d\<close> by (simp add: q)
qed

lemma times_hundred:
  assumes q: "\<not> is_nan q"
  shows "\<not> is_nan (q * of_int32 100)" and "neg (q * of_int32 100) = neg q"
    and "upat q \<le> upat 1 \<Longrightarrow> upat (q * of_int32 100) \<le> upat (of_int32 100)"
proof -
  have r: "q * of_int32 100 = (if is_inf q then pack (neg q) inf_pat
      else round_units (neg q) (mag (upat q) * mag (upat (of_int32 100))) (2 ^ 149))"
    using q hundred by (simp add: times_binary32_def fmul_def Let_def small_ints is_inf_def inf_pat_def)
  show "\<not> is_nan (q * of_int32 100)" "neg (q * of_int32 100) = neg q" by (simp_all add: r)
  assume le: "upat q \<le> upat 1"
  then have "\<not> is_inf q" by (simp add: is_inf_def small_ints inf_pat_def)
  have "mag (upat q) * mag (upat (of_int32 100)) \<le> mag (upat (of_int32 100)) * 2 ^ 149"
    using mag_mono [OF le] by (simp add: small_ints mag_consts)
  then have "round_mag (mag (upat q) * mag (upat (of_int32 100))) (2 ^ 149) \<le> upat (of_int32 100)"
    by (intro round_mag_le) simp_all
  then show "upat (q * of_int32 100) \<le> upat (of_int32 100)" using \<open>\<not> is_inf q\<close> by (simp add: r)
qed

lemma percent_bounds:
  assumes x: "pos x" "is_fin x" "0 < x" and y: "pos y"
  shows "(x - y) div x * of_int32 100 \<le> of_int32 100"
    and "y \<le> x \<Longrightarrow> 0 \<le> (x - y) div x * of_int32 100"
    and "x < y \<Longrightarrow> (x - y) div x * of_int32 100 \<le> 0"
proof -
  have nz: "upat x \<noteq> 0" using x(3) by (auto simp: less_binary32_def units_def split: if_splits)
  let ?d = "x - y" and ?q = "(x - y) div x" and ?r = "(x - y) div x * of_int32 100"
  note d = diff_pos [OF x(1,2) y] and q = div_pos [OF x(1,2) nz diff_pos(1) [OF x(1,2) y]]
  note r = times_hundred [OF q(1)]
  have h: "units (of_int32 100) = int (mag (upat (of_int32 100)))" by (simp add: units_def small_ints)
  have s: "neg ?r \<longleftrightarrow> units x < units y" using d(2) q(2) r(2) by simp
  have up: "upat ?r \<le> upat (of_int32 100)" if "\<not> neg ?r"
    using that d(3) q(2,3) r(2,3) by simp
  show "?r \<le> of_int32 100"
    using up r(1) hundred(2) mag_mono by (auto simp: less_eq_binary32_def h units_def [of ?r])
  show "0 \<le> ?r" if "y \<le> x" using that s r(1) by (simp add: less_eq_binary32_def units_def [of ?r])
  show "?r \<le> 0" if "x < y" using that s r(1) by (simp add: less_eq_binary32_def less_binary32_def units_def [of ?r])
qed

section \<open>Evaluation\<close>

lemmas float_eval =
  to_int_def times_binary32_def divide_binary32_def plus_binary32_def minus_binary32_def
  fmul_def fdiv_def fadd_def fneg_def of_int32_def round_units_def round_mag_def cut_def bitlen.simps
  nearest_def mag_def upat_def neg_def is_nan_def is_inf_def is_fin_def inf_pat_def pack_def Let_def
  units_def min_def quiet_nan_def

text \<open>A few results, as the hardware gives them.\<close>

lemma float_samples:
  "of_int32 1 div of_int32 3 = B32 0x3EAAAAAB" "B32 0x42F6E979 * of_int32 100 = B32 0x4640E667"
  "B32 0x7F7FFFFF + B32 0x7F7FFFFF = B32 0x7F800000" "B32 3 div of_int32 2 = B32 2" "of_int32 16777217 = B32 0x4B800000"
  by (simp_all add: float_eval)

end
