(* ===== verification/ElMeter.thy ===== *)
theory ElMeter
  imports ElDbase Binary32 XmlDom
begin

text \<open>
  \<^verbatim>\<open>enegy_loss/elMeter.c\<close>: the meter parameters, read from the configuration into the array
  \<^verbatim>\<open>g_ParaMet\<close>, and the energy each level of meters has used since the start.

  The loader stores 32 bit \<^verbatim>\<open>int\<close>s through pointers to one-byte members, so \<^verbatim>\<open>g_ParaMet\<close> is modelled as
  the bytes it occupies: 128 elements of 52 bytes, with the members of \<^verbatim>\<open>OOP_METER_T\<close> at the
  offsets natural alignment gives them.  A \<^verbatim>\<open>float\<close> is a \<open>binary32\<close>.
\<close>

definition MAX_METER :: int where "MAX_METER = 1024"
definition MAX_MET_NUM :: nat where "MAX_MET_NUM = 128"
definition METER_LEV_MAX :: u8 where "METER_LEV_MAX = 4"

definition DI_ENERGY :: "u32 list" where
  "DI_ENERGY = [0x00010000, 0x00150000, 0x00290000, 0x003D0000, 0x00020000, 0x00160000, 0x002A0000, 0x003E0000]"

section \<open>Energy blocks\<close>

record OOP_ENERGY_T =
  en_nNum :: u32
  en_rsv :: u32
  en_nValue :: "binary32 list"

record MET_ENERGY_BLOCK_T =
  enepaT :: OOP_ENERGY_T
  enepaA :: OOP_ENERGY_T
  enepaB :: OOP_ENERGY_T
  enepaC :: OOP_ENERGY_T
  enenaT :: OOP_ENERGY_T
  enenaA :: OOP_ENERGY_T
  enenaB :: OOP_ENERGY_T
  enenaC :: OOP_ENERGY_T

definition zero_energy :: OOP_ENERGY_T where
  "zero_energy = \<lparr>en_nNum = 0, en_rsv = 0, en_nValue = replicate 5 0\<rparr>"

definition zero_block :: MET_ENERGY_BLOCK_T where
  "zero_block = \<lparr>enepaT = zero_energy, enepaA = zero_energy, enepaB = zero_energy, enepaC = zero_energy,
     enenaT = zero_energy, enenaA = zero_energy, enenaB = zero_energy, enenaC = zero_energy\<rparr>"

text \<open>\<open>nValue[0]\<close> of the \<open>i\<close>-th of the eight members, in the order of \<^verbatim>\<open>DI_ENERGY\<close>.\<close>

fun member :: "nat \<Rightarrow> MET_ENERGY_BLOCK_T \<Rightarrow> OOP_ENERGY_T" where
  "member i b = [enepaT b, enepaA b, enepaB b, enepaC b, enenaT b, enenaA b, enenaB b, enenaC b] ! i"

definition set_value :: "binary32 \<Rightarrow> OOP_ENERGY_T \<Rightarrow> OOP_ENERGY_T" where
  "set_value v e = e\<lparr>en_nValue := (en_nValue e)[0 := v]\<rparr>"

definition value_of :: "nat \<Rightarrow> MET_ENERGY_BLOCK_T \<Rightarrow> binary32" where
  "value_of i b = en_nValue (member i b) ! 0"

definition set_member :: "nat \<Rightarrow> binary32 \<Rightarrow> MET_ENERGY_BLOCK_T \<Rightarrow> MET_ENERGY_BLOCK_T" where
  "set_member i v b =
     (if i = 0 then b\<lparr>enepaT := set_value v (enepaT b)\<rparr>
      else if i = 1 then b\<lparr>enepaA := set_value v (enepaA b)\<rparr>
      else if i = 2 then b\<lparr>enepaB := set_value v (enepaB b)\<rparr>
      else if i = 3 then b\<lparr>enepaC := set_value v (enepaC b)\<rparr>
      else if i = 4 then b\<lparr>enenaT := set_value v (enenaT b)\<rparr>
      else if i = 5 then b\<lparr>enenaA := set_value v (enenaA b)\<rparr>
      else if i = 6 then b\<lparr>enenaB := set_value v (enenaB b)\<rparr>
      else if i = 7 then b\<lparr>enenaC := set_value v (enenaC b)\<rparr>
      else b)"

text \<open>The globals of the file; \<open>mt_db\<close> is the database client of the application.\<close>

record meters =
  g_ParaMet :: "u8 list"
  s_EneUseUp :: "MET_ENERGY_BLOCK_T list"
  s_MetData :: "MET_ENERGY_BLOCK_T list"
  s_MetDataBak :: "MET_ENERGY_BLOCK_T list"
  mt_db :: dbase_proc

definition zero_ParaMet :: "u8 list" where
  "zero_ParaMet = replicate (128 * 52) 0"

definition meter_data_init :: "'a meters_scheme \<Rightarrow> 'a meters_scheme" where
  "meter_data_init s = s\<lparr>s_EneUseUp := replicate 4 zero_block, s_MetData := replicate 128 zero_block,
     s_MetDataBak := replicate 128 zero_block, g_ParaMet := zero_ParaMet\<rparr>"

section \<open>Members of the meter parameters\<close>

definition poke :: "u8 list \<Rightarrow> int \<Rightarrow> u8 list \<Rightarrow> u8 list res" where
  "poke mem a bs = (if 0 \<le> a \<and> a + int (length bs) \<le> int (length mem) then Inr (patch mem (nat a) bs) else Inl OutOfBounds)"

definition peek :: "u8 list \<Rightarrow> int \<Rightarrow> nat \<Rightarrow> u8 list res" where
  "peek mem a n = (if 0 \<le> a \<and> a + int n \<le> int (length mem) then Inr (take n (drop (nat a) mem)) else Inl OutOfBounds)"

text \<open>Byte offsets of \<^verbatim>\<open>nIndex\<close>, \<^verbatim>\<open>basic.tsa.add\<close>, \<^verbatim>\<open>basic.baud\<close>, ... of element \<open>n\<close>.\<close>

definition met_nIndex :: "int \<Rightarrow> int" where "met_nIndex n = n * 52"
definition met_add :: "int \<Rightarrow> int" where "met_add n = n * 52 + 6"
definition met_baud :: "int \<Rightarrow> int" where "met_baud n = n * 52 + 21"
definition met_protocol :: "int \<Rightarrow> int" where "met_protocol n = n * 52 + 22"
definition met_port :: "int \<Rightarrow> int" where "met_port n = n * 52 + 24"
definition met_userType :: "int \<Rightarrow> int" where "met_userType n = n * 52 + 42"
definition met_level :: "int \<Rightarrow> int" where "met_level n = n * 52 + 43"

lemmas met_offsets = met_nIndex_def met_add_def met_baud_def met_protocol_def met_port_def met_userType_def met_level_def

text \<open>\<^verbatim>\<open>str2dec(szAttr, (int*)&member)\<close>.\<close>

definition poke_dec :: "u8 list \<Rightarrow> int \<Rightarrow> string \<Rightarrow> u8 list res" where
  "poke_dec mem a s = bindR (str2dec_el (cstr s)) (\<lambda>v. poke mem a (le32 (word_of_int v)))"

section \<open>Loading the parameters\<close>

text \<open>
  One \<^verbatim>\<open>para\<close> element.  The last component tells how the body ended: the loop goes on, is left
  by \<^verbatim>\<open>break\<close>, or the function returns -1.
\<close>

datatype load_end = Continue | Break | Return

definition para_item :: "u8 list \<Rightarrow> xmlNode \<Rightarrow> (u8 list \<times> load_end) res" where
  "para_item mem n =
     (case xmlGetProp n ''index'' of
        None \<Rightarrow> Inr (mem, Return)
      | Some s \<Rightarrow>
          bindR (str2dec_el (cstr s)) (\<lambda>nPn.
          if nPn \<ge> MAX_METER then Inr (mem, Break)
          else
          bindR (poke mem (met_nIndex nPn) (le16 (word_of_int nPn))) (\<lambda>mem.
          bindR (case xmlGetProp n ''addr'' of
                   None \<Rightarrow> Inr mem
                 | Some a \<Rightarrow> bindR (strlen (cstr a)) (\<lambda>len.
                     bindR (str2hex_el (cstr a) mem (nat (met_add nPn)) (int len)) (\<lambda>(mem, _). Inr mem))) (\<lambda>mem.
          case xmlGetProp n ''baud'' of
            None \<Rightarrow> Inr (mem, Return)
          | Some b \<Rightarrow>
          bindR (poke_dec mem (met_baud nPn) b) (\<lambda>mem.
          case xmlGetProp n ''proto'' of
            None \<Rightarrow> Inr (mem, Return)
          | Some pr \<Rightarrow>
          bindR (poke_dec mem (met_protocol nPn) pr) (\<lambda>mem.
          bindR (case xmlGetProp n ''port'' of
                   None \<Rightarrow> Inr mem
                 | Some q \<Rightarrow>
                     bindR (str2hex_el (cstr q) (le32 0) 0 8) (\<lambda>(nPort, _).
                     bindR (peek mem (met_port nPn) 4) (\<lambda>port.
                     bindR (reversecpy_el port nPort 4) (\<lambda>port.
                       poke mem (met_port nPn) port)))) (\<lambda>mem.
          case xmlGetProp n ''userType'' of
            None \<Rightarrow> Inr (mem, Return)
          | Some u \<Rightarrow>
          bindR (poke_dec mem (met_userType nPn) u) (\<lambda>mem.
          case xmlGetProp n ''level'' of
            None \<Rightarrow> Inr (mem, Return)
          | Some l \<Rightarrow>
          bindR (poke_dec mem (met_level nPn) l) (\<lambda>mem. Inr (mem, Continue))))))))))"

text \<open>The loop; its result is the parameters and the return value.\<close>

fun load_paras :: "int \<Rightarrow> xmlNode list \<Rightarrow> nat \<Rightarrow> u8 list \<Rightarrow> (u8 list \<times> int) res" where
  "load_paras nMetNum [] idx mem = Inr (mem, int idx)"
| "load_paras nMetNum (n # ns) idx mem =
     (if int idx > nMetNum then Inr (mem, int idx)
      else bindR (para_item mem n) (\<lambda>(mem, e).
             case e of
               Continue \<Rightarrow> load_paras nMetNum ns (Suc idx) mem
             | Break \<Rightarrow> Inr (mem, int idx)
             | Return \<Rightarrow> Inr (mem, - 1)))"

definition meter_para_load :: "xmlDoc option \<Rightarrow> (u8 list \<times> int) res" where
  "meter_para_load doc =
     (case doc of
        None \<Rightarrow> Inr (zero_ParaMet, - 1)
      | Some d \<Rightarrow>
     (case xmlDocGetRootElement d of
        None \<Rightarrow> Inr (zero_ParaMet, - 1)
      | Some rootNode \<Rightarrow>
     (case find_by_name (node_children rootNode) ''IED_PARA'' of
        None \<Rightarrow> Inr (zero_ParaMet, - 1)
      | Some iedPara \<Rightarrow>
          bindR (get_cfg_num_el (Some iedPara)) (\<lambda>nMetNum.
          if nMetNum \<le> 0 then Inr (zero_ParaMet, - 1)
          else load_paras nMetNum (node_children iedPara) 0 zero_ParaMet))))"

section \<open>Levels\<close>

definition EMPTY_METER :: "u8 list \<Rightarrow> u16 \<Rightarrow> bool res" where
  "EMPTY_METER mem metid = bindR (peek mem (met_port (uint metid)) 4) (\<lambda>bs. Inr (u32_le bs = 0))"

definition meter_level_check :: "u8 list \<Rightarrow> u16 \<Rightarrow> u8 res" where
  "meter_level_check mem metid =
     (if uint metid \<ge> MAX_METER then Inr METER_LEV_MAX
      else bindR (EMPTY_METER mem metid) (\<lambda>e.
           if e then Inr METER_LEV_MAX
           else bindR (peek mem (met_level (uint metid)) 1) (\<lambda>bs. rd bs 0)))"

section \<open>Energy used\<close>

text \<open>The result is the new backup value and the energy used since it was taken.\<close>

definition meter_ene_update :: "binary32 \<Rightarrow> binary32 \<Rightarrow> (binary32 \<times> binary32) res" where
  "meter_ene_update cur bak =
     bindR (to_int (cur * of_int32 100)) (\<lambda>eneCur.
     bindR (to_int (bak * of_int32 100)) (\<lambda>eneBak.
       if eneCur < eneBak then Inr (bak, 0)
       else if eneBak = 0 then Inr (cur, 0)
       else bindR (addi eneCur (- eneBak)) (\<lambda>d. Inr (cur, of_int32 d div of_int32 100))))"

text \<open>
  One of the eight reads of \<^verbatim>\<open>meter_data_update\<close>: the four bytes of the value are handed to
  \<^verbatim>\<open>el_read_data\<close> as its buffer.
\<close>

definition read_member ::
  "os_env \<Rightarrow> 'w tick_env \<Rightarrow> nat \<Rightarrow> nat \<Rightarrow> nat \<Rightarrow> 'a meters_scheme \<Rightarrow> 'w \<Rightarrow> ('a meters_scheme \<times> 'w) res" where
  "read_member os env metid level i s w =
     bindR (rd (s_MetData s) metid) (\<lambda>dat.
     bindR (el_read_data os env (of_nat metid) (DI_ENERGY ! i) (float_bytes (value_of i dat)) 4 (mt_db s) w)
       (\<lambda>(p, w, out, nRet).
     let cur = bytes_float out;
         s = s\<lparr>mt_db := p, s_MetData := (s_MetData s)[metid := set_member i cur dat]\<rparr> in
     if nRet > 0 then
       bindR (rd (s_MetDataBak s) metid) (\<lambda>bak.
       bindR (rd (s_EneUseUp s) level) (\<lambda>use.
       bindR (meter_ene_update cur (value_of i bak)) (\<lambda>(b, e).
         Inr (s\<lparr>s_MetDataBak := (s_MetDataBak s)[metid := set_member i b bak],
                s_EneUseUp := (s_EneUseUp s)[level := set_member i (value_of i use + e) use]\<rparr>, w))))
     else Inr (s, w)))"

fun read_members ::
  "os_env \<Rightarrow> 'w tick_env \<Rightarrow> nat \<Rightarrow> nat \<Rightarrow> nat list \<Rightarrow> 'a meters_scheme \<Rightarrow> 'w \<Rightarrow> ('a meters_scheme \<times> 'w) res" where
  "read_members os env metid level [] s w = Inr (s, w)"
| "read_members os env metid level (i # js) s w =
     bindR (read_member os env metid level i s w) (\<lambda>(s, w). read_members os env metid level js s w)"

definition update_meter ::
  "os_env \<Rightarrow> 'w tick_env \<Rightarrow> nat \<Rightarrow> 'a meters_scheme \<Rightarrow> 'w \<Rightarrow> ('a meters_scheme \<times> 'w) res" where
  "update_meter os env metid s w =
     bindR (EMPTY_METER (g_ParaMet s) (of_nat metid)) (\<lambda>e.
     if e then Inr (s, w)
     else bindR (meter_level_check (g_ParaMet s) (of_nat metid)) (\<lambda>level.
       if level \<ge> METER_LEV_MAX then Inr (s, w)
       else read_members os env metid (unat level) [0 ..< 8] s w))"

fun update_meters ::
  "os_env \<Rightarrow> 'w tick_env \<Rightarrow> nat list \<Rightarrow> 'a meters_scheme \<Rightarrow> 'w \<Rightarrow> ('a meters_scheme \<times> 'w) res" where
  "update_meters os env [] s w = Inr (s, w)"
| "update_meters os env (m # ms) s w =
     bindR (update_meter os env m s w) (\<lambda>(s, w). update_meters os env ms s w)"

definition meter_data_update ::
  "os_env \<Rightarrow> 'w tick_env \<Rightarrow> 'a meters_scheme \<Rightarrow> 'w \<Rightarrow> ('a meters_scheme \<times> 'w) res" where
  "meter_data_update os env = update_meters os env [0 ..< MAX_MET_NUM]"

text \<open>\<^verbatim>\<open>el_ene_get\<close>: the level is not checked.\<close>

definition el_ene_get :: "MET_ENERGY_BLOCK_T list \<Rightarrow> nat \<Rightarrow> nat \<Rightarrow> binary32 res" where
  "el_ene_get use level nPhase =
     (if nPhase < 4 then bindR (rd use level) (\<lambda>b. Inr (value_of nPhase b)) else Inr (of_int32 (- 1)))"

end
