(* ===== verification/ElTask.thy ===== *)
theory ElTask
  imports ElMeter
begin

text \<open>
  \<^verbatim>\<open>enegy_loss/elTask.c\<close>: once a minute the task reads the meters, computes the line loss between
  each level and the next, and writes the results back to the data server.
\<close>

definition EL_MAX_PHASES :: nat where "EL_MAX_PHASES = 4"

record EL_UNIT_T =
  eneSup :: binary32
  eneSal :: binary32
  eneDeliv :: binary32
  eneDistrpwrnet :: binary32
  nRatio :: binary32
  abnorFlag :: u8

record EL_STATES_T =
  st_nNum :: u32
  st_rsv :: u32
  st_nVal :: "EL_UNIT_T list"

record el_app = meters +
  elStatis :: "EL_STATES_T list"
  nTicks :: int

definition zero_unit :: EL_UNIT_T where
  "zero_unit = \<lparr>eneSup = 0, eneSal = 0, eneDeliv = 0, eneDistrpwrnet = 0, nRatio = 0, abnorFlag = 0\<rparr>"

definition el_statis_init :: "el_app \<Rightarrow> el_app" where
  "el_statis_init s = s\<lparr>elStatis := replicate 4 \<lparr>st_nNum = 0, st_rsv = 0, st_nVal = replicate 4 zero_unit\<rparr>\<rparr>"

text \<open>
  The two searches for a meter of a level: the first \<open>metid\<close> that is not empty and whose level
  satisfies the test, or 128.
\<close>

function find_meter :: "u8 list \<Rightarrow> (u8 \<Rightarrow> bool) \<Rightarrow> nat \<Rightarrow> nat res" where
  "find_meter mem test metid =
     (if metid < MAX_MET_NUM then
        bindR (EMPTY_METER mem (of_nat metid)) (\<lambda>e.
        if e then find_meter mem test (Suc metid)
        else bindR (meter_level_check mem (of_nat metid)) (\<lambda>met_level.
             if test met_level then Inr metid else find_meter mem test (Suc metid)))
      else Inr metid)"
  by pat_completeness auto
termination by (relation "measure (\<lambda>(mem, test, metid). MAX_MET_NUM - metid)") auto

declare find_meter.simps [simp del]

section \<open>Line loss\<close>

definition statis_phase :: "nat \<Rightarrow> nat \<Rightarrow> el_app \<Rightarrow> el_app res" where
  "statis_phase level nPhase s =
     bindR (find_meter (g_ParaMet s) (\<lambda>met_level. int level + 1 = uint met_level) 0) (\<lambda>metid.
     if metid \<ge> MAX_MET_NUM then Inr s
     else
     bindR (el_ene_get (s_EneUseUp s) level nPhase) (\<lambda>enesup.
     if enesup \<le> 0 then Inr s
     else
     bindR (el_ene_get (s_EneUseUp s) (level + 1) nPhase) (\<lambda>enesal.
     if enesal < 0 then Inr s
     else
       let elT = (enesup - enesal) div enesup * of_int32 100 in
       bindR (upd (elStatis s) level (\<lambda>st.
         bindR (upd (st_nVal st) nPhase (\<lambda>u. Inr (u\<lparr>nRatio := elT, eneSal := enesal, eneSup := enesup\<rparr>))) (\<lambda>v.
           Inr (st\<lparr>st_nVal := v\<rparr>))))
         (\<lambda>est. Inr (s\<lparr>elStatis := est\<rparr>)))))"

fun statis_phases :: "nat \<Rightarrow> nat list \<Rightarrow> el_app \<Rightarrow> el_app res" where
  "statis_phases level [] s = Inr s"
| "statis_phases level (p # ps) s = bindR (statis_phase level p s) (statis_phases level ps)"

fun statis_levels :: "nat list \<Rightarrow> el_app \<Rightarrow> el_app res" where
  "statis_levels [] s = Inr s"
| "statis_levels (l # ls) s = bindR (statis_phases l [0 ..< EL_MAX_PHASES] s) (statis_levels ls)"

definition el_statis_proc :: "el_app \<Rightarrow> el_app res" where
  "el_statis_proc = statis_levels [0 ..< unat METER_LEV_MAX]"

section \<open>Writing the results\<close>

definition phase_id :: "u32 \<Rightarrow> nat \<Rightarrow> u32" where
  "phase_id base nPhase = or base (push_bit 24 (of_nat nPhase))"

text \<open>The six values of a phase with their identifiers, in the order they are written.\<close>

definition unit_writes :: "EL_UNIT_T \<Rightarrow> nat \<Rightarrow> (u32 \<times> u8 list) list" where
  "unit_writes u p =
     [(phase_id 0x60510201 p, float_bytes (eneSup u)), (phase_id 0x60510202 p, float_bytes (eneSal u)),
      (phase_id 0x60510203 p, float_bytes (eneDeliv u)), (phase_id 0x60510204 p, float_bytes (eneDistrpwrnet u)),
      (phase_id 0x60510205 p, float_bytes (nRatio u)), (phase_id 0x60510206 p, [abnorFlag u])]"

fun write_all ::
  "os_env \<Rightarrow> 'w tick_env \<Rightarrow> nat \<Rightarrow> (u32 \<times> u8 list) list \<Rightarrow> el_app \<Rightarrow> 'w \<Rightarrow> (el_app \<times> 'w) res" where
  "write_all os env metid [] s w = Inr (s, w)"
| "write_all os env metid ((di, bs) # ws) s w =
     bindR (el_write_data os env (of_nat metid) di bs (of_nat (length bs)) (mt_db s) w) (\<lambda>(p, w, _).
       write_all os env metid ws (s\<lparr>mt_db := p\<rparr>) w)"

fun save_phases ::
  "os_env \<Rightarrow> 'w tick_env \<Rightarrow> nat \<Rightarrow> nat \<Rightarrow> nat list \<Rightarrow> el_app \<Rightarrow> 'w \<Rightarrow> (el_app \<times> 'w) res" where
  "save_phases os env metid level [] s w = Inr (s, w)"
| "save_phases os env metid level (p # ps) s w =
     bindR (rd (elStatis s) level) (\<lambda>st. bindR (rd (st_nVal st) p) (\<lambda>u.
     bindR (write_all os env metid (unit_writes u p) s w) (\<lambda>(s, w).
       save_phases os env metid level ps s w)))"

definition save_level :: "os_env \<Rightarrow> 'w tick_env \<Rightarrow> nat \<Rightarrow> el_app \<Rightarrow> 'w \<Rightarrow> (el_app \<times> 'w) res" where
  "save_level os env level s w =
     bindR (find_meter (g_ParaMet s) (\<lambda>met_level. \<not> met_level \<ge> METER_LEV_MAX \<and> int level = uint met_level) 0) (\<lambda>metid.
     if metid \<ge> MAX_MET_NUM then Inr (s, w)
     else save_phases os env metid level [0 ..< EL_MAX_PHASES] s w)"

fun save_levels :: "os_env \<Rightarrow> 'w tick_env \<Rightarrow> nat list \<Rightarrow> el_app \<Rightarrow> 'w \<Rightarrow> (el_app \<times> 'w) res" where
  "save_levels os env [] s w = Inr (s, w)"
| "save_levels os env (l # ls) s w = bindR (save_level os env l s w) (\<lambda>(s, w). save_levels os env ls s w)"

definition el_statis_save :: "os_env \<Rightarrow> 'w tick_env \<Rightarrow> el_app \<Rightarrow> 'w \<Rightarrow> (el_app \<times> 'w) res" where
  "el_statis_save os env = save_levels os env [0 ..< unat METER_LEV_MAX]"

section \<open>The task\<close>

text \<open>One iteration of the endless loop; the flag tells whether the minute's work was done.\<close>

definition elTaskProc :: "os_env \<Rightarrow> 'w tick_env \<Rightarrow> el_app \<Rightarrow> 'w \<Rightarrow> (el_app \<times> 'w \<times> bool) res" where
  "elTaskProc os env s w =
     bindR (if nTicks s > 60 then
              bindR (meter_data_update os env s w) (\<lambda>(s, w).
              bindR (el_statis_proc s) (\<lambda>s.
              bindR (el_statis_save os env s w) (\<lambda>(s, w).
                Inr (s\<lparr>nTicks := 0\<rparr>, w, True))))
            else Inr (s, w, False)) (\<lambda>(s, w, worked).
     bindR (addi (nTicks s) 1) (\<lambda>n. Inr (s\<lparr>nTicks := n\<rparr>, w, worked)))"

text \<open>\<^verbatim>\<open>el_init\<close>; the result of the loader is not looked at.  The flags tell which threads run.\<close>

definition el_init :: "os_env \<Rightarrow> xmlDoc option \<Rightarrow> el_app \<Rightarrow> (el_app \<times> bool \<times> bool) res" where
  "el_init os doc s =
     (let s = meter_data_init s in
      bindR (meter_para_load doc) (\<lambda>(mem, _).
      let s = s\<lparr>g_ParaMet := mem\<rparr> in
      bindR (el_dbase_init_el os (mt_db s)) (\<lambda>(p, dbase_running).
      let s = el_statis_init (s\<lparr>mt_db := p\<rparr>) in
      Inr (s, dbase_running, pthread_create_ok os))))"

end
