(* ===== verification/ElEnergy.thy ===== *)
theory ElEnergy
  imports ElMeter
begin

text \<open>
  The energy accounting of \<^verbatim>\<open>elMeter.c\<close>: what one reading adds, for which readings the conversion
  to hundredths is defined, and that the accumulated energy never becomes negative.
\<close>

section \<open>Hundredths\<close>

definition hund :: "binary32 \<Rightarrow> int" where
  "hund x = (case to_int (x * of_int32 100) of Inl _ \<Rightarrow> 0 | Inr n \<Rightarrow> n)"

text \<open>The product with 100 of a value without sign.\<close>

lemma times_hundred_pos:
  assumes "pos x"
  shows "neg (x * of_int32 100) = False" and "\<not> is_nan (x * of_int32 100)"
    and "is_fin x \<Longrightarrow> upat (x * of_int32 100) = min (round_mag (mag (upat x) * (100 * 2 ^ 149)) (2 ^ 149)) inf_pat"
    and "is_inf x \<Longrightarrow> is_inf (x * of_int32 100)"
proof -
  have x: "\<not> neg x" "\<not> is_nan x" using assms by (simp_all add: pos_def)
  then show "neg (x * of_int32 100) = False" and "\<not> is_nan (x * of_int32 100)"
    using times_hundred [OF x(2)] by simp_all
  have r: "x * of_int32 100 = (if is_inf x then pack False inf_pat
      else round_units False (mag (upat x) * (100 * 2 ^ 149)) (2 ^ 149))"
    using x hundred by (simp add: times_binary32_def fmul_def Let_def small_ints mag_consts is_inf_def inf_pat_def)
  show "upat (x * of_int32 100) = min (round_mag (mag (upat x) * (100 * 2 ^ 149)) (2 ^ 149)) inf_pat" if "is_fin x"
    using fin_not [OF that] by (simp add: r)
  show "is_inf (x * of_int32 100)" if "is_inf x" using that by (simp add: r)
qed

lemma to_int_pos:
  assumes "\<not> neg y" and "\<not> is_nan y"
  shows "upat y \<le> 0x4EFFFFFF \<Longrightarrow> \<exists>n. to_int y = Inr n \<and> 0 \<le> n \<and> n \<le> 2147483647"
    and "0x4F000000 \<le> upat y \<Longrightarrow> to_int y = Inl IntOverflow"
proof -
  assume le: "upat y \<le> 0x4EFFFFFF"
  then have f: "is_fin y" by (simp add: is_fin_def inf_pat_def)
  have "mag (upat y) \<le> 2147483520 * 2 ^ 149" using mag_mono [OF le] by (simp add: mag_def)
  from div_le_mono [OF this, of "2 ^ 149"] have "mag (upat y) div 2 ^ 149 \<le> 2147483520" by simp
  moreover define t where "t = mag (upat y) div 2 ^ 149"
  ultimately have "int t \<le> 2147483647" by simp
  then show "\<exists>n. to_int y = Inr n \<and> 0 \<le> n \<and> n \<le> 2147483647"
    using f assms(1) unfolding to_int_def Let_def t_def [symmetric] by simp
next
  assume ge: "0x4F000000 \<le> upat y"
  have "2 ^ 31 * 2 ^ 149 \<le> mag (upat y)" using mag_mono [OF ge] unfolding mag_consts .
  then have "2 ^ 31 \<le> mag (upat y) div 2 ^ 149" by (simp only: less_eq_div_iff_mult_less_eq zero_less_power zero_less_numeral)
  moreover define t where "t = mag (upat y) div 2 ^ 149"
  ultimately have "2147483648 \<le> int t" by simp
  then show "to_int y = Inl IntOverflow" using assms(1) unfolding to_int_def Let_def t_def [symmetric] by simp
qed

text \<open>21474834 and 21474836 are neighbouring values of the type.\<close>

lemma mag_limits: "mag 0x4BA3D709 = 21474834 * 2 ^ 149" "mag 0x4BA3D70A = 21474836 * 2 ^ 149"
  "mag 0x4BA3D70B = 21474838 * 2 ^ 149" "mag 0x4EFFFFFF = 2147483520 * 2 ^ 149"
  by (simp_all add: mag_def)

lemma limit_product: "round_mag (21474836 * 2 ^ 149 * (100 * 2 ^ 149)) (2 ^ 149) = 0x4F000000"
proof -
  define n :: nat where "n = 21474836 * 2 ^ 149 * 100"
  have q: "21474836 * 2 ^ 149 * (100 * 2 ^ 149) div 2 ^ 149 = n" unfolding n_def by simp
  have c: "cut n = 156"
  proof -
    have u: "n < 2 ^ 180" "2 ^ 179 \<le> n" unfolding n_def by simp_all
    note b = cut_bounds [of n]
    have "\<not> n < 2 ^ 24" unfolding n_def by simp
    then have k: "cut n = bitlen n - 24" by (simp add: cut_def)
    have "bitlen n = 180"
    proof -
      have z: "0 < n" unfolding n_def by simp
      note l = bitlen_bounds [OF z]
      have "(2 :: nat) ^ (bitlen n - 1) < 2 ^ 180" using l u by linarith
      moreover have "(2 :: nat) ^ 179 < 2 ^ bitlen n" using l u by linarith
      ultimately have "bitlen n - 1 < 180" "179 < bitlen n" by (blast intro: pow_lt_exp)+
      then show ?thesis by simp
    qed
    then show ?thesis using k by simp
  qed
  have "nearest (21474836 * 2 ^ 149 * (100 * 2 ^ 149)) (2 ^ 149 * 2 ^ 156) = 2 ^ 24"
    unfolding nearest_def Let_def by simp
  then show ?thesis unfolding round_mag_def q c Let_def by simp
qed

lemma hundredths_defined:
  assumes "pos x"
  shows "upat x \<le> 0x4BA3D709 \<Longrightarrow> \<exists>n. to_int (x * of_int32 100) = Inr n \<and> 0 \<le> n \<and> n \<le> 2147483647"
    and "0x4BA3D70A \<le> upat x \<Longrightarrow> to_int (x * of_int32 100) = Inl IntOverflow"
proof -
  note p = times_hundred_pos [OF assms]
  assume le: "upat x \<le> 0x4BA3D709"
  then have f: "is_fin x" by (simp add: is_fin_def inf_pat_def)
  have "mag (upat x) * (100 * 2 ^ 149) \<le> 21474834 * 2 ^ 149 * (100 * 2 ^ 149)"
    using mag_mono [OF le] unfolding mag_limits by (rule mult_right_mono) simp
  also have "\<dots> \<le> mag 0x4EFFFFFF * 2 ^ 149" unfolding mag_limits by simp
  finally have "round_mag (mag (upat x) * (100 * 2 ^ 149)) (2 ^ 149) \<le> 0x4EFFFFFF" by (rule round_mag_le [rotated]) simp
  then have "upat (x * of_int32 100) \<le> 0x4EFFFFFF" unfolding p(3) [OF f] by simp
  then show "\<exists>n. to_int (x * of_int32 100) = Inr n \<and> 0 \<le> n \<and> n \<le> 2147483647"
    using to_int_pos(1) [of "x * of_int32 100"] p(1,2) by simp
next
  note p = times_hundred_pos [OF assms]
  assume ge: "0x4BA3D70A \<le> upat x"
  have up: "0x4F000000 \<le> upat (x * of_int32 100)"
  proof (cases "is_fin x")
    case True
    have "0x4F000000 \<le> round_mag (mag (upat x) * (100 * 2 ^ 149)) (2 ^ 149)"
    proof (cases "upat x = 0x4BA3D70A")
      case True
      then show ?thesis unfolding True mag_limits limit_product by simp
    next
      case False
      with ge have "0x4BA3D70B \<le> upat x" by simp
      from mag_mono [OF this] have "21474838 * 2 ^ 149 * (100 * 2 ^ 149) \<le> mag (upat x) * (100 * 2 ^ 149)"
        unfolding mag_limits by (rule mult_right_mono) simp
      moreover have "mag 0x4F000000 * 2 ^ 149 \<le> 21474838 * 2 ^ 149 * (100 * 2 ^ 149)" unfolding mag_consts by simp
      ultimately have "mag 0x4F000000 * 2 ^ 149 \<le> mag (upat x) * (100 * 2 ^ 149)" by (rule le_trans [rotated])
      then show ?thesis by (rule round_mag_ge [rotated]) simp
    qed
    then show ?thesis unfolding p(3) [OF True] by (simp add: inf_pat_def)
  next
    case False
    with assms have "is_inf x" by (auto simp: pos_def is_fin_def is_nan_def is_inf_def)
    then show ?thesis using p(4) by (simp add: is_inf_def inf_pat_def)
  qed
  show "to_int (x * of_int32 100) = Inl IntOverflow"
    using to_int_pos(2) [OF _ _ up] p(1,2) by simp
qed

section \<open>One reading\<close>

lemma small_hundred: "of_int32 0 div of_int32 100 = 0"
proof -
  have z: "of_int32 0 = 0" using round_mag_exact [of 0] by (simp add: of_int32_def round_units_def pack_def zero_binary32_def)
  have "0 div of_int32 100 = round_units False 0 (100 * 2 ^ 149)"
    using hundred fin_not [of "0 :: binary32"]
    by (simp add: divide_binary32_def fdiv_def Let_def small_ints mag_consts)
  also have "round_mag 0 (100 * 2 ^ 149) = 0" using round_mag_le [of "100 * 2 ^ 149" 0 0] by simp
  then have "round_units False 0 (100 * 2 ^ 149) = 0" by (simp add: round_units_def pack_def zero_binary32_def)
  finally show ?thesis unfolding z .
qed

text \<open>
  A reading of which both values have defined hundredths: the difference in hundredths that is
  counted, and the new backup.
\<close>

definition counted :: "binary32 \<Rightarrow> binary32 \<Rightarrow> int" where
  "counted cur bak = (if hund cur < hund bak \<or> hund bak = 0 then 0 else hund cur - hund bak)"

definition kept :: "binary32 \<Rightarrow> binary32 \<Rightarrow> binary32" where
  "kept cur bak = (if hund cur < hund bak then bak else cur)"

lemma ene_update_Inr:
  assumes "meter_ene_update cur bak = Inr (b, e)"
  shows "b = kept cur bak \<and> e = of_int32 (counted cur bak) div of_int32 100
     \<and> 0 \<le> counted cur bak \<and> counted cur bak \<le> 2147483647"
proof -
  obtain c k where "to_int (cur * of_int32 100) = Inr c" "to_int (bak * of_int32 100) = Inr k"
    using assms by (auto simp: meter_ene_update_def bindR_eq_Inr)
  moreover from this have "hund cur = c" "hund bak = k" by (simp_all add: hund_def)
  ultimately show ?thesis
    using assms by (auto simp: meter_ene_update_def counted_def kept_def small_hundred addi_eq_Inr bindR_eq_Inr split: if_splits)
qed

lemma ene_update_pos: "meter_ene_update cur bak = Inr (b, e) \<Longrightarrow> pos e \<and> is_fin e"
  using ene_update_Inr [of cur bak b e] of_int32_pos div_hundred_pos by auto

text \<open>A sequence of readings of one quantity.\<close>

fun meter_readings :: "binary32 \<Rightarrow> binary32 list \<Rightarrow> (binary32 \<times> binary32 list) res" where
  "meter_readings bak [] = Inr (bak, [])"
| "meter_readings bak (r # rs) =
     bindR (meter_ene_update r bak) (\<lambda>(bak, e).
     bindR (meter_readings bak rs) (\<lambda>(bak, es). Inr (bak, e # es)))"

lemma readings_telescope:
  assumes "meter_readings bak rs = Inr (b, es)" and "0 < hund bak"
  shows "\<exists>ds. es = map (\<lambda>d. of_int32 d div of_int32 100) ds \<and> list_all (\<lambda>d. 0 \<le> d) ds
     \<and> sum_list ds = hund b - hund bak \<and> length ds = length rs"
  using assms
proof (induction rs arbitrary: bak es)
  case (Cons r rs)
  from Cons.prems(1) obtain b1 e es' where 1: "meter_ene_update r bak = Inr (b1, e)"
    and 2: "meter_readings b1 rs = Inr (b, es')" and es: "es = e # es'"
    by (auto simp: bindR_eq_Inr)
  note u = ene_update_Inr [OF 1]
  have h: "hund b1 = hund bak + counted r bak" "0 < hund b1"
    using u Cons.prems(2) by (auto simp: kept_def counted_def)
  from Cons.IH [OF 2 h(2)] obtain ds where "es' = map (\<lambda>d. of_int32 d div of_int32 100) ds" "list_all (\<lambda>d. 0 \<le> d) ds"
    "sum_list ds = hund b - hund b1" "length ds = length rs" by blast
  then show ?case using u h(1) es by (intro exI [of _ "counted r bak # ds"]) simp
qed simp

section \<open>The accumulators\<close>

definition wf_block :: "MET_ENERGY_BLOCK_T \<Rightarrow> bool" where
  "wf_block b \<longleftrightarrow> (\<forall>i < 8. length (en_nValue (member i b)) = 5)"

definition pos_block :: "MET_ENERGY_BLOCK_T \<Rightarrow> bool" where
  "pos_block b \<longleftrightarrow> wf_block b \<and> (\<forall>i < 8. pos (value_of i b))"

definition meters_ok :: "'a meters_scheme \<Rightarrow> bool" where
  "meters_ok s \<longleftrightarrow> length (g_ParaMet s) = 6656 \<and> length (s_EneUseUp s) = 4 \<and> list_all pos_block (s_EneUseUp s)
     \<and> length (s_MetData s) = 128 \<and> length (s_MetDataBak s) = 128"

lemma less_8: "i < 8 \<longleftrightarrow> i = 0 \<or> i = 1 \<or> i = 2 \<or> i = 3 \<or> i = 4 \<or> i = 5 \<or> i = 6 \<or> i = (7 :: nat)"
  by arith

lemma member_set_member:
  "i < 8 \<Longrightarrow> j < 8 \<Longrightarrow> member j (set_member i v b) = (if j = i then set_value v (member i b) else member j b)"
  unfolding less_8 by (elim disjE) (simp_all add: set_member_def)

lemma value_set_member:
  assumes "wf_block b" and "i < 8" and "j < 8"
  shows "value_of j (set_member i v b) = (if j = i then v else value_of j b)"
proof -
  have "length (en_nValue (member i b)) = 5" using assms(1,2) by (simp add: wf_block_def)
  then show ?thesis unfolding value_of_def member_set_member [OF assms(2,3)] by (simp add: set_value_def)
qed

lemma wf_set_member: "wf_block b \<Longrightarrow> i < 8 \<Longrightarrow> wf_block (set_member i v b)"
  by (simp add: wf_block_def member_set_member set_value_def del: member.simps)

lemma pos_set_member: "pos_block b \<Longrightarrow> i < 8 \<Longrightarrow> pos v \<Longrightarrow> pos_block (set_member i v b)"
  by (simp add: pos_block_def wf_set_member value_set_member del: member.simps)

lemma pos_zero_block: "pos_block zero_block"
proof -
  have "member i zero_block = zero_energy" if "i < 8" for i
    using that unfolding less_8 by (elim disjE) (simp_all add: zero_block_def)
  then show ?thesis by (simp add: pos_block_def wf_block_def value_of_def zero_energy_def del: member.simps)
qed

lemma meters_init_ok: "meters_ok (meter_data_init s)"
  by (simp add: meters_ok_def meter_data_init_def zero_ParaMet_def pos_zero_block list_all_iff)

text \<open>What the update leaves alone.\<close>

definition same_paras :: "'a meters_scheme \<Rightarrow> 'a meters_scheme \<Rightarrow> bool" where
  "same_paras s s' \<longleftrightarrow> g_ParaMet s' = g_ParaMet s \<and> meters.more s' = meters.more s"

lemma read_member_ok:
  assumes "read_member os env metid level i s w = Inr (s', w')" and "meters_ok s" and "i < 8"
  shows "meters_ok s' \<and> same_paras s s'"
proof -
  from assms(1) obtain dat p w1 out nRet where 1: "rd (s_MetData s) metid = Inr dat"
    and 2: "el_read_data os env (of_nat metid) (DI_ENERGY ! i) (float_bytes (value_of i dat)) 4 (mt_db s) w = Inr (p, w1, out, nRet)"
    by (auto simp: read_member_def bindR_eq_Inr)
  let ?s = "s\<lparr>mt_db := p, s_MetData := (s_MetData s)[metid := set_member i (bytes_float out) dat]\<rparr>"
  have s: "meters_ok ?s" "same_paras s ?s" using assms(2) by (simp_all add: meters_ok_def same_paras_def)
  show ?thesis
  proof (cases "0 < nRet")
    case False
    then show ?thesis using assms(1) 1 2 s by (simp add: read_member_def)
  next
    case True
    then obtain bak use b e where 3: "rd (s_EneUseUp s) level = Inr use"
      "meter_ene_update (bytes_float out) (value_of i bak) = Inr (b, e)"
      and s': "s' = ?s\<lparr>s_MetDataBak := (s_MetDataBak ?s)[metid := set_member i b bak],
         s_EneUseUp := (s_EneUseUp ?s)[level := set_member i (value_of i use + e) use]\<rparr>"
      using assms(1) 1 2 by (auto simp: read_member_def bindR_eq_Inr Let_def)
    have l: "level < length (s_EneUseUp s)" "use = s_EneUseUp s ! level" using 3(1) by (simp_all add: rd_eq_Inr)
    then have u: "pos_block use" using assms(2) by (simp add: meters_ok_def list_all_length)
    have "pos (value_of i use)" using u assms(3) by (simp add: pos_block_def)
    then have "pos (value_of i use + e)" using ene_update_pos [OF 3(2)] by (simp add: pos_add)
    then have "pos_block (set_member i (value_of i use + e) use)" by (rule pos_set_member [OF u assms(3)])
    then show ?thesis
      using s assms(2) l(1) unfolding s'
      by (auto simp: meters_ok_def same_paras_def list_all_length nth_list_update)
  qed
qed

lemma read_members_ok:
  "read_members os env metid level js s w = Inr (s', w') \<Longrightarrow> meters_ok s \<Longrightarrow> list_all (\<lambda>i. i < 8) js \<Longrightarrow>
     meters_ok s' \<and> same_paras s s'"
proof (induction js arbitrary: s w)
  case (Cons i js)
  then obtain s1 w1 where 1: "read_member os env metid level i s w = Inr (s1, w1)"
    and 2: "read_members os env metid level js s1 w1 = Inr (s', w')" by (auto simp: bindR_eq_Inr)
  have "meters_ok s1 \<and> same_paras s s1" using read_member_ok [OF 1] Cons.prems by simp
  then show ?case using Cons.IH [OF 2] Cons.prems(3) by (auto simp: same_paras_def)
qed (simp add: same_paras_def)

lemma update_meter_ok:
  assumes "update_meter os env m s w = Inr (s', w')" and "meters_ok s"
  shows "meters_ok s' \<and> same_paras s s'"
proof -
  have all: "list_all (\<lambda>i. i < 8) [0 ..< 8]" by (simp add: list_all_iff)
  have id: "same_paras s s" by (simp add: same_paras_def)
  show ?thesis
    using assms id read_members_ok [OF _ assms(2) all, of os env m]
    by (auto simp: update_meter_def bindR_eq_Inr split: if_splits)
qed

lemma update_meters_ok:
  "update_meters os env ms s w = Inr (s', w') \<Longrightarrow> meters_ok s \<Longrightarrow> meters_ok s' \<and> same_paras s s'"
proof (induction ms arbitrary: s w)
  case (Cons m ms)
  then obtain s1 w1 where 1: "update_meter os env m s w = Inr (s1, w1)"
    and 2: "update_meters os env ms s1 w1 = Inr (s', w')" by (auto simp: bindR_eq_Inr)
  show ?case using Cons.IH [OF 2] update_meter_ok [OF 1] Cons.prems(2) by (auto simp: same_paras_def)
qed (simp add: same_paras_def)

lemma data_update_ok:
  "meter_data_update os env s w = Inr (s', w') \<Longrightarrow> meters_ok s \<Longrightarrow> meters_ok s' \<and> same_paras s s'"
  unfolding meter_data_update_def by (rule update_meters_ok)

section \<open>Properties\<close>

lemma pos_le_pattern: "pos x \<Longrightarrow> pos y \<Longrightarrow> x \<le> y \<longleftrightarrow> upat x \<le> upat y"
  by (simp add: less_eq_binary32_def units_pos pos_def mag_le_iff)

lemma limit: "pos (of_int32 21474834)" "upat (of_int32 21474834) = 0x4BA3D709"
  using round_int [of "0x4BA3D709" 21474834] mag_limits(1) of_int32_pos [of 21474834] by (simp_all add: inf_pat_def)

text \<open>
  C25: a reading can be processed exactly up to 21474834 kWh: for two values without sign,
  \<^verbatim>\<open>meter_ene_update\<close> returns if both are at most that, and otherwise converts a value of at least
  2 to the 31 to \<^verbatim>\<open>int\<close>, which is undefined.
\<close>

theorem ene_update_defined_below_limit:
  assumes "pos cur" and "pos bak"
  shows "if cur \<le> of_int32 21474834 \<and> bak \<le> of_int32 21474834
         then \<exists>b e. meter_ene_update cur bak = Inr (b, e) \<and> 0 \<le> e
         else meter_ene_update cur bak = Inl IntOverflow"
proof -
  have le: "x \<le> of_int32 21474834 \<longleftrightarrow> upat x \<le> 0x4BA3D709" if "pos x" for x
    using pos_le_pattern [OF that limit(1)] limit(2) by simp
  note d = hundredths_defined [OF assms(1)] hundredths_defined [OF assms(2)]
  show ?thesis
  proof (cases "upat cur \<le> 0x4BA3D709 \<and> upat bak \<le> 0x4BA3D709")
    case True
    then obtain c k where "to_int (cur * of_int32 100) = Inr c" "0 \<le> c" "c \<le> 2147483647"
      "to_int (bak * of_int32 100) = Inr k" "0 \<le> k" "k \<le> 2147483647" using d(1,3) by blast
    then have "\<exists>b e. meter_ene_update cur bak = Inr (b, e)" by (auto simp: meter_ene_update_def addi_def)
    then show ?thesis using True ene_update_pos pos_nonneg le assms by fastforce
  next
    case False
    then have "to_int (cur * of_int32 100) = Inl IntOverflow \<or>
       (\<exists>c. to_int (cur * of_int32 100) = Inr c) \<and> to_int (bak * of_int32 100) = Inl IntOverflow"
      using d by (cases "upat cur \<le> 0x4BA3D709") auto
    then have "meter_ene_update cur bak = Inl IntOverflow" by (auto simp: meter_ene_update_def)
    then show ?thesis using False le assms by auto
  qed
qed

theorem ene_update_defined_below_limit_witness:
  "(\<exists>b e. meter_ene_update (B32 0x40200000) (B32 0x3F800000) = Inr (b, e) \<and> 0 \<le> e)
   \<and> meter_ene_update (B32 0x4BA3D70A) (B32 0x3F800000) = Inl IntOverflow"
proof -
  have p: "pos (B32 0x40200000)" "pos (B32 0x3F800000)" "pos (B32 0x4BA3D70A)"
    "upat (B32 0x40200000) = 0x40200000" "upat (B32 0x3F800000) = 0x3F800000" "upat (B32 0x4BA3D70A) = 0x4BA3D70A"
    by (simp_all add: pos_def neg_def is_nan_def upat_def inf_pat_def)
  show ?thesis
    using ene_update_defined_below_limit [OF p(1,2)] ene_update_defined_below_limit [OF p(3,2)] p
    by (simp add: pos_le_pattern [OF _ limit(1)] limit(2))
qed

text \<open>
  C9: no energy is counted twice or lost: over any sequence of readings of one quantity, once a
  backup of at least a hundredth exists, the amounts counted are non-negative whole hundredths
  that add up to the difference between the last and the first backup.
\<close>

theorem readings_counted_once:
  assumes "meter_readings bak rs = Inr (b, es)" and "0 < hund bak"
  shows "\<exists>ds. es = map (\<lambda>d. of_int32 d div of_int32 100) ds \<and> list_all (\<lambda>d. 0 \<le> d) ds
     \<and> sum_list ds = hund b - hund bak \<and> length ds = length rs"
  using assms by (rule readings_telescope)

lemma demo_hundredths: "to_int (B32 0x40200000 * of_int32 100) = Inr 250" "to_int (B32 0x3F800000 * of_int32 100) = Inr 100"
  "to_int (B32 0x40400000 * of_int32 100) = Inr 300"
  by (simp_all add: float_eval)

theorem readings_counted_once_witness:
  "\<exists>es ds. meter_readings (B32 0x3F800000) [B32 0x40200000, B32 0x40400000] = Inr (B32 0x40400000, es)
     \<and> es = map (\<lambda>d. of_int32 d div of_int32 100) ds \<and> sum_list ds = 200"
proof -
  obtain es where r: "meter_readings (B32 0x3F800000) [B32 0x40200000, B32 0x40400000] = Inr (B32 0x40400000, es)"
    using demo_hundredths by (simp add: meter_ene_update_def addi_def)
  have h: "hund (B32 0x3F800000) = 100" "hund (B32 0x40400000) = 300" using demo_hundredths by (simp_all add: hund_def)
  show ?thesis using readings_counted_once [OF r] r h by auto
qed

text \<open>
  C24: whatever the data server answers, an update of all meters that returns leaves the energy
  accumulated for every level and quantity a number that is not negative, the tables at their
  size and the parameters unchanged.
\<close>

theorem data_update_keeps_energy_nonnegative:
  assumes "meters_ok s" and "meter_data_update os env s w = Inr (s', w')"
  shows "meters_ok s' \<and> g_ParaMet s' = g_ParaMet s
     \<and> (\<forall>l < 4. \<forall>i < 8. 0 \<le> value_of i (s_EneUseUp s' ! l))"
proof -
  have ok: "meters_ok s' \<and> same_paras s s'" using assms(2,1) by (rule data_update_ok)
  moreover have "0 \<le> value_of i (s_EneUseUp s' ! l)" if "l < 4" "i < 8" for l i
    using ok that by (simp add: meters_ok_def list_all_length pos_block_def pos_nonneg)
  ultimately show ?thesis by (simp add: same_paras_def)
qed

text \<open>Without meters an update does nothing.\<close>

lemma peek_zero: "0 \<le> a \<Longrightarrow> a + int n \<le> 6656 \<Longrightarrow> peek zero_ParaMet a n = Inr (replicate n 0)"
proof -
  assume a: "0 \<le> a" "a + int n \<le> 6656"
  then have "n \<le> 6656 - nat a" by linarith
  then show ?thesis using a by (simp add: peek_def zero_ParaMet_def min_absorb1 min_absorb2)
qed

lemma empty_zero: "m < 128 \<Longrightarrow> EMPTY_METER zero_ParaMet (of_nat m) = Inr True"
proof -
  assume m: "m < 128"
  have u: "uint (of_nat m :: u16) = int m" using m by (simp add: unsigned_of_nat take_bit_nat_eq_self)
  have "u32_le (replicate 4 0) = 0" by code_simp
  then show ?thesis using m by (simp add: EMPTY_METER_def u met_port_def peek_zero)
qed

lemma no_meters: "g_ParaMet s = zero_ParaMet \<Longrightarrow> list_all (\<lambda>m. m < 128) ms \<Longrightarrow> update_meters os env ms s w = Inr (s, w)"
  by (induction ms) (simp_all add: update_meter_def empty_zero)

theorem data_update_keeps_energy_nonnegative_witness:
  "\<exists>s s' :: meters. \<exists>w'. meters_ok s \<and> meter_data_update good_os (\<lambda>k sw. sw) s () = Inr (s', w') \<and> meters_ok s'"
proof -
  define s :: meters where "s = meter_data_init \<lparr>g_ParaMet = [], s_EneUseUp = [], s_MetData = [], s_MetDataBak = [],
     mt_db = \<lparr>dp_chan = \<lparr>ch_segs = (\<lambda>_. None), ch_lock = LkFree\<rparr>, dp_seq = 0\<rparr>\<rparr>"
  have "g_ParaMet s = zero_ParaMet" by (simp add: s_def meter_data_init_def)
  then have "meter_data_update good_os (\<lambda>k sw. sw) s () = Inr (s, ())"
    unfolding meter_data_update_def MAX_MET_NUM_def by (rule no_meters) (simp add: list_all_iff)
  moreover have "meters_ok s" unfolding s_def by (rule meters_init_ok)
  ultimately show ?thesis using data_update_keeps_energy_nonnegative [of s] by blast
qed

end
