(* ===== verification/ElLoss.thy ===== *)
theory ElLoss
  imports ElTask ElEnergy
begin

text \<open>
  The line-loss task: the searches for meters of a level, what \<^verbatim>\<open>el_statis_proc\<close> records, and when
  the task works.
\<close>

section \<open>Meters and their levels\<close>

definition port_of :: "u8 list \<Rightarrow> nat \<Rightarrow> u32" where
  "port_of mem m = u32_le (take 4 (drop (m * 52 + 24) mem))"

definition level_of :: "u8 list \<Rightarrow> nat \<Rightarrow> u8" where
  "level_of mem m = mem ! (m * 52 + 43)"

lemma uint_met: "m < 128 \<Longrightarrow> uint (of_nat m :: u16) = int m"
  by (simp add: unsigned_of_nat take_bit_nat_eq_self)

lemma EMPTY_METER_closed:
  assumes "length mem = 6656" and "m < 128"
  shows "EMPTY_METER mem (of_nat m) = Inr (port_of mem m = 0)"
proof -
  have "nat (int m * 52 + 24) = m * 52 + 24" by simp
  then show ?thesis
    using assms by (simp add: EMPTY_METER_def uint_met met_port_def peek_def port_of_def)
qed

lemma meter_level_check_closed:
  assumes "length mem = 6656" and "m < 128"
  shows "meter_level_check mem (of_nat m) = Inr (if port_of mem m = 0 then METER_LEV_MAX else level_of mem m)"
proof -
  have "nat (int m * 52 + 43) = m * 52 + 43" by simp
  moreover have "rd (take 1 (drop (m * 52 + 43) mem)) 0 = Inr (mem ! (m * 52 + 43))" using assms by simp
  ultimately show ?thesis
    using assms EMPTY_METER_closed [OF assms]
    by (simp add: meter_level_check_def uint_met met_level_def peek_def level_of_def MAX_METER_def)
qed

definition has_meter :: "u8 list \<Rightarrow> (u8 \<Rightarrow> bool) \<Rightarrow> nat \<Rightarrow> bool" where
  "has_meter mem test m \<longleftrightarrow> m < 128 \<and> port_of mem m \<noteq> 0 \<and> test (level_of mem m)"

text \<open>The search finds the first meter that satisfies the test.\<close>

lemma find_meter_closed:
  assumes "length mem = 6656" and "k \<le> 128"
  shows "\<exists>r. find_meter mem test k = Inr r \<and> k \<le> r \<and> r \<le> 128 \<and> (r < 128 \<longrightarrow> has_meter mem test r)
     \<and> (\<forall>j. k \<le> j \<and> j < r \<longrightarrow> \<not> has_meter mem test j)"
  using assms(2)
proof (induction "128 - k" arbitrary: k)
  case 0
  then have k: "k = 128" by simp
  have "find_meter mem test 128 = Inr 128" by (subst find_meter.simps) (simp add: MAX_MET_NUM_def)
  then show ?case unfolding k by auto
next
  case (Suc n)
  then have k: "k < 128" by simp
  have step: "find_meter mem test k = (if has_meter mem test k then Inr k else find_meter mem test (Suc k))"
    using k EMPTY_METER_closed [OF assms(1) k] meter_level_check_closed [OF assms(1) k]
    by (simp add: find_meter.simps [of mem test k] MAX_MET_NUM_def has_meter_def)
  show ?case
  proof (cases "has_meter mem test k")
    case True
    then show ?thesis using step k by auto
  next
    case False
    obtain r where r: "find_meter mem test (Suc k) = Inr r" "Suc k \<le> r" "r \<le> 128" "r < 128 \<longrightarrow> has_meter mem test r"
      "\<forall>j. Suc k \<le> j \<and> j < r \<longrightarrow> \<not> has_meter mem test j"
      using Suc.hyps(1) [of "Suc k"] Suc.hyps(2) k by (elim meta_impE exE conjE) simp_all
    have "\<forall>j. k \<le> j \<and> j < r \<longrightarrow> \<not> has_meter mem test j" using r(5) False by (metis Suc_leI le_neq_implies_less)
    then show ?thesis using step False r by (intro exI [of _ r]) simp
  qed
qed

definition has_level :: "u8 list \<Rightarrow> nat \<Rightarrow> bool" where
  "has_level mem l \<longleftrightarrow> (\<exists>m. has_meter mem (\<lambda>v. unat v = l) m)"

lemma find_next_level:
  assumes "length mem = 6656"
  shows "\<exists>r. find_meter mem (\<lambda>v. int l + 1 = uint v) 0 = Inr r \<and> (r \<ge> 128 \<longleftrightarrow> \<not> has_level mem (Suc l))"
proof -
  have t: "(\<lambda>v :: u8. int l + 1 = uint v) = (\<lambda>v. unat v = Suc l)"
  proof
    fix v :: u8
    show "(int l + 1 = uint v) = (unat v = Suc l)" unfolding uint_nat by linarith
  qed
  obtain r where r: "find_meter mem (\<lambda>v. unat v = Suc l) 0 = Inr r" "r < 128 \<longrightarrow> has_meter mem (\<lambda>v. unat v = Suc l) r"
    "\<forall>j. j < r \<longrightarrow> \<not> has_meter mem (\<lambda>v. unat v = Suc l) j" "r \<le> 128"
    using find_meter_closed [OF assms, of 0 "\<lambda>v. unat v = Suc l"] by blast
  have "r \<ge> 128 \<longleftrightarrow> \<not> has_level mem (Suc l)"
  proof
    assume ge: "128 \<le> r"
    have "\<not> has_meter mem (\<lambda>v. unat v = Suc l) m" for m
    proof (cases "m < 128")
      case True
      then show ?thesis using r(3) ge by simp
    next
      case False
      then show ?thesis by (simp add: has_meter_def)
    qed
    then show "\<not> has_level mem (Suc l)" by (simp add: has_level_def)
  next
    assume "\<not> has_level mem (Suc l)"
    then have "\<not> has_meter mem (\<lambda>v. unat v = Suc l) r" by (simp add: has_level_def)
    then show "128 \<le> r" using r(2) by (cases "r < 128") simp_all
  qed
  with r(1) show ?thesis unfolding t by blast
qed

section \<open>Line loss\<close>

definition statis_ok :: "el_app \<Rightarrow> bool" where
  "statis_ok s \<longleftrightarrow> length (elStatis s) = 4 \<and> list_all (\<lambda>st. length (st_nVal st) = 4) (elStatis s)"

definition unit_at :: "el_app \<Rightarrow> nat \<Rightarrow> nat \<Rightarrow> EL_UNIT_T" where
  "unit_at s l p = st_nVal (elStatis s ! l) ! p"

definition used :: "el_app \<Rightarrow> nat \<Rightarrow> nat \<Rightarrow> binary32" where
  "used s l p = value_of p (s_EneUseUp s ! l)"

text \<open>The record of a phase of a level after \<^verbatim>\<open>el_statis_proc\<close>, from the one before.\<close>

definition loss :: "el_app \<Rightarrow> nat \<Rightarrow> nat \<Rightarrow> EL_UNIT_T \<Rightarrow> EL_UNIT_T" where
  "loss s l p u = (if has_level (g_ParaMet s) (Suc l) \<and> 0 < used s l p
     then u\<lparr>nRatio := (used s l p - used s (Suc l) p) div used s l p * of_int32 100,
            eneSal := used s (Suc l) p, eneSup := used s l p\<rparr>
     else u)"

lemma loss_idem: "loss s l p (loss s l p u) = loss s l p u"
  by (simp add: loss_def)

lemma used_pos: "meters_ok s \<Longrightarrow> l < 4 \<Longrightarrow> p < 8 \<Longrightarrow> pos (used s l p)"
  by (simp add: meters_ok_def list_all_length pos_block_def used_def)

lemma pos_zero_cmp: "pos x \<Longrightarrow> x \<le> 0 \<longleftrightarrow> \<not> 0 < x" "pos x \<Longrightarrow> \<not> x < 0"
  by (auto simp: less_eq_binary32_def less_binary32_def pos_def units_def)

definition same_but_statis :: "el_app \<Rightarrow> el_app \<Rightarrow> bool" where
  "same_but_statis s s' \<longleftrightarrow> s' = s\<lparr>elStatis := elStatis s'\<rparr>"

lemma same_but_statis_simps:
  assumes "same_but_statis s s'"
  shows "g_ParaMet s' = g_ParaMet s" "s_EneUseUp s' = s_EneUseUp s" "used s' = used s" "loss s' = loss s"
    "meters_ok s' = meters_ok s" "nTicks s' = nTicks s" "mt_db s' = mt_db s"
proof -
  show a: "g_ParaMet s' = g_ParaMet s" "s_EneUseUp s' = s_EneUseUp s" "nTicks s' = nTicks s" "mt_db s' = mt_db s"
    by (subst assms [unfolded same_but_statis_def], simp)+
  have "s_MetData s' = s_MetData s" "s_MetDataBak s' = s_MetDataBak s"
    by (subst assms [unfolded same_but_statis_def], simp)+
  with a show "used s' = used s" "meters_ok s' = meters_ok s" by (simp_all add: used_def fun_eq_iff meters_ok_def)
  with a show "loss s' = loss s" by (simp add: loss_def fun_eq_iff)
qed

lemma same_trans: "same_but_statis a b \<Longrightarrow> same_but_statis b c \<Longrightarrow> same_but_statis a c"
  unfolding same_but_statis_def by (metis el_app.surjective el_app.update_convs(1))

text \<open>Levels 0 to 2, and level 3 when no meter has level 4.\<close>

definition safe_phase :: "el_app \<Rightarrow> nat \<Rightarrow> nat \<Rightarrow> bool" where
  "safe_phase s l p \<longleftrightarrow> \<not> (l = 3 \<and> has_level (g_ParaMet s) 4 \<and> 0 < used s 3 p)"

lemma statis_phase_fault:
  assumes "meters_ok s" and "p < 4" and "\<not> safe_phase s 3 p"
  shows "statis_phase 3 p s = Inl OutOfBounds"
proof -
  have mem: "length (g_ParaMet s) = 6656" "length (s_EneUseUp s) = 4" using assms(1) by (simp_all add: meters_ok_def)
  have bad: "has_level (g_ParaMet s) 4" "0 < used s 3 p" using assms(3) by (simp_all add: safe_phase_def)
  have "Suc 3 = 4" by simp
  with find_next_level [OF mem(1), of 3] bad(1) obtain r where
    "find_meter (g_ParaMet s) (\<lambda>v. 3 + 1 = uint v) 0 = Inr r" "\<not> 128 \<le> r" by auto
  moreover have "\<not> used s 3 p \<le> 0" using bad(2) pos_zero_cmp(1) used_pos [OF assms(1), of 3 p] assms(2) by simp
  ultimately show ?thesis
    using mem assms(2) by (simp add: statis_phase_def MAX_MET_NUM_def el_ene_get_def used_def)
qed

lemma statis_phase_ok:
  assumes "meters_ok s" and "statis_ok s" and "l < 4" and "p < 4" and "safe_phase s l p"
  shows "\<exists>s'. statis_phase l p s = Inr s' \<and> same_but_statis s s' \<and> statis_ok s'
     \<and> (\<forall>l' p'. unit_at s' l' p' = (if l' = l \<and> p' = p then loss s l p (unit_at s l p) else unit_at s l' p'))"
proof -
  have mem: "length (g_ParaMet s) = 6656" "length (s_EneUseUp s) = 4" using assms(1) by (simp_all add: meters_ok_def)
  have p0: "pos (used s l p)" using used_pos assms(1,3,4) by simp
  obtain r where r: "find_meter (g_ParaMet s) (\<lambda>v. int l + 1 = uint v) 0 = Inr r"
    "128 \<le> r \<longleftrightarrow> \<not> has_level (g_ParaMet s) (Suc l)" using find_next_level [OF mem(1)] by blast
  have sup: "el_ene_get (s_EneUseUp s) l p = Inr (used s l p)"
    using mem assms(3,4) by (simp add: el_ene_get_def used_def)
  have self: "same_but_statis s s" by (simp add: same_but_statis_def)
  show ?thesis
  proof (cases "has_level (g_ParaMet s) (Suc l) \<and> 0 < used s l p")
    case False
    then have "statis_phase l p s = Inr s"
      using r sup pos_zero_cmp(1) [OF p0] by (auto simp: statis_phase_def MAX_MET_NUM_def)
    moreover have "loss s l p (unit_at s l p) = unit_at s l p" using False by (auto simp: loss_def)
    ultimately show ?thesis using self assms(2) by auto
  next
    case True
    then have "l \<noteq> 3" using assms(5) by (auto simp: safe_phase_def)
    then have l: "Suc l < 4" using assms(3) by simp
    have p1: "pos (used s (Suc l) p)" using used_pos assms(1,4) l by simp
    have sal: "el_ene_get (s_EneUseUp s) (l + 1) p = Inr (used s (Suc l) p)"
      using mem l assms(4) by (simp add: el_ene_get_def used_def)
    have sizes: "l < length (elStatis s)" "p < length (st_nVal (elStatis s ! l))"
      using assms(2-4) by (simp_all add: statis_ok_def list_all_length)
    let ?st = "elStatis s ! l"
    let ?s = "s\<lparr>elStatis := (elStatis s)[l := ?st\<lparr>st_nVal := (st_nVal ?st)[p := loss s l p (unit_at s l p)]\<rparr>]\<rparr>"
    have "statis_phase l p s = Inr ?s"
      using r sup sal True pos_zero_cmp(1) [OF p0] pos_zero_cmp(2) [OF p1] sizes
      by (simp add: statis_phase_def MAX_MET_NUM_def upd_def loss_def unit_at_def Let_def)
    moreover have "statis_ok ?s"
      using assms(2) sizes by (simp add: statis_ok_def list_all_length nth_list_update)
    moreover have "\<forall>l' p'. unit_at ?s l' p' = (if l' = l \<and> p' = p then loss s l p (unit_at s l p) else unit_at s l' p')"
      using sizes by (auto simp: unit_at_def nth_list_update)
    ultimately show ?thesis by (intro exI [of _ ?s]) (simp add: same_but_statis_def)
  qed
qed

text \<open>A step that records the phases of a set and leaves the others.\<close>

definition records :: "el_app \<Rightarrow> (nat \<times> nat) set \<Rightarrow> el_app \<Rightarrow> bool" where
  "records s A s' \<longleftrightarrow> same_but_statis s s' \<and> statis_ok s'
     \<and> (\<forall>l p. unit_at s' l p = (if (l, p) \<in> A then loss s l p (unit_at s l p) else unit_at s l p))"

lemma records_trans:
  assumes "records s A s1" and "records s1 B s2"
  shows "records s (A \<union> B) s2"
proof -
  have "loss s1 = loss s" using assms(1) same_but_statis_simps(4) by (simp add: records_def)
  then show ?thesis using assms same_trans by (auto simp: records_def loss_idem)
qed

lemma statis_phases_ok:
  assumes "meters_ok s" and "statis_ok s" and "l < 4" and "list_all (\<lambda>p. p < 4 \<and> safe_phase s l p) ps"
  shows "\<exists>s'. statis_phases l ps s = Inr s' \<and> records s ({l} \<times> set ps) s'"
  using assms
proof (induction ps arbitrary: s)
  case Nil
  then show ?case by (simp add: records_def same_but_statis_def)
next
  case (Cons p ps)
  then obtain s1 where 1: "statis_phase l p s = Inr s1" and "same_but_statis s s1" "statis_ok s1"
    and "\<forall>l' p'. unit_at s1 l' p' = (if l' = l \<and> p' = p then loss s l p (unit_at s l p) else unit_at s l' p')"
    using statis_phase_ok [of s l p] by auto
  then have r1: "records s {(l, p)} s1" by (auto simp: records_def)
  note same = same_but_statis_simps [OF \<open>same_but_statis s s1\<close>]
  have "list_all (\<lambda>p. p < 4 \<and> safe_phase s1 l p) ps" using Cons.prems(4) by (simp add: safe_phase_def same)
  then obtain s' where "statis_phases l ps s1 = Inr s'" "records s1 ({l} \<times> set ps) s'"
    using Cons.IH [of s1] Cons.prems(1,3) \<open>statis_ok s1\<close> same(5) by auto
  moreover have "{l} \<times> set (p # ps) = {(l, p)} \<union> {l} \<times> set ps" by auto
  ultimately show ?case using 1 records_trans [OF r1] by auto
qed

lemma statis_levels_ok:
  assumes "meters_ok s" and "statis_ok s" and "list_all (\<lambda>l. l < 4 \<and> (\<forall>p < 4. safe_phase s l p)) ls"
  shows "\<exists>s'. statis_levels ls s = Inr s' \<and> records s (set ls \<times> {0 ..< 4}) s'"
  using assms
proof (induction ls arbitrary: s)
  case Nil
  then show ?case by (simp add: records_def same_but_statis_def)
next
  case (Cons l ls)
  have "list_all (\<lambda>p. p < 4 \<and> safe_phase s l p) [0 ..< 4]" using Cons.prems(3) by (simp add: list_all_iff)
  then obtain s1 where 1: "statis_phases l [0 ..< 4] s = Inr s1" and r1: "records s ({l} \<times> {0 ..< 4}) s1"
    using statis_phases_ok [of s l "[0 ..< 4]"] Cons.prems by auto
  have r: "same_but_statis s s1" "statis_ok s1" using r1 by (simp_all add: records_def)
  note same = same_but_statis_simps [OF r(1)]
  have "list_all (\<lambda>l. l < 4 \<and> (\<forall>p < 4. safe_phase s1 l p)) ls"
    using Cons.prems(3) by (simp add: safe_phase_def same)
  then obtain s' where "statis_levels ls s1 = Inr s'" "records s1 (set ls \<times> {0 ..< 4}) s'"
    using Cons.IH [of s1] Cons.prems(1) r(2) same(5) by auto
  moreover have "set (l # ls) \<times> {0 ..< 4} = {l} \<times> {0 ..< 4 :: nat} \<union> set ls \<times> {0 ..< 4}" by auto
  ultimately show ?case using 1 records_trans [OF r1] by (auto simp: EL_MAX_PHASES_def)
qed

lemma statis_phases_fault:
  assumes "meters_ok s" and "statis_ok s" and "list_all (\<lambda>p. p < 4) ps" and "\<exists>p \<in> set ps. \<not> safe_phase s 3 p"
  shows "statis_phases 3 ps s = Inl OutOfBounds"
  using assms
proof (induction ps arbitrary: s)
  case (Cons p ps)
  show ?case
  proof (cases "safe_phase s 3 p")
    case False
    then show ?thesis using statis_phase_fault Cons.prems by simp
  next
    case True
    then obtain s1 where 1: "statis_phase 3 p s = Inr s1" "same_but_statis s s1" "statis_ok s1"
      using statis_phase_ok [of s 3 p] Cons.prems by auto
    note same = same_but_statis_simps [OF 1(2)]
    have "\<exists>p \<in> set ps. \<not> safe_phase s1 3 p" using Cons.prems(4) True by (auto simp: safe_phase_def same)
    then show ?thesis using Cons.IH [of s1] Cons.prems 1 same(5) by simp
  qed
qed simp

lemma statis_proc_ok:
  assumes "meters_ok s" and "statis_ok s" and "\<not> has_level (g_ParaMet s) 4"
  shows "\<exists>s'. el_statis_proc s = Inr s' \<and> records s ({0 ..< 4} \<times> {0 ..< 4}) s'"
proof -
  have "list_all (\<lambda>l. l < 4 \<and> (\<forall>p < 4. safe_phase s l p)) [0 ..< 4]"
    using assms(3) by (simp add: list_all_iff safe_phase_def)
  from statis_levels_ok [OF assms(1,2) this] show ?thesis by (simp add: el_statis_proc_def METER_LEV_MAX_def)
qed

lemma statis_levels_append:
  "statis_levels (ls @ ms) s = bindR (statis_levels ls s) (statis_levels ms)"
proof (induction ls arbitrary: s)
  case (Cons l ls)
  show ?case by (cases "statis_phases l [0 ..< EL_MAX_PHASES] s") (simp_all add: Cons.IH)
qed simp

lemma statis_proc_fault:
  assumes "meters_ok s" and "statis_ok s" and "has_level (g_ParaMet s) 4" and "p < 4" and "0 < used s 3 p"
  shows "el_statis_proc s = Inl OutOfBounds"
proof -
  have "list_all (\<lambda>l. l < 4 \<and> (\<forall>p < 4. safe_phase s l p)) [0 ..< 3]"
    by (simp add: list_all_iff safe_phase_def)
  from statis_levels_ok [OF assms(1,2) this] obtain s1 where 1: "statis_levels [0 ..< 3] s = Inr s1"
    and r: "same_but_statis s s1" "statis_ok s1" by (auto simp: records_def)
  note same = same_but_statis_simps [OF r(1)]
  have "\<exists>p \<in> set [0 ..< 4]. \<not> safe_phase s1 3 p" using assms(3-5) by (auto simp: safe_phase_def same)
  then have "statis_phases 3 [0 ..< 4] s1 = Inl OutOfBounds"
    by (intro statis_phases_fault) (use assms(1) r(2) in \<open>simp_all add: same list_all_iff\<close>)
  moreover have "[0 ..< 4] = [0 ..< 3] @ [3 :: nat]" by (simp add: upt_rec)
  ultimately show ?thesis
    using 1 by (simp add: el_statis_proc_def METER_LEV_MAX_def statis_levels_append EL_MAX_PHASES_def del: upt_rec_numeral)
qed

section \<open>When the task works\<close>

lemma statis_init_ok: "meters_ok s \<Longrightarrow> meters_ok (el_statis_init s) \<and> statis_ok (el_statis_init s)"
  by (simp add: meters_ok_def statis_ok_def el_statis_init_def list_all_iff)

end
