(* ===== verification/ElParaLoad.thy ===== *)
theory ElParaLoad
  imports ElLoss
begin

text \<open>
  Loading the meter parameters: what one \<^verbatim>\<open>para\<close> element leaves in \<^verbatim>\<open>g_ParaMet\<close> in spite of the
  overlapping stores, where the index check fails, and what the shipped configuration does.
\<close>

section \<open>One element\<close>

text \<open>The attributes of a complete element, by what the scanners read from them.\<close>

record para =
  p_index :: nat
  p_addr :: "u8 list"
  p_baud :: int
  p_proto :: int
  p_port :: u32
  p_type :: int
  p_level :: int

definition dec_attr :: "xmlNode \<Rightarrow> string \<Rightarrow> int \<Rightarrow> bool" where
  "dec_attr n a v \<longleftrightarrow> (\<exists>s. xmlGetProp n a = Some s \<and> str2dec (cstr s) = Inr v)"

definition hex_attr :: "xmlNode \<Rightarrow> string \<Rightarrow> u8 list \<Rightarrow> bool" where
  "hex_attr n a bs \<longleftrightarrow> (\<exists>s. xmlGetProp n a = Some s \<and> cstr s = hex_text bs @ [0])"

text \<open>An address may end in a single digit, which \<^verbatim>\<open>str2hex\<close> drops.\<close>

definition addr_attr :: "xmlNode \<Rightarrow> string \<Rightarrow> u8 list \<Rightarrow> bool" where
  "addr_attr n a bs \<longleftrightarrow> (\<exists>s t. xmlGetProp n a = Some s \<and> cstr s = hex_text bs @ t @ [0]
     \<and> (t = [] \<or> (\<exists>v < 16. t = [hex_digit v])))"

definition describes :: "xmlNode \<Rightarrow> para \<Rightarrow> bool" where
  "describes n p \<longleftrightarrow> dec_attr n ''index'' (int (p_index p)) \<and> addr_attr n ''addr'' (p_addr p)
     \<and> length (p_addr p) \<le> 15 \<and> dec_attr n ''baud'' (p_baud p) \<and> dec_attr n ''proto'' (p_proto p)
     \<and> hex_attr n ''port'' (rev (le32 (p_port p))) \<and> dec_attr n ''userType'' (p_type p)
     \<and> dec_attr n ''level'' (p_level p)"

lemma length_hex_text [simp]: "length (hex_text bs) = 2 * length bs"
  by (induction bs) (simp_all add: hex_text_def)

lemma zero_notin_hex [simp]: "0 \<notin> set (hex_text bs)"
  using hex_digit_nonzero nibble_bounds by (auto simp: hex_text_def dest!: sym [of 0])

lemma str2hex_loop_odd:
  assumes "cur + int (length bs) \<le> nLen" and "d + length bs \<le> length buf" and "v < 16"
  shows "str2hex_loop (hex_text bs @ [hex_digit v, 0]) buf d nLen number False cur =
           Inr (patch buf d bs, cur + int (length bs))"
  using assms
proof (induction bs arbitrary: buf d cur number)
  case Nil
  then show ?case by (simp add: hex_text_def hexval_hex_digit)
next
  case (Cons b bs)
  note digits = hexval_hex_digit [OF nibble_bounds(1) [of b]] hexval_hex_digit [OF nibble_bounds(2) [of b]]
    hex_digit_nonzero [OF nibble_bounds(1) [of b]] hex_digit_nonzero [OF nibble_bounds(2) [of b]]
  have unroll: "str2hex_loop (hex_text (b # bs) @ [hex_digit v, 0]) buf d nLen number False cur =
      bindR (wr buf d b) (\<lambda>buf'.
        str2hex_loop (hex_text bs @ [hex_digit v, 0]) buf' (Suc d) nLen b False (cur + 1))"
    using Cons.prems digits by (simp add: hex_text_def nibbles_join)
  have "patch (buf[d := b]) (Suc d) bs = patch buf d (b # bs)"
    using patch_append [of d "[b]" bs buf] Cons.prems(2) by (simp add: patch_single)
  then show ?case using unroll Cons.IH [of "cur + 1" "Suc d" "buf[d := b]" b] Cons.prems by simp
qed

lemma strlen_hex: "strlen (hex_text bs @ [0]) = Inr (2 * length bs)"
  using ccont_append_zero [of "hex_text bs" "[]"] by (simp add: strlen_terminated)

lemma strlen_hex_odd: "v < 16 \<Longrightarrow> strlen (hex_text bs @ [hex_digit v, 0]) = Inr (2 * length bs + 1)"
  using ccont_append_zero [of "hex_text bs @ [hex_digit v]" "[]"] hex_digit_nonzero [of v]
    terminated_append_zero [of "hex_text bs @ [hex_digit v]" "[]"]
  by (simp add: strlen_terminated)

lemma poke_closed: "a + length bs \<le> length mem \<Longrightarrow> poke mem (int a) bs = Inr (patch mem a bs)"
  by (simp add: poke_def)

lemma poke_dec_closed:
  "str2dec (cstr s) = Inr v \<Longrightarrow> a + 4 \<le> length mem \<Longrightarrow> poke_dec mem (int a) s = Inr (patch mem a (le32 (word_of_int v)))"
  by (simp add: poke_dec_def el_copy poke_closed)

lemma addr_into:
  assumes "addr_attr n a bs"
  shows "\<exists>s len. xmlGetProp n a = Some s \<and> strlen (cstr s) = Inr len
     \<and> (\<forall>mem k. k + length bs \<le> length mem \<longrightarrow> str2hex (cstr s) mem k (int len) = Inr (patch mem k bs, int (length bs)))"
proof -
  from assms obtain s t where s: "xmlGetProp n a = Some s" "cstr s = hex_text bs @ t @ [0]"
    "t = [] \<or> (\<exists>v < 16. t = [hex_digit v])" by (auto simp: addr_attr_def)
  from s(3) show ?thesis
  proof
    assume "t = []"
    then show ?thesis using s(1,2) strlen_hex [of bs] by (simp add: str2hex_text)
  next
    assume "\<exists>v < 16. t = [hex_digit v]"
    then obtain v where "v < 16" "t = [hex_digit v]" by blast
    then show ?thesis using s(1,2) strlen_hex_odd [of v bs] by (simp add: str2hex_def str2hex_loop_odd)
  qed
qed

lemma port_scan: "str2hex (hex_text (rev (le32 w)) @ [0]) (le32 0) 0 8 = Inr (rev (le32 w), 4)"
  by (simp add: str2hex_text) (simp add: patch_def)

text \<open>The stores of an element, in the order of the source.\<close>

definition stored :: "u8 list \<Rightarrow> para \<Rightarrow> u8 list" where
  "stored mem p = (let a = p_index p * 52 in
     patch (patch (patch (patch (patch (patch (patch mem a (le16 (of_nat (p_index p))))
       (a + 6) (p_addr p)) (a + 21) (le32 (word_of_int (p_baud p)))) (a + 22) (le32 (word_of_int (p_proto p))))
       (a + 24) (le32 (p_port p))) (a + 42) (le32 (word_of_int (p_type p)))) (a + 43) (le32 (word_of_int (p_level p))))"

lemma para_item_stored:
  assumes "describes n p" and "p_index p < N" and "length mem = N * 52" and "N \<le> 1024"
  shows "para_item mem n = Inr (stored mem p, Continue)"
proof -
  have "addr_attr n ''addr'' (p_addr p)" using assms(1) by (simp add: describes_def)
  from addr_into [OF this] obtain a len where addr: "xmlGetProp n ''addr'' = Some a" "strlen (cstr a) = Inr len"
    "\<And>mem k. k + length (p_addr p) \<le> length mem \<Longrightarrow>
       str2hex (cstr a) mem k (int len) = Inr (patch mem k (p_addr p), int (length (p_addr p)))" by blast
  obtain i b pr q u l where attrs: "xmlGetProp n ''index'' = Some i"
    "xmlGetProp n ''baud'' = Some b" "xmlGetProp n ''proto'' = Some pr" "xmlGetProp n ''port'' = Some q"
    "xmlGetProp n ''userType'' = Some u" "xmlGetProp n ''level'' = Some l"
    and dec: "str2dec (cstr i) = Inr (int (p_index p))" "str2dec (cstr b) = Inr (p_baud p)"
    "str2dec (cstr pr) = Inr (p_proto p)" "str2dec (cstr u) = Inr (p_type p)" "str2dec (cstr l) = Inr (p_level p)"
    and hex: "cstr q = hex_text (rev (le32 (p_port p))) @ [0]" "length (p_addr p) \<le> 15"
    using assms(1) by (auto simp: describes_def dec_attr_def hex_attr_def)
  let ?k = "p_index p"
  have off: "met_nIndex (int ?k) = int (?k * 52)" "met_add (int ?k) = int (?k * 52 + 6)"
    "met_baud (int ?k) = int (?k * 52 + 21)" "met_protocol (int ?k) = int (?k * 52 + 22)"
    "met_port (int ?k) = int (?k * 52 + 24)" "met_userType (int ?k) = int (?k * 52 + 42)"
    "met_level (int ?k) = int (?k * 52 + 43)" by (simp_all add: met_offsets)
  define A where "A = ?k * 52"
  have A: "A + 52 \<le> N * 52" using assms(2) unfolding A_def by simp
  note facts = addr attrs dec hex(1) off [folded A_def] nat_int
  show ?thesis
    using A hex(2) assms(2-4)
    by (simp add: para_item_def stored_def Let_def A_def [symmetric] facts el_copy port_scan poke_closed
        poke_dec_closed peek_def reversecpy_closed MAX_METER_def del: of_nat_add of_nat_mult of_nat_numeral)
qed

lemma length_stored:
  "p_index p < N \<Longrightarrow> length (p_addr p) \<le> 15 \<Longrightarrow> length mem = N * 52 \<Longrightarrow> length (stored mem p) = N * 52"
  by (simp add: stored_def Let_def)

lemma window_le32: "a + 4 \<le> length m \<Longrightarrow> take 4 (drop a (patch m a (le32 w))) = le32 w"
  using window_patch [of a "le32 w" m] by simp

lemma stored_fields:
  assumes "p_index p < N" and "length (p_addr p) \<le> 15" and "length mem = N * 52"
  shows "port_of (stored mem p) (p_index p) = p_port p"
    and "level_of (stored mem p) (p_index p) = word_of_int (p_level p)"
    and "stored mem p ! (p_index p * 52 + 21) = word_of_int (p_baud p)"
    and "stored mem p ! (p_index p * 52 + 22) = word_of_int (p_proto p)"
    and "stored mem p ! (p_index p * 52 + 42) = word_of_int (p_type p)"
    and "take (length (p_addr p)) (drop (p_index p * 52 + 6) (stored mem p)) = p_addr p"
    and "i < N * 52 \<Longrightarrow> i div 52 \<noteq> p_index p \<Longrightarrow> stored mem p ! i = mem ! i"
proof -
  define A where "A = p_index p * 52"
  have A: "A + 52 \<le> N * 52" using assms(1) unfolding A_def by simp
  have low: "(ucast (word_of_int v :: u32) :: u8) = word_of_int v" for v
    by (rule bit_word_eqI) (simp add: bit_simps)
  note s = stored_def Let_def A_def [symmetric] low assms(3)
  have "take 4 (drop (A + 24) (stored mem p)) = le32 (p_port p)"
    using A assms(2) by (simp add: s window_patch_other window_le32)
  then show "port_of (stored mem p) (p_index p) = p_port p" by (simp add: port_of_def A_def [symmetric])
  show "level_of (stored mem p) (p_index p) = word_of_int (p_level p)"
    unfolding level_of_def A_def [symmetric] using A assms(2) by (simp add: s le32_def nth_patch)
  show "stored mem p ! (p_index p * 52 + 21) = word_of_int (p_baud p)"
    "stored mem p ! (p_index p * 52 + 22) = word_of_int (p_proto p)"
    "stored mem p ! (p_index p * 52 + 42) = word_of_int (p_type p)"
    unfolding A_def [symmetric] using A assms(2) by (simp_all add: s le32_def nth_patch)
  show "take (length (p_addr p)) (drop (p_index p * 52 + 6) (stored mem p)) = p_addr p"
    unfolding A_def [symmetric] using A assms(2) by (simp add: s window_patch_other)
  assume i: "i < N * 52" "i div 52 \<noteq> p_index p"
  have "i < A \<or> A + 52 \<le> i"
  proof (rule ccontr)
    assume "\<not> (i < A \<or> A + 52 \<le> i)"
    then have "i div 52 = p_index p" unfolding A_def by (intro div_nat_eqI) simp_all
    with i show False by simp
  qed
  then show "stored mem p ! i = mem ! i"
    using A i(1) assms(2) by (auto simp: s nth_patch)
qed

section \<open>The whole list\<close>

definition para_ok :: "nat \<Rightarrow> para \<Rightarrow> bool" where
  "para_ok N p \<longleftrightarrow> p_index p < N \<and> length (p_addr p) \<le> 15"

lemma describes_short: "describes n p \<Longrightarrow> length (p_addr p) \<le> 15"
  by (simp add: describes_def)

lemma load_paras_stored:
  assumes "list_all2 describes ns ps" and "list_all (\<lambda>p. p_index p < N) ps" and "length mem = N * 52"
    and "int idx + int (length ns) \<le> nMetNum + 1" and "N \<le> 1024"
  shows "load_paras nMetNum ns idx mem = Inr (foldl stored mem ps, int (idx + length ns))"
  using assms
proof (induction ns ps arbitrary: idx mem rule: list_all2_induct)
  case (Cons n ns p ps)
  have "length (stored mem p) = N * 52" using length_stored Cons.prems(1,2) describes_short [OF Cons.hyps(1)] by simp
  moreover have "para_item mem n = Inr (stored mem p, Continue)"
    using para_item_stored [OF Cons.hyps(1), of N] Cons.prems(1,2,4) by simp
  moreover have "int idx \<le> nMetNum" using Cons.prems(3) by simp
  ultimately show ?case using Cons.IH [of "stored mem p" "Suc idx"] Cons.prems by simp
qed simp

lemma foldl_stored:
  assumes "list_all (para_ok N) ps" and "length mem = N * 52"
  shows "length (foldl stored mem ps) = N * 52"
    and "i < N * 52 \<Longrightarrow> list_all (\<lambda>p. i div 52 \<noteq> p_index p) ps \<Longrightarrow> foldl stored mem ps ! i = mem ! i"
  using assms by (induction ps arbitrary: mem) (simp_all add: para_ok_def length_stored stored_fields(7) [where N = N])

text \<open>An element of the array as a function of its bytes.\<close>

definition element :: "u8 list \<Rightarrow> nat \<Rightarrow> u8 list" where
  "element mem m = take 52 (drop (m * 52) mem)"

lemma element_untouched:
  assumes "list_all (para_ok N) ps" and "length mem = N * 52" and "m < N" and "list_all (\<lambda>p. p_index p \<noteq> m) ps"
  shows "element (foldl stored mem ps) m = element mem m"
proof (rule nth_equalityI)
  note l = foldl_stored(1) [OF assms(1,2)]
  show "length (element (foldl stored mem ps) m) = length (element mem m)" by (simp add: element_def l assms(2))
  fix j assume "j < length (element (foldl stored mem ps) m)"
  then have j: "j < 52" "m * 52 + j < N * 52" using assms(3) by (simp_all add: element_def l)
  then have "(m * 52 + j) div 52 = m" by (intro div_nat_eqI) simp_all
  then have "foldl stored mem ps ! (m * 52 + j) = mem ! (m * 52 + j)"
    using foldl_stored(2) [OF assms(1,2) j(2)] assms(4) by (auto simp: list_all_iff)
  then show "element (foldl stored mem ps) m ! j = element mem m ! j" using j by (simp add: element_def l assms(2))
qed

lemma port_level_of_element:
  assumes "length mem = N * 52" and "m < N"
  shows "port_of mem m = u32_le (take 4 (drop 24 (element mem m)))" "level_of mem m = element mem m ! 43"
  using assms by (simp_all add: port_of_def level_of_def element_def drop_take add.commute)

lemma loaded_meters:
  assumes "list_all (para_ok N) ps" and "length mem = N * 52" and "distinct (map p_index ps)" and "p \<in> set ps"
  shows "port_of (foldl stored mem ps) (p_index p) = p_port p
     \<and> level_of (foldl stored mem ps) (p_index p) = word_of_int (p_level p)"
  using assms
proof (induction ps arbitrary: mem)
  case (Cons q qs)
  have q: "p_index q < N" "length (p_addr q) \<le> 15" using Cons.prems(1) by (simp_all add: para_ok_def)
  have l: "length (stored mem q) = N * 52" using length_stored q Cons.prems(2) by simp
  show ?case
  proof (cases "p \<in> set qs")
    case True
    then show ?thesis using Cons.IH [OF _ l] Cons.prems(1,3) by simp
  next
    case False
    then have p: "p = q" using Cons.prems(4) by simp
    have "list_all (\<lambda>r. p_index r \<noteq> p_index q) qs" using Cons.prems(3) by (simp add: list_all_iff) (metis image_eqI)
    then have "element (foldl stored (stored mem q) qs) (p_index q) = element (stored mem q) (p_index q)"
      using element_untouched [OF _ l q(1)] Cons.prems(1) by simp
    then show ?thesis
      using stored_fields(1,2) [OF q Cons.prems(2)] foldl_stored(1) [OF _ l] Cons.prems(1) p
        port_level_of_element [OF l q(1)] port_level_of_element [OF foldl_stored(1) [OF _ l] q(1), of qs]
      by simp
  qed
qed simp

text \<open>All elements, stored into the zeroed array.\<close>

lemma port_zero: "m < N \<Longrightarrow> port_of (replicate (N * 52) 0) m = 0"
  by (simp add: port_of_def u32_le_def)

lemma stored_all:
  assumes "list_all (para_ok N) ps" and "distinct (map p_index ps)"
  defines "mem \<equiv> foldl stored (replicate (N * 52) 0) ps"
  shows "length mem = N * 52"
    and "\<forall>p \<in> set ps. port_of mem (p_index p) = p_port p \<and> level_of mem (p_index p) = word_of_int (p_level p)"
    and "\<forall>m < N. m \<notin> p_index ` set ps \<longrightarrow> port_of mem m = 0"
proof -
  have z: "length (replicate (N * 52) (0 :: u8)) = N * 52" by simp
  show l: "length mem = N * 52" unfolding mem_def by (rule foldl_stored(1) [OF assms(1) z])
  show "\<forall>p \<in> set ps. port_of mem (p_index p) = p_port p \<and> level_of mem (p_index p) = word_of_int (p_level p)"
    unfolding mem_def using loaded_meters [OF assms(1) z assms(2)] by blast
  show "\<forall>m < N. m \<notin> p_index ` set ps \<longrightarrow> port_of mem m = 0"
  proof (intro allI impI)
    fix m assume m: "m < N" "m \<notin> p_index ` set ps"
    then have "list_all (\<lambda>p. p_index p \<noteq> m) ps" by (auto simp: list_all_iff)
    then have "port_of mem m = port_of (replicate (N * 52) 0) m"
      using element_untouched [OF assms(1) z m(1)] port_level_of_element(1) [OF z m(1)]
        port_level_of_element(1) [OF l m(1)] unfolding mem_def by simp
    then show "port_of mem m = 0" using port_zero [OF m(1)] by simp
  qed
qed

section \<open>Properties\<close>

definition para_doc :: "xmlDoc \<Rightarrow> int \<Rightarrow> xmlNode list \<Rightarrow> bool" where
  "para_doc d num ns \<longleftrightarrow> (\<exists>root ied. xmlDocGetRootElement d = Some root
     \<and> find_by_name (node_children root) ''IED_PARA'' = Some ied
     \<and> get_cfg_num (Some ied) = Inr num \<and> 0 < num \<and> node_children ied = ns)"

lemma para_doc_load: "para_doc d num ns \<Longrightarrow> meter_para_load (Some d) = load_paras num ns 0 zero_ParaMet"
  by (auto simp: para_doc_def meter_para_load_def el_copy)

lemma parameters_loaded:
  assumes "para_doc d num ns" and "list_all2 describes ns ps" and "int (length ns) \<le> num"
    and "list_all (\<lambda>p. p_index p < 128) ps" and "distinct (map p_index ps)"
  shows "\<exists>mem. meter_para_load (Some d) = Inr (mem, int (length ns)) \<and> length mem = 6656
     \<and> (\<forall>p \<in> set ps. port_of mem (p_index p) = p_port p \<and> level_of mem (p_index p) = word_of_int (p_level p))
     \<and> (\<forall>m < 128. m \<notin> p_index ` set ps \<longrightarrow> EMPTY_METER mem (of_nat m) = Inr True)"
proof -
  let ?mem = "foldl stored zero_ParaMet ps"
  have zero: "zero_ParaMet = replicate (128 * 52) 0" by (simp add: zero_ParaMet_def)
  have z: "length zero_ParaMet = 128 * 52" by (simp add: zero_ParaMet_def)
  have "list_all (para_ok 128) ps"
    using assms(2,4) by (induction ns ps rule: list_all2_induct) (simp_all add: para_ok_def describes_short)
  note all = stored_all [OF this assms(5), folded zero]
  have "length ?mem = 6656" using all(1) by simp
  moreover have "meter_para_load (Some d) = Inr (?mem, int (length ns))"
    using load_paras_stored [OF assms(2,4) z, of 0 num] assms(1,3) by (simp add: para_doc_load)
  ultimately show ?thesis using all(2,3) EMPTY_METER_closed [of ?mem] by auto
qed

text \<open>
  C10: the parameters of every meter arrive: from a document whose \<^verbatim>\<open>para\<close> elements are complete and
  have different indices below 128, \<^verbatim>\<open>meter_para_load\<close> returns their number; each listed meter has
  the port and the level (modulo 256) of its element, although the stores for the one-byte members
  overlap their neighbours, and every other meter stays empty.
\<close>

theorem meter_parameters_loaded:
  assumes "para_doc d num ns" and "list_all2 describes ns ps" and "int (length ns) \<le> num"
    and "list_all (\<lambda>p. p_index p < 128) ps" and "distinct (map p_index ps)"
  shows "\<exists>mem. meter_para_load (Some d) = Inr (mem, int (length ns)) \<and> length mem = 6656
     \<and> (\<forall>p \<in> set ps. port_of mem (p_index p) = p_port p \<and> level_of mem (p_index p) = word_of_int (p_level p))
     \<and> (\<forall>m < 128. m \<notin> p_index ` set ps \<longrightarrow> EMPTY_METER mem (of_nat m) = Inr True)"
  using assms by (rule parameters_loaded)

text \<open>The section of \<^verbatim>\<open>bin/meter.xml\<close>.\<close>

definition shipped_paras :: "xmlNode list" where
  "shipped_paras =
     [Element ''para'' [(''index'', ''1''), (''addr'', ''201500110011''), (''baud'', ''4''), (''proto'', ''3''),
        (''port'', ''F2010201''), (''userType'', ''4''), (''level'', ''0'')] [],
      Element ''para'' [(''index'', ''2''), (''addr'', ''2''), (''baud'', ''4''), (''proto'', ''3''),
        (''port'', ''F2010201''), (''userType'', ''4''), (''level'', ''1'')] []]"

definition para_xml :: "string \<Rightarrow> xmlNode list \<Rightarrow> xmlDoc" where
  "para_xml num ns = [Element ''Model'' [] [Element ''IED_PARA'' [(''num'', num)] ns]]"

lemma para_xml_doc: "str2dec (cstr num) = Inr k \<Longrightarrow> 0 < k \<Longrightarrow> para_doc (para_xml num ns) k ns"
  by (simp add: para_doc_def para_xml_def get_cfg_num_def)

definition shipped_meters :: "para list" where
  "shipped_meters =
     [\<lparr>p_index = 1, p_addr = [0x20, 0x15, 0x00, 0x11, 0x00, 0x11], p_baud = 4, p_proto = 3, p_port = 0xF2010201,
        p_type = 4, p_level = 0\<rparr>,
      \<lparr>p_index = 2, p_addr = [], p_baud = 4, p_proto = 3, p_port = 0xF2010201, p_type = 4, p_level = 1\<rparr>]"

lemma scan_digits: "str2dec (cstr ''0'') = Inr 0" "str2dec (cstr ''1'') = Inr 1" "str2dec (cstr ''2'') = Inr 2"
  "str2dec (cstr ''3'') = Inr 3" "str2dec (cstr ''4'') = Inr 4" "str2dec (cstr ''200'') = Inr 200"
  by code_simp+

lemma scan_hex: "cstr ''201500110011'' = hex_text [0x20, 0x15, 0x00, 0x11, 0x00, 0x11] @ [] @ [0]"
  "cstr ''F2010201'' = hex_text (rev (le32 0xF2010201)) @ [0]" "cstr ''2'' = hex_text [] @ [hex_digit 2] @ [0]"
  by code_simp+

lemma shipped_described: "list_all2 describes shipped_paras shipped_meters"
proof -
  have a: "addr_attr (Element e as cs) ''addr'' [0x20, 0x15, 0x00, 0x11, 0x00, 0x11]"
    if "find_attr as ''addr'' = Some ''201500110011''" for e as cs
    unfolding addr_attr_def using that scan_hex(1) by (intro exI [of _ "''201500110011''"] exI [of _ "[]"]) simp
  have b: "addr_attr (Element e as cs) ''addr'' []" if "find_attr as ''addr'' = Some ''2''" for e as cs
    unfolding addr_attr_def using that scan_hex(3)
    by (intro exI [of _ "''2''"] exI [of _ "[hex_digit 2]"]) (auto intro!: exI [of _ "2 :: u8"])
  show ?thesis
    by (simp add: shipped_paras_def shipped_meters_def describes_def dec_attr_def hex_attr_def a b scan_digits scan_hex(2))
qed

theorem meter_parameters_loaded_witness:
  "\<exists>mem. meter_para_load (Some (para_xml ''2'' shipped_paras)) = Inr (mem, 2)
     \<and> level_of mem 1 = 0 \<and> level_of mem 2 = 1 \<and> port_of mem 2 = 0xF2010201 \<and> EMPTY_METER mem 3 = Inr True"
proof -
  have "para_doc (para_xml ''2'' shipped_paras) 2 shipped_paras"
    by (rule para_xml_doc) (simp_all add: scan_digits)
  from meter_parameters_loaded [OF this shipped_described] obtain mem where
    m: "meter_para_load (Some (para_xml ''2'' shipped_paras)) = Inr (mem, int (length shipped_paras))"
    "\<forall>p \<in> set shipped_meters. port_of mem (p_index p) = p_port p \<and> level_of mem (p_index p) = word_of_int (p_level p)"
    "\<forall>m < 128. m \<notin> p_index ` set shipped_meters \<longrightarrow> EMPTY_METER mem (of_nat m) = Inr True"
    by (auto simp: shipped_paras_def shipped_meters_def)
  have "EMPTY_METER mem 3 = Inr True" using m(3) [rule_format, of 3] by (simp add: shipped_meters_def)
  then show ?thesis using m(1,2) by (auto simp: shipped_paras_def shipped_meters_def)
qed

text \<open>
  C26: the index check admits 1024 meters, the array has 128: an element with an index from 128 to
  1023 makes the loader write behind \<^verbatim>\<open>g_ParaMet\<close>, one with a larger index ends the loading, and a
  negative index writes before the array.
\<close>

theorem meter_index_overrun:
  assumes "dec_attr n ''index'' k" and "length mem = 6656" and "\<not> (0 \<le> k \<and> k < 128)"
  shows "para_item mem n = (if k < 1024 then Inl OutOfBounds else Inr (mem, Break))"
proof -
  obtain s where "xmlGetProp n ''index'' = Some s" "str2dec (cstr s) = Inr k" using assms(1) by (auto simp: dec_attr_def)
  moreover have "poke mem (met_nIndex k) (le16 (word_of_int k)) = Inl OutOfBounds"
    using assms(2,3) by (auto simp: poke_def met_nIndex_def)
  ultimately show ?thesis by (simp add: para_item_def el_copy MAX_METER_def)
qed

theorem meter_index_overrun_witness:
  "para_item zero_ParaMet (Element ''para'' [(''index'', ''200'')] []) = Inl OutOfBounds"
proof -
  have "dec_attr (Element ''para'' [(''index'', ''200'')] []) ''index'' 200" by (simp add: dec_attr_def scan_digits)
  from meter_index_overrun [OF this, of zero_ParaMet] show ?thesis by (simp add: zero_ParaMet_def)
qed

lemma no_level_ends: "xmlGetProp n ''level'' = None \<Longrightarrow> para_item mem n = Inr (mem', e) \<Longrightarrow> e \<noteq> Continue"
  by (auto simp: para_item_def bindR_eq_Inr split: option.splits if_splits)

text \<open>
  an element without \<^verbatim>\<open>level\<close>, as in the \<^verbatim>\<open>meter.xml\<close> beside the source, ends the loading of all
  that follow: the result is that of the document without them and is not positive.
\<close>

theorem meter_without_level_ends_load:
  assumes "para_doc d num (n # ns)" and "para_doc d' num [n]" and "xmlGetProp n ''level'' = None"
    and "meter_para_load (Some d) = Inr (mem, k)"
  shows "meter_para_load (Some d') = Inr (mem, k) \<and> k \<le> 0"
proof -
  have num: "0 < num" using assms(1) by (auto simp: para_doc_def)
  with assms(4) obtain mem' e where e: "para_item zero_ParaMet n = Inr (mem', e)"
    by (auto simp: para_doc_load [OF assms(1)] bindR_eq_Inr)
  with no_level_ends [OF assms(3) e] num assms(4) show ?thesis
    by (cases e) (auto simp: para_doc_load [OF assms(1)] para_doc_load [OF assms(2)])
qed

text \<open>The section of the \<^verbatim>\<open>meter.xml\<close> beside the source.\<close>

definition source_paras :: "xmlNode list" where
  "source_paras =
     [Element ''para'' [(''index'', ''1''), (''addr'', ''201500110011''), (''baud'', ''4''), (''proto'', ''3''),
        (''port'', ''F2010201''), (''password'', ''00''), (''rateNum'', ''4''), (''userType'', ''4'')] [],
      Element ''para'' [(''index'', ''2''), (''addr'', ''2''), (''baud'', ''4''), (''proto'', ''3''),
        (''port'', ''F2010201''), (''password'', ''00''), (''rateNum'', ''4''), (''userType'', ''4'')] [],
      Element ''para'' [(''index'', ''3''), (''addr'', ''1''), (''baud'', ''6''), (''proto'', ''4''),
        (''port'', ''F2010202''), (''password'', ''00''), (''rateNum'', ''4''), (''userType'', ''4'')] []]"

theorem meter_without_level_ends_load_witness:
  "\<exists>mem. meter_para_load (Some (para_xml ''3'' source_paras)) = Inr (mem, - 1)
     \<and> meter_para_load (Some (para_xml ''3'' [source_paras ! 0])) = Inr (mem, - 1)"
proof -
  let ?n = "source_paras ! 0"
  have d: "para_doc (para_xml ''3'' (?n # tl source_paras)) 3 (?n # tl source_paras)" "para_doc (para_xml ''3'' [?n]) 3 [?n]"
    by (rule para_xml_doc; simp add: scan_digits)+
  have eq: "source_paras = ?n # tl source_paras" by (simp add: source_paras_def)
  have off: "met_nIndex 1 = int 52" "met_add 1 = int 58" "met_baud 1 = int 73" "met_protocol 1 = int 74"
    "met_port 1 = int 76" "met_userType 1 = int 94" by (simp_all add: met_offsets)
  let ?a = "[0x20, 0x15, 0x00, 0x11, 0x00, 0x11]"
  have addr: "strlen (cstr ''201500110011'') = Inr 12"
    "k + 6 \<le> length m \<Longrightarrow> str2hex (cstr ''201500110011'') m k (int 12) = Inr (patch m k ?a, 6)" for k m
    unfolding scan_hex(1) using strlen_hex [of ?a] str2hex_text [of ?a "int 12" k m "[]"] by simp_all
  obtain mem where m: "para_item zero_ParaMet ?n = Inr (mem, Return)"
    by (simp add: source_paras_def para_item_def el_copy scan_digits off addr scan_hex(2) port_scan poke_closed
        poke_dec_closed peek_def reversecpy_closed MAX_METER_def zero_ParaMet_def nat_int del: of_nat_numeral)
  then have "meter_para_load (Some (para_xml ''3'' (?n # tl source_paras))) = Inr (mem, - 1)"
    by (simp add: para_doc_load [OF d(1)])
  moreover have "xmlGetProp ?n ''level'' = None" by (simp add: source_paras_def)
  ultimately show ?thesis using meter_without_level_ends_load [OF d] eq by metis
qed

end
