(* ===== verification/ElService.thy ===== *)
theory ElService
  imports ElParaLoad RhStart
begin

text \<open>
  The energy-loss application beside the data server: what one minute of the task does when its
  reads and writes go through the mailbox to the server thread.
\<close>

section \<open>Readings the conversion accepts\<close>

definition fair :: "binary32 \<Rightarrow> bool" where
  "fair x \<longleftrightarrow> pos x \<and> upat x \<le> 0x4BA3D709"

lemma fair_zero: "fair 0"
  by (simp add: fair_def)

lemma ene_update_fair:
  assumes "fair cur" and "fair bak"
  shows "\<exists>b e. meter_ene_update cur bak = Inr (b, e) \<and> fair b \<and> pos e"
proof -
  note c = hundredths_defined(1) [of cur] and k = hundredths_defined(1) [of bak]
  have "\<exists>b e. meter_ene_update cur bak = Inr (b, e)"
    using c k assms by (auto simp: fair_def meter_ene_update_def addi_def)
  then obtain b e where r: "meter_ene_update cur bak = Inr (b, e)" by blast
  have "fair b" using ene_update_Inr [OF r] assms by (simp add: kept_def)
  then show ?thesis using r ene_update_pos [OF r] by blast
qed

definition fair_block :: "MET_ENERGY_BLOCK_T \<Rightarrow> bool" where
  "fair_block b \<longleftrightarrow> wf_block b \<and> (\<forall>i < 8. fair (value_of i b))"

lemma fair_set_member: "fair_block b \<Longrightarrow> i < 8 \<Longrightarrow> fair v \<Longrightarrow> fair_block (set_member i v b)"
  by (simp add: fair_block_def wf_set_member value_set_member del: member.simps)

definition meters_fair :: "'a meters_scheme \<Rightarrow> bool" where
  "meters_fair s \<longleftrightarrow> meters_ok s \<and> list_all wf_block (s_MetData s) \<and> list_all fair_block (s_MetDataBak s)"

lemma fair_zero_block: "fair_block zero_block"
proof -
  have "member i zero_block = zero_energy" if "i < 8" for i
    using that unfolding less_8 by (elim disjE) (simp_all add: zero_block_def)
  then show ?thesis
    by (simp add: fair_block_def wf_block_def value_of_def zero_energy_def fair_zero del: member.simps)
qed

lemma meters_init_fair: "meters_fair (meter_data_init s)"
  using fair_zero_block meters_init_ok [of s]
  by (simp add: meters_fair_def meter_data_init_def list_all_iff fair_block_def)

section \<open>Reading the meters\<close>

text \<open>The application and the server it is attached to, with room for \<open>b\<close> further calls.\<close>

definition attached_to :: "os_env \<Rightarrow> nat \<Rightarrow> 'a meters_scheme \<Rightarrow> rh_proc \<Rightarrow> bool" where
  "attached_to os b s srv \<longleftrightarrow> client_ok (mt_db s) \<and> dp_seq (mt_db s) + int b < 2147483647 \<and> ready os srv"

text \<open>The value of a quantity of a meter in the server's data memory.\<close>

definition served :: "rh_proc \<Rightarrow> nat \<Rightarrow> nat \<Rightarrow> binary32 option" where
  "served srv m i = (case oop_field (dp_mem srv) (of_nat m, DI_ENERGY ! i) of
     Some (a, n) \<Rightarrow> if n = 4 then Some (bytes_float (take 4 (drop a (mem_cells (dp_mem srv))))) else None
   | None \<Rightarrow> None)"

lemma float_of_bytes: "length bs = 4 \<Longrightarrow> bytes_float (patch (float_bytes x) 0 bs) = bytes_float bs"
  by (simp add: patch_def float_bytes_def)

lemma read_energy:
  assumes "attached_to os (Suc b) s srv" and "served srv m i = Some v" and "scheduled runs"
  shows "\<exists>p ack out. el_read_data os (server_env os runs) (of_nat m) (DI_ENERGY ! i) (float_bytes x) 4 (mt_db s) (Inr srv) =
       Inr (p, Inr (with_box ack srv), out, 4) \<and> bytes_float out = v \<and> client_ok p \<and> dp_seq p = dp_seq (mt_db s) + 1"
proof -
  have a: "os_ok os" "client_ok (mt_db s)" "dp_seq (mt_db s) + 1 < 2147483647" "ready os srv"
    using assms(1) by (simp_all add: attached_to_def ready_def)
  from assms(2) obtain ad where f: "oop_field (dp_mem srv) (of_nat m, DI_ENERGY ! i) = Some (ad, 4)"
    and v: "v = bytes_float (take 4 (drop ad (mem_cells (dp_mem srv))))"
    by (auto simp: served_def split: option.splits if_splits)
  have "ad + 4 \<le> length (mem_cells (dp_mem srv))"
    using oop.in_cells [OF _ f] a(4) by (simp add: ready_def)
  then have "length (take 4 (drop ad (mem_cells (dp_mem srv)))) = 4" by simp
  from read_through_server [OF a f _ _ _ _ _ assms(3), of "float_bytes x" 4] float_of_bytes [OF this] show ?thesis
    unfolding v by (force simp: float_bytes_def)
qed

lemma attached_step:
  "attached_to os (Suc b) s srv \<Longrightarrow> client_ok p \<Longrightarrow> dp_seq p = dp_seq (mt_db s) + 1 \<Longrightarrow> mt_db s' = p \<Longrightarrow>
     attached_to os b s' (with_box ack srv)"
  by (simp add: attached_to_def ready_def)

lemma served_with_box [simp]: "served (with_box m srv) = served srv"
  by (intro ext) (simp only: served_def with_box_simps)

text \<open>
  What taking a quantity of a meter does: the new backup and the energy counted, and the three
  tables with the reading, the backup and the accumulator of the meter's level.
\<close>

definition outcome ::
  "(nat \<Rightarrow> nat \<Rightarrow> binary32 option) \<Rightarrow> MET_ENERGY_BLOCK_T list \<Rightarrow> nat \<Rightarrow> nat \<Rightarrow> binary32 \<times> binary32" where
  "outcome src bak m i = (case src m i of
     None \<Rightarrow> (0, 0)
   | Some v \<Rightarrow> (case meter_ene_update v (value_of i (bak ! m)) of Inl _ \<Rightarrow> (0, 0) | Inr r \<Rightarrow> r))"

definition take_in :: "(nat \<Rightarrow> nat \<Rightarrow> binary32 option) \<Rightarrow> nat \<times> nat \<Rightarrow> 'a meters_scheme \<Rightarrow> 'a meters_scheme" where
  "take_in src = (\<lambda>(m, i) s. let l = unat (level_of (g_ParaMet s) m); use = s_EneUseUp s ! l;
       (b, e) = outcome src (s_MetDataBak s) m i in
     s\<lparr>s_MetData := (s_MetData s)[m := set_member i (the (src m i)) (s_MetData s ! m)],
       s_MetDataBak := (s_MetDataBak s)[m := set_member i b (s_MetDataBak s ! m)],
       s_EneUseUp := (s_EneUseUp s)[l := set_member i (value_of i use + e) use]\<rparr>)"

lemma take_in_db: "take_in src x (s\<lparr>mt_db := p\<rparr>) = (take_in src x s)\<lparr>mt_db := p\<rparr>"
  by (simp add: take_in_def Let_def split: prod.split)

lemma fold_take_in_db: "fold (take_in src) xs (s\<lparr>mt_db := p\<rparr>) = (fold (take_in src) xs s)\<lparr>mt_db := p\<rparr>"
  by (induction xs arbitrary: s) (simp_all add: take_in_db)

lemma read_member_through:
  assumes at: "attached_to os (Suc b) s srv" and ok: "meters_fair s" and v: "served srv m i = Some v" "fair v"
    and run: "scheduled runs" and m: "m < 128" "l < 4" "i < 8" and l: "l = unat (level_of (g_ParaMet s) m)"
  shows "\<exists>s' ack. read_member os (server_env os runs) m l i s (Inr srv) = Inr (s', Inr (with_box ack srv))
     \<and> attached_to os b s' (with_box ack srv) \<and> meters_fair s' \<and> same_paras s s'
     \<and> (take_in (served srv) (m, i) s)\<lparr>mt_db := mt_db s'\<rparr> = s'"
proof -
  have len: "length (s_MetData s) = 128" "length (s_MetDataBak s) = 128" "length (s_EneUseUp s) = 4"
    and fair: "fair_block (s_MetDataBak s ! m)" "wf_block (s_MetData s ! m)" "pos_block (s_EneUseUp s ! l)"
    using ok m by (auto simp: meters_fair_def meters_ok_def list_all_length)
  let ?x = "value_of i (s_MetData s ! m)" and ?use = "s_EneUseUp s ! l" and ?bak = "s_MetDataBak s ! m"
  obtain p ack out where r: "el_read_data os (server_env os runs) (of_nat m) (DI_ENERGY ! i) (float_bytes ?x) 4 (mt_db s) (Inr srv) =
       Inr (p, Inr (with_box ack srv), out, 4)" "bytes_float out = v" "client_ok p" "dp_seq p = dp_seq (mt_db s) + 1"
    using read_energy [OF at v(1) run] by blast
  obtain k e where e: "meter_ene_update v (value_of i ?bak) = Inr (k, e)" "fair k" "pos e"
    using ene_update_fair [OF v(2), of "value_of i ?bak"] fair(1) m(3) unfolding fair_block_def by blast
  let ?s = "s\<lparr>mt_db := p, s_MetData := (s_MetData s)[m := set_member i v (s_MetData s ! m)],
     s_MetDataBak := (s_MetDataBak s)[m := set_member i k ?bak],
     s_EneUseUp := (s_EneUseUp s)[l := set_member i (value_of i ?use + e) ?use]\<rparr>"
  have "read_member os (server_env os runs) m l i s (Inr srv) = Inr (?s, Inr (with_box ack srv))"
    using r(1,2) e(1) len m by (simp add: read_member_def Let_def)
  moreover have "pos_block (set_member i (value_of i ?use + e) ?use)"
    using fair(3) m(3) e(3) by (intro pos_set_member) (simp_all add: pos_block_def pos_add)
  then have "meters_fair ?s"
    using ok fair(1,2) e(2) m
    by (auto simp: meters_fair_def meters_ok_def list_all_length nth_list_update wf_set_member fair_set_member)
  moreover have "(take_in (served srv) (m, i) s)\<lparr>mt_db := p\<rparr> = ?s"
    using v(1) e(1) unfolding l by (simp add: take_in_def outcome_def Let_def)
  ultimately show ?thesis
    using attached_step [OF at r(3,4), of ?s] by (intro exI [of _ ?s] exI [of _ ack]) (auto simp: same_paras_def)
qed

definition readable :: "rh_proc \<Rightarrow> nat \<Rightarrow> bool" where
  "readable srv m \<longleftrightarrow> (\<forall>i < 8. \<exists>v. served srv m i = Some v \<and> fair v)"

definition took :: "(nat \<Rightarrow> nat \<Rightarrow> binary32 option) \<Rightarrow> (nat \<times> nat) set \<Rightarrow> 'a meters_scheme \<Rightarrow> 'a meters_scheme \<Rightarrow> bool" where
  "took src A s s' \<longleftrightarrow> (\<forall>m < 128. \<forall>i < 8. Some (value_of i (s_MetData s' ! m)) =
     (if (m, i) \<in> A then src m i else Some (value_of i (s_MetData s ! m))))"

lemma took_none: "took src {} s s"
  by (simp add: took_def)

lemma took_trans: "took src A s s1 \<Longrightarrow> took src B s1 s2 \<Longrightarrow> took src (A \<union> B) s s2"
  by (auto simp: took_def)

lemma same_trans_paras: "same_paras a b \<Longrightarrow> same_paras b c \<Longrightarrow> same_paras a c"
  by (simp add: same_paras_def)

text \<open>What a step of the update has done to the application; the server only got its answers.\<close>

definition updated ::
  "os_env \<Rightarrow> nat \<Rightarrow> rh_proc \<Rightarrow> (nat \<times> nat) list \<Rightarrow> 'a meters_scheme \<Rightarrow> 'a meters_scheme \<times> rh_proc res \<Rightarrow> bool" where
  "updated os b srv xs s r = (case r of (s', w) \<Rightarrow> (\<exists>srv'. w = Inr srv' \<and> dp_mem srv' = dp_mem srv
     \<and> attached_to os b s' srv') \<and> meters_fair s' \<and> same_paras s s' \<and> took (served srv) (set xs) s s'
     \<and> (fold (take_in (served srv)) xs s)\<lparr>mt_db := mt_db s'\<rparr> = s')"

lemma served_mem: "dp_mem srv' = dp_mem srv \<Longrightarrow> served srv' = served srv"
  by (intro ext) (simp only: served_def)

lemma updated_none: "attached_to os b s srv \<Longrightarrow> meters_fair s \<Longrightarrow> updated os b srv [] s (s, Inr srv)"
  by (simp add: updated_def same_paras_def took_none)

lemma updated_trans:
  assumes "updated os c srv xs s (s1, Inr srv1)" and "updated os b srv1 ys s1 r"
  shows "updated os b srv (xs @ ys) s r"
proof -
  obtain s' w where r: "r = (s', w)" by (cases r)
  have d: "served srv1 = served srv" using assms(1) by (auto simp: updated_def intro: served_mem)
  have e: "(fold (take_in (served srv)) xs s)\<lparr>mt_db := mt_db s1\<rparr> = s1"
    and "(fold (take_in (served srv)) ys s1)\<lparr>mt_db := mt_db s'\<rparr> = s'"
    using assms d by (simp_all add: updated_def r)
  then have "(fold (take_in (served srv)) ys ((fold (take_in (served srv)) xs s)\<lparr>mt_db := mt_db s1\<rparr>))\<lparr>mt_db := mt_db s'\<rparr> = s'"
    by (simp only: e)
  then have f: "(fold (take_in (served srv)) (xs @ ys) s)\<lparr>mt_db := mt_db s'\<rparr> = s'" by (simp add: fold_take_in_db)
  have "took (served srv) (set xs) s s1" "took (served srv) (set ys) s1 s'" "same_paras s s1" "same_paras s1 s'"
    using assms d by (simp_all add: updated_def r)
  then have "took (served srv) (set (xs @ ys)) s s'" "same_paras s s'"
    unfolding set_append by (blast intro: took_trans same_trans_paras)+
  then show ?thesis using assms f unfolding r updated_def prod.case by auto
qed

lemma read_members_through:
  assumes "attached_to os (b + length js) s srv" and "meters_fair s" and "readable srv m" and "scheduled runs"
    and "m < 128" and "l < 4" and "list_all (\<lambda>i. i < 8) js" and "l = unat (level_of (g_ParaMet s) m)"
  shows "\<exists>r. read_members os (server_env os runs) m l js s (Inr srv) = Inr r \<and> updated os b srv (map (Pair m) js) s r"
  using assms
proof (induction js arbitrary: s srv)
  case Nil
  then show ?case by (simp add: updated_none)
next
  case (Cons i js)
  obtain v where v: "served srv m i = Some v" "fair v" and i: "i < 8" using Cons.prems(3,7) by (auto simp: readable_def)
  have "attached_to os (Suc (b + length js)) s srv" using Cons.prems(1) by simp
  from read_member_through [OF this Cons.prems(2) v Cons.prems(4-6) i Cons.prems(8)]
  obtain s1 ack where 1: "read_member os (server_env os runs) m l i s (Inr srv) = Inr (s1, Inr (with_box ack srv))"
    and st: "attached_to os (b + length js) s1 (with_box ack srv)" "meters_fair s1" "same_paras s s1"
    and t: "(take_in (served srv) (m, i) s)\<lparr>mt_db := mt_db s1\<rparr> = s1" by blast
  have d: "s_MetData s1 = (s_MetData s)[m := set_member i v (s_MetData s ! m)]"
    using v(1) by (subst t [symmetric]) (simp add: take_in_def Let_def split: prod.split)
  have wf: "\<And>k. k < 128 \<Longrightarrow> wf_block (s_MetData s ! k)" "length (s_MetData s) = 128"
    using Cons.prems(2) by (simp_all add: meters_fair_def meters_ok_def list_all_length)
  have "took (served srv) {(m, i)} s s1"
    using wf v(1) i Cons.prems(5) by (auto simp: took_def d nth_list_update value_set_member)
  then have u1: "updated os (b + length js) srv [(m, i)] s (s1, Inr (with_box ack srv))" using st t by (simp add: updated_def)
  have "readable (with_box ack srv) m" using Cons.prems(3) by (simp add: readable_def)
  from Cons.IH [OF st(1,2) this Cons.prems(4-6)] Cons.prems(7,8) st(3)
  obtain r where r: "read_members os (server_env os runs) m l js s1 (Inr (with_box ack srv)) = Inr r"
    "updated os b (with_box ack srv) (map (Pair m) js) s1 r" by (auto simp: same_paras_def)
  then show ?case using 1 r(1) updated_trans [OF u1 r(2)] by simp
qed

text \<open>The meters that are read: not empty and of a level below 4.\<close>

definition metered :: "u8 list \<Rightarrow> nat \<Rightarrow> bool" where
  "metered mem m \<longleftrightarrow> m < 128 \<and> port_of mem m \<noteq> 0 \<and> level_of mem m < 4"

lemma attached_less: "attached_to os b s srv \<Longrightarrow> c \<le> b \<Longrightarrow> attached_to os c s srv"
  by (simp add: attached_to_def)

text \<open>The quantities taken for a list of meters, in the order they are read.\<close>

definition taken :: "u8 list \<Rightarrow> nat list \<Rightarrow> (nat \<times> nat) list" where
  "taken mem ms = concat (map (\<lambda>m. map (Pair m) [0 ..< 8]) (filter (metered mem) ms))"

lemma taken_simps: "taken mem [] = []"
  "taken mem (m # ms) = (if metered mem m then map (Pair m) [0 ..< 8] else []) @ taken mem ms"
  by (simp_all add: taken_def)

lemma set_taken: "set (taken mem ms) = {(m, i). m \<in> set ms \<and> i < 8 \<and> metered mem m}"
  by (auto simp: taken_def)

lemma update_meter_through:
  assumes "attached_to os (b + 8) s srv" and "meters_fair s" and "scheduled runs" and "m < 128"
    and "metered (g_ParaMet s) m \<longrightarrow> readable srv m"
  shows "\<exists>r. update_meter os (server_env os runs) m s (Inr srv) = Inr r
     \<and> updated os b srv (taken (g_ParaMet s) [m]) s r"
proof -
  have mem: "length (g_ParaMet s) = 6656" using assms(2) by (simp add: meters_fair_def meters_ok_def)
  note c = EMPTY_METER_closed [OF mem assms(4)] meter_level_check_closed [OF mem assms(4)]
  show ?thesis
  proof (cases "metered (g_ParaMet s) m")
    case False
    then have "update_meter os (server_env os runs) m s (Inr srv) = Inr (s, Inr srv)"
      using c assms(4) by (auto simp: update_meter_def metered_def METER_LEV_MAX_def)
    then show ?thesis
      using False assms(2) attached_less [OF assms(1), of b] by (simp add: updated_none taken_simps)
  next
    case True
    have js: "list_all (\<lambda>i. i < 8) [0 ..< 8]" by (simp add: list_all_iff)
    have l: "unat (level_of (g_ParaMet s) m) < 4" using True by (simp add: metered_def word_less_nat_alt)
    have "attached_to os (b + length [0 ..< 8]) s srv" using assms(1) by simp
    from read_members_through [OF this assms(2) _ assms(3,4) l js refl] True assms(5)
    obtain r where r: "read_members os (server_env os runs) m (unat (level_of (g_ParaMet s) m)) [0 ..< 8] s (Inr srv) = Inr r"
      "updated os b srv (map (Pair m) [0 ..< 8]) s r" by blast
    moreover have "taken (g_ParaMet s) [m] = map (Pair m) [0 ..< 8]" using True by (simp add: taken_simps)
    moreover have "\<not> METER_LEV_MAX \<le> level_of (g_ParaMet s) m" using True by (simp add: metered_def METER_LEV_MAX_def not_le)
    ultimately show ?thesis using c True by (simp add: update_meter_def metered_def del: upt_rec_numeral)
  qed
qed

lemma update_meters_through:
  assumes "attached_to os (b + 8 * length ms) s srv" and "meters_fair s" and "scheduled runs"
    and "list_all (\<lambda>m. m < 128 \<and> (metered (g_ParaMet s) m \<longrightarrow> readable srv m)) ms"
  shows "\<exists>r. update_meters os (server_env os runs) ms s (Inr srv) = Inr r
     \<and> updated os b srv (taken (g_ParaMet s) ms) s r"
  using assms
proof (induction ms arbitrary: s srv)
  case Nil
  then show ?case by (simp add: updated_none taken_simps)
next
  case (Cons m ms)
  have "attached_to os (b + 8 * length ms + 8) s srv" using Cons.prems(1) by (simp add: ac_simps)
  from update_meter_through [OF this Cons.prems(2,3)] Cons.prems(4)
  obtain s1 srv1 where 1: "update_meter os (server_env os runs) m s (Inr srv) = Inr (s1, Inr srv1)"
    and u1: "updated os (b + 8 * length ms) srv (taken (g_ParaMet s) [m]) s (s1, Inr srv1)"
    by (fastforce simp: updated_def split: prod.splits)
  have st: "attached_to os (b + 8 * length ms) s1 srv1" "meters_fair s1" "g_ParaMet s1 = g_ParaMet s" "dp_mem srv1 = dp_mem srv"
    using u1 by (auto simp: updated_def same_paras_def)
  have "list_all (\<lambda>m. m < 128 \<and> (metered (g_ParaMet s1) m \<longrightarrow> readable srv1 m)) ms"
    using Cons.prems(4) st(3) served_mem [OF st(4)] by (simp add: readable_def)
  from Cons.IH [OF st(1,2) Cons.prems(3) this]
  obtain r where r: "update_meters os (server_env os runs) ms s1 (Inr srv1) = Inr r"
    "updated os b srv1 (taken (g_ParaMet s) ms) s1 r" by (auto simp: st(3))
  have "taken (g_ParaMet s) [m] @ taken (g_ParaMet s) ms = taken (g_ParaMet s) (m # ms)" by (simp add: taken_simps)
  then show ?case using 1 r(1) updated_trans [OF u1 r(2)] by (simp only: update_meters.simps bindR_Inr prod.case) blast
qed

section \<open>The energy a minute counts\<close>

definition tables_wf :: "'a meters_scheme \<Rightarrow> bool" where
  "tables_wf s \<longleftrightarrow> length (s_MetDataBak s) = 128 \<and> list_all wf_block (s_MetDataBak s)
     \<and> length (s_EneUseUp s) = 4 \<and> list_all wf_block (s_EneUseUp s)"

lemma meters_fair_wf: "meters_fair s \<Longrightarrow> tables_wf s"
  by (auto simp: meters_fair_def tables_wf_def meters_ok_def fair_block_def pos_block_def list_all_iff)

definition takes_fit :: "u8 list \<Rightarrow> (nat \<times> nat) list \<Rightarrow> bool" where
  "takes_fit mem xs \<longleftrightarrow> distinct xs \<and> list_all (\<lambda>(m, i). m < 128 \<and> i < 8 \<and> unat (level_of mem m) < 4) xs"

lemma take_in_keeps:
  assumes "tables_wf s" and "m < 128" and "i < 8" and "unat (level_of (g_ParaMet s) m) < 4"
  shows "tables_wf (take_in src (m, i) s)" and "g_ParaMet (take_in src (m, i) s) = g_ParaMet s"
  using assms by (auto simp: take_in_def tables_wf_def Let_def list_all_length nth_list_update wf_set_member split: prod.split)

lemma take_in_values:
  assumes "tables_wf s" and "m < 128" and "i < 8" and "unat (level_of (g_ParaMet s) m) < 4" and "j < 8"
  shows "k < 128 \<Longrightarrow> value_of j (s_MetDataBak (take_in src (m, i) s) ! k) =
       (if (k, j) = (m, i) then fst (outcome src (s_MetDataBak s) m i) else value_of j (s_MetDataBak s ! k))"
    and "l < 4 \<Longrightarrow> value_of j (s_EneUseUp (take_in src (m, i) s) ! l) =
       (if (unat (level_of (g_ParaMet s) m), i) = (l, j) then value_of j (s_EneUseUp s ! l) + snd (outcome src (s_MetDataBak s) m i)
        else value_of j (s_EneUseUp s ! l))"
  using assms
  by (auto simp: take_in_def tables_wf_def Let_def list_all_length nth_list_update value_set_member split: prod.split)

lemma outcome_cong: "value_of i (bak ! m) = value_of i (bak' ! m) \<Longrightarrow> outcome src bak m i = outcome src bak' m i"
  unfolding outcome_def by (simp only:)

lemma fold_take_in_values:
  assumes "tables_wf s" and "takes_fit (g_ParaMet s) xs" and "j < 8"
  shows "k < 128 \<Longrightarrow> value_of j (s_MetDataBak (fold (take_in src) xs s) ! k) =
       (if (k, j) \<in> set xs then fst (outcome src (s_MetDataBak s) k j) else value_of j (s_MetDataBak s ! k))"
    and "l < 4 \<Longrightarrow> value_of j (s_EneUseUp (fold (take_in src) xs s) ! l) =
       fold (\<lambda>m u. u + snd (outcome src (s_MetDataBak s) m j))
         (map fst (filter (\<lambda>(m, i). i = j \<and> unat (level_of (g_ParaMet s) m) = l) xs)) (value_of j (s_EneUseUp s ! l))"
  using assms
proof (induction xs arbitrary: s)
  case (Cons x xs)
  obtain m i where x: "x = (m, i)" by (cases x)
  have fits: "m < 128" "i < 8" "unat (level_of (g_ParaMet s) m) < 4" "(m, i) \<notin> set xs"
    "takes_fit (g_ParaMet s) xs" if "takes_fit (g_ParaMet s) (x # xs)" for s :: "'a meters_scheme"
    using that by (auto simp: takes_fit_def x)
  { case 1
    note f = fits [OF 1(3)] and v = take_in_values(1) [OF 1(2) fits(1-3) [OF 1(3)], of _ _ src]
    note keep = take_in_keeps [OF 1(2) f(1-3), of src]
    have "outcome src (s_MetDataBak (take_in src (m, i) s)) k j = outcome src (s_MetDataBak s) k j" if "(k, j) \<in> set xs"
      using that f(4) v [OF 1(4,1)] by (intro outcome_cong) auto
    then show ?case using Cons.IH(1) [OF 1(1) keep(1) _ 1(4)] keep(2) f(4,5) v [OF 1(4,1)] by (auto simp: x) }
  { case 2
    note f = fits [OF 2(3)] and v = take_in_values(1) [OF 2(2) fits(1-3) [OF 2(3)] 2(4), of _ src]
    note keep = take_in_keeps [OF 2(2) f(1-3), of src]
    let ?ms = "map fst (filter (\<lambda>(m, i). i = j \<and> unat (level_of (g_ParaMet s) m) = l) xs)"
    have "outcome src (s_MetDataBak (take_in src (m, i) s)) k j = outcome src (s_MetDataBak s) k j" if "k \<in> set ?ms" for k
    proof -
      from that have "(k, j) \<in> set xs" by auto
      moreover from this have "k < 128" using f(5) by (auto simp: takes_fit_def list_all_iff)
      ultimately show ?thesis using f(4) v [of k] by (intro outcome_cong) auto
    qed
    then have "fold (\<lambda>k u. u + snd (outcome src (s_MetDataBak (take_in src (m, i) s)) k j)) ?ms u =
        fold (\<lambda>k u. u + snd (outcome src (s_MetDataBak s) k j)) ?ms u" for u
      by (intro fold_cong refl) (simp add: fun_eq_iff)
    then show ?case
      using Cons.IH(2) [OF 2(1) keep(1) _ 2(4)] keep(2) f(5) take_in_values(2) [OF 2(2) f(1-3) 2(4,1), of src]
      by (simp add: x) }
qed simp_all

text \<open>A quantity over one minute: the backup of a metered meter, and the accumulator of a level.\<close>

definition backup :: "(nat \<Rightarrow> nat \<Rightarrow> binary32 option) \<Rightarrow> 'a meters_scheme \<Rightarrow> nat \<Rightarrow> nat \<Rightarrow> binary32" where
  "backup src s m i = (if metered (g_ParaMet s) m then fst (outcome src (s_MetDataBak s) m i) else value_of i (s_MetDataBak s ! m))"

definition counted :: "(nat \<Rightarrow> nat \<Rightarrow> binary32 option) \<Rightarrow> 'a meters_scheme \<Rightarrow> nat \<Rightarrow> nat \<Rightarrow> binary32" where
  "counted src s l i = fold (\<lambda>m u. u + snd (outcome src (s_MetDataBak s) m i))
     (filter (\<lambda>m. metered (g_ParaMet s) m \<and> unat (level_of (g_ParaMet s) m) = l) [0 ..< 128]) (value_of i (s_EneUseUp s ! l))"

lemma taken_fits: "distinct ms \<Longrightarrow> takes_fit mem (taken mem ms)"
proof (induction ms)
  case (Cons m ms)
  have "unat (level_of mem m) < 4" if "metered mem m" using that by (simp add: metered_def word_less_nat_alt)
  then show ?case using Cons
    by (auto simp: takes_fit_def taken_simps set_taken distinct_map inj_on_def list_all_iff metered_def simp del: upt_rec_numeral)
qed (simp add: takes_fit_def taken_simps)

lemma taken_of_level:
  assumes "i < 8"
  shows "map fst (filter (\<lambda>(m, j). j = i \<and> unat (level_of mem m) = l) (taken mem ms)) =
     filter (\<lambda>m. metered mem m \<and> unat (level_of mem m) = l) ms"
proof (induction ms)
  case (Cons m ms)
  have "filter (\<lambda>j. j = i) [0 ..< 8] = [i]" using assms unfolding less_8 by (elim disjE) (simp_all add: upt_conv_Cons)
  then have "map fst (filter (\<lambda>(m, j). j = i \<and> unat (level_of mem m) = l) (map (Pair m) [0 ..< 8])) =
      (if unat (level_of mem m) = l then [m] else [])"
    by (simp add: filter_map o_def cong: filter_cong del: upt_rec_numeral)
  then show ?case using Cons by (simp add: taken_simps del: upt_rec_numeral)
qed (simp add: taken_simps)

lemma updated_counts:
  assumes "updated os b srv (taken (g_ParaMet s) [0 ..< 128]) s (s', w)" and "meters_fair s" and "i < 8"
  shows "m < 128 \<Longrightarrow> value_of i (s_MetDataBak s' ! m) = backup (served srv) s m i"
    and "l < 4 \<Longrightarrow> value_of i (s_EneUseUp s' ! l) = counted (served srv) s l i"
proof -
  let ?s = "fold (take_in (served srv)) (taken (g_ParaMet s) [0 ..< 128]) s"
  have "?s\<lparr>mt_db := mt_db s'\<rparr> = s'" using assms(1) by (simp add: updated_def)
  then have e: "s_MetDataBak s' = s_MetDataBak ?s" "s_EneUseUp s' = s_EneUseUp ?s"
    by (metis meters.select_convs(2,4) meters.surjective meters.update_convs(5))+
  note v = fold_take_in_values [OF meters_fair_wf [OF assms(2)] taken_fits assms(3), of "[0 ..< 128]" _ "served srv"]
  show "m < 128 \<Longrightarrow> value_of i (s_MetDataBak s' ! m) = backup (served srv) s m i"
    using v(1) assms(3) unfolding e backup_def by (simp add: set_taken)
  show "l < 4 \<Longrightarrow> value_of i (s_EneUseUp s' ! l) = counted (served srv) s l i"
    using v(2) assms(3) unfolding e counted_def by (simp add: taken_of_level)
qed

section \<open>Writing the results\<close>

text \<open>A step of the saving: only the client state changes, and the server's memory by the writes.\<close>

definition wrote ::
  "os_env \<Rightarrow> nat \<Rightarrow> rh_proc \<Rightarrow> (u16 \<times> u32) access list \<Rightarrow> el_app \<Rightarrow> el_app \<times> rh_proc res \<Rightarrow> bool" where
  "wrote os b srv xs s r = (case r of (s', w) \<Rightarrow> s' = s\<lparr>mt_db := mt_db s'\<rparr> \<and> (\<exists>srv'. w = Inr srv'
     \<and> attached_to os b s' srv' \<and> oop_field (dp_mem srv') = oop_field (dp_mem srv)
     \<and> length (mem_cells (dp_mem srv')) = length (mem_cells (dp_mem srv))
     \<and> mem_cells (dp_mem srv') = fst (ref_run (oop_field (dp_mem srv)) (mem_cells (dp_mem srv)) xs)))"

lemma wrote_none: "attached_to os b s srv \<Longrightarrow> wrote os b srv [] s (s, Inr srv)"
  by (simp add: wrote_def)

lemma wrote_trans:
  assumes "wrote os c srv xs s (s1, Inr srv1)" and "wrote os b srv1 ys s1 r"
  shows "wrote os b srv (xs @ ys) s r"
proof -
  obtain s' w where r: "r = (s', w)" by (cases r)
  have "s1 = s\<lparr>mt_db := mt_db s1\<rparr>" "s' = s1\<lparr>mt_db := mt_db s'\<rparr>" using assms by (simp_all add: wrote_def r)
  then have "s' = s\<lparr>mt_db := mt_db s'\<rparr>" by (metis meters.fold_congs(5) meters.surjective meters.update_convs(5))
  then show ?thesis using assms by (auto simp: wrote_def r fst_ref_run_append)
qed

definition savable :: "rh_proc \<Rightarrow> (u16 \<times> u32) access \<Rightarrow> bool" where
  "savable srv = fits_access (oop_field (dp_mem srv)) (length (mem_cells (dp_mem srv))) 128"

lemma wrote_savable: "wrote os b srv xs s (s1, Inr srv1) \<Longrightarrow> savable srv1 = savable srv"
  unfolding wrote_def savable_def prod.case by (metis sum.inject(2))

definition puts :: "nat \<Rightarrow> (u32 \<times> u8 list) list \<Rightarrow> (u16 \<times> u32) access list" where
  "puts m ws = map (\<lambda>(di, bs). Put (of_nat m, di) bs) ws"

lemma write_all_through:
  assumes "attached_to os (b + length ws) s srv" and "list_all (savable srv) (puts m ws)" and "scheduled runs"
  shows "\<exists>r. write_all os (server_env os runs) m ws s (Inr srv) = Inr r \<and> wrote os b srv (puts m ws) s r"
  using assms
proof (induction ws arbitrary: s srv)
  case Nil
  then show ?case by (simp add: puts_def wrote_none)
next
  case (Cons x ws)
  obtain di bs where x: "x = (di, bs)" by (cases x)
  from Cons.prems(2) obtain a n where f: "oop_field (dp_mem srv) (of_nat m, di) = Some (a, n)"
    and len: "length bs \<le> 128" "a + length bs \<le> length (mem_cells (dp_mem srv))"
    by (auto simp: x puts_def savable_def split: option.splits)
  have a: "os_ok os" "client_ok (mt_db s)" "dp_seq (mt_db s) + 1 < 2147483647" "ready os srv"
    using Cons.prems(1) by (simp_all add: attached_to_def ready_def)
  from write_through_server [OF a f len Cons.prems(3)] obtain p srv1 where
    1: "el_write_data os (server_env os runs) (of_nat m) di bs (of_nat (length bs)) (mt_db s) (Inr srv) = Inr (p, Inr srv1, 0)"
    and p: "client_ok p" "dp_seq p = dp_seq (mt_db s) + 1" "ready os srv1"
    and srv1: "oop_field (dp_mem srv1) = oop_field (dp_mem srv)"
      "mem_cells (dp_mem srv1) = patch (mem_cells (dp_mem srv)) a bs" by blast
  let ?s = "s\<lparr>mt_db := p\<rparr>"
  have at: "attached_to os (b + length ws) ?s srv1" using Cons.prems(1) p by (simp add: attached_to_def)
  then have w1: "wrote os (b + length ws) srv (puts m [x]) s (?s, Inr srv1)"
    using srv1 f len(2) by (simp add: wrote_def puts_def x)
  have "list_all (savable srv1) (puts m ws)" using Cons.prems(2) wrote_savable [OF w1] by (simp add: puts_def)
  from Cons.IH [OF at this Cons.prems(3)] obtain r where
    r: "write_all os (server_env os runs) m ws ?s (Inr srv1) = Inr r" "wrote os b srv1 (puts m ws) ?s r" by blast
  have "puts m (x # ws) = puts m [x] @ puts m ws" by (simp add: puts_def)
  then show ?case using 1 r(1) wrote_trans [OF w1 r(2)] by (simp add: x)
qed

definition phase_puts :: "nat \<Rightarrow> EL_STATES_T \<Rightarrow> nat list \<Rightarrow> (u16 \<times> u32) access list" where
  "phase_puts m st ps = concat (map (\<lambda>p. puts m (unit_writes (st_nVal st ! p) p)) ps)"

lemma length_unit_writes: "length (unit_writes u p) = 6"
  by (simp add: unit_writes_def)

lemma wrote_elStatis: "wrote os b srv xs s (s', w) \<Longrightarrow> elStatis s' = elStatis s \<and> g_ParaMet s' = g_ParaMet s"
  unfolding wrote_def prod.case by (metis el_app.select_convs(1) el_app.surjective meters.select_convs(1)
      meters.surjective meters.update_convs(5))

lemma wrote_cases: "wrote os b srv xs s r \<Longrightarrow> \<exists>s' srv'. r = (s', Inr srv')"
  by (auto simp: wrote_def split: prod.splits)

lemma save_phases_through:
  assumes "attached_to os (b + 6 * length ps) s srv" and "statis_ok s" and "l < 4" and "list_all (\<lambda>p. p < 4) ps"
    and "list_all (savable srv) (phase_puts m (elStatis s ! l) ps)" and "scheduled runs"
  shows "\<exists>r. save_phases os (server_env os runs) m l ps s (Inr srv) = Inr r
     \<and> wrote os b srv (phase_puts m (elStatis s ! l) ps) s r"
  using assms
proof (induction ps arbitrary: s srv)
  case Nil
  then show ?case by (simp add: phase_puts_def wrote_none)
next
  case (Cons p ps)
  let ?st = "elStatis s ! l"
  have len: "length (elStatis s) = 4" "length (st_nVal ?st) = 4" using Cons.prems(2,3) by (simp_all add: statis_ok_def list_all_length)
  have eq: "phase_puts m ?st (p # ps) = puts m (unit_writes (st_nVal ?st ! p) p) @ phase_puts m ?st ps" by (simp add: phase_puts_def)
  have "attached_to os (b + 6 * length ps + length (unit_writes (st_nVal ?st ! p) p)) s srv"
    using Cons.prems(1) by (simp add: length_unit_writes ac_simps)
  from write_all_through [OF this _ Cons.prems(6), of m] Cons.prems(5) eq wrote_cases
  obtain s1 srv1 where 1: "write_all os (server_env os runs) m (unit_writes (st_nVal ?st ! p) p) s (Inr srv) = Inr (s1, Inr srv1)"
    and w1: "wrote os (b + 6 * length ps) srv (puts m (unit_writes (st_nVal ?st ! p) p)) s (s1, Inr srv1)"
    by (metis list_all_append)
  note same = wrote_elStatis [OF w1]
  have "attached_to os (b + 6 * length ps) s1 srv1" "statis_ok s1" "list_all (savable srv1) (phase_puts m (elStatis s1 ! l) ps)"
    using w1 Cons.prems(2,5) eq same wrote_savable [OF w1] by (simp_all add: wrote_def statis_ok_def)
  from Cons.IH [OF this(1,2) Cons.prems(3) _ this(3) Cons.prems(6)] Cons.prems(4)
  obtain r where r: "save_phases os (server_env os runs) m l ps s1 (Inr srv1) = Inr r"
    "wrote os b srv1 (phase_puts m ?st ps) s1 r" using same by auto
  show ?case using 1 r(1) wrote_trans [OF w1 r(2)] len Cons.prems(3,4) unfolding eq by simp
qed

text \<open>The meter whose number the results of a level are stored under: the first of that level.\<close>

definition level_meter :: "u8 list \<Rightarrow> nat \<Rightarrow> nat option" where
  "level_meter mem l = find (has_meter mem (\<lambda>v. unat v = l)) [0 ..< 128]"

lemma level_meter_Some: "level_meter mem l = Some m \<Longrightarrow> m < 128 \<and> has_meter mem (\<lambda>v. unat v = l) m"
  by (auto simp: level_meter_def find_Some_iff)

lemma find_level:
  assumes "length mem = 6656" and "l < 4"
  shows "find_meter mem (\<lambda>v. \<not> METER_LEV_MAX \<le> v \<and> int l = uint v) 0 =
     Inr (case level_meter mem l of None \<Rightarrow> 128 | Some m \<Rightarrow> m)"
proof -
  have t: "(\<lambda>v. \<not> METER_LEV_MAX \<le> v \<and> int l = uint v) = (\<lambda>v :: u8. unat v = l)"
  proof
    fix v :: u8
    have "int l = uint v \<longleftrightarrow> unat v = l" unfolding uint_nat by linarith
    then show "(\<not> METER_LEV_MAX \<le> v \<and> int l = uint v) = (unat v = l)"
      using assms(2) by (auto simp: METER_LEV_MAX_def word_le_nat_alt)
  qed
  obtain r where r: "find_meter mem (\<lambda>v. unat v = l) 0 = Inr r" "r \<le> 128" "r < 128 \<longrightarrow> has_meter mem (\<lambda>v. unat v = l) r"
    "\<forall>j. 0 \<le> j \<and> j < r \<longrightarrow> \<not> has_meter mem (\<lambda>v. unat v = l) j"
    using find_meter_closed [OF assms(1), of 0 "\<lambda>v. unat v = l"] by blast
  have "level_meter mem l = (if r < 128 then Some r else None)"
  proof (cases "r < 128")
    case True
    then show ?thesis using r(3,4) by (auto simp: level_meter_def find_Some_iff intro!: exI [of _ r])
  next
    case False
    then show ?thesis using r(2,4) by (auto simp: level_meter_def find_None_iff)
  qed
  then show ?thesis using r(1,2) unfolding t by auto
qed

definition level_puts :: "u8 list \<Rightarrow> EL_STATES_T list \<Rightarrow> nat \<Rightarrow> (u16 \<times> u32) access list" where
  "level_puts mem est l = (case level_meter mem l of None \<Rightarrow> [] | Some m \<Rightarrow> phase_puts m (est ! l) [0 ..< 4])"

definition save_puts :: "u8 list \<Rightarrow> EL_STATES_T list \<Rightarrow> (u16 \<times> u32) access list" where
  "save_puts mem est = concat (map (level_puts mem est) [0 ..< 4])"

lemma save_level_through:
  assumes "attached_to os (b + 24) s srv" and "meters_ok s" and "statis_ok s" and "l < 4"
    and "list_all (savable srv) (level_puts (g_ParaMet s) (elStatis s) l)" and "scheduled runs"
  shows "\<exists>r. save_level os (server_env os runs) l s (Inr srv) = Inr r
     \<and> wrote os b srv (level_puts (g_ParaMet s) (elStatis s) l) s r"
proof -
  have mem: "length (g_ParaMet s) = 6656" using assms(2) by (simp add: meters_ok_def)
  note f = find_level [OF mem assms(4)]
  show ?thesis
  proof (cases "level_meter (g_ParaMet s) l")
    case None
    then show ?thesis
      using f attached_less [OF assms(1), of b] by (simp add: save_level_def MAX_MET_NUM_def level_puts_def wrote_none)
  next
    case (Some m)
    have ps: "list_all (\<lambda>p. p < 4) [0 ..< 4]" by (simp add: list_all_iff)
    have "attached_to os (b + 6 * length [0 ..< 4 :: nat]) s srv" using assms(1) by simp
    from save_phases_through [OF this assms(3,4) ps _ assms(6), of m] assms(5)
    show ?thesis
      using f Some level_meter_Some [OF Some]
      by (simp add: save_level_def MAX_MET_NUM_def level_puts_def EL_MAX_PHASES_def del: upt_rec_numeral)
  qed
qed

lemma save_levels_through:
  assumes "attached_to os (b + 24 * length ls) s srv" and "meters_ok s" and "statis_ok s" and "list_all (\<lambda>l. l < 4) ls"
    and "list_all (savable srv) (concat (map (level_puts (g_ParaMet s) (elStatis s)) ls))" and "scheduled runs"
  shows "\<exists>r. save_levels os (server_env os runs) ls s (Inr srv) = Inr r
     \<and> wrote os b srv (concat (map (level_puts (g_ParaMet s) (elStatis s)) ls)) s r"
  using assms
proof (induction ls arbitrary: s srv)
  case Nil
  then show ?case by (simp add: wrote_none)
next
  case (Cons l ls)
  let ?xs = "level_puts (g_ParaMet s) (elStatis s) l"
  have "attached_to os (b + 24 * length ls + 24) s srv" using Cons.prems(1) by (simp add: ac_simps)
  moreover have "l < 4" "list_all (savable srv) ?xs" using Cons.prems(4,5) by simp_all
  ultimately have "\<exists>r. save_level os (server_env os runs) l s (Inr srv) = Inr r \<and> wrote os (b + 24 * length ls) srv ?xs s r"
    using save_level_through [OF _ Cons.prems(2,3) _ _ Cons.prems(6)] by blast
  with wrote_cases
  obtain s1 srv1 where 1: "save_level os (server_env os runs) l s (Inr srv) = Inr (s1, Inr srv1)"
    and w1: "wrote os (b + 24 * length ls) srv ?xs s (s1, Inr srv1)"
    by metis
  note same = wrote_elStatis [OF w1]
  have "s1 = s\<lparr>mt_db := mt_db s1\<rparr>" using w1 by (simp add: wrote_def)
  then have "meters_ok s1" using Cons.prems(2) unfolding meters_ok_def
    by (metis meters.select_convs(1-4) meters.surjective meters.update_convs(5))
  moreover have "attached_to os (b + 24 * length ls) s1 srv1" "statis_ok s1"
    "list_all (savable srv1) (concat (map (level_puts (g_ParaMet s1) (elStatis s1)) ls))"
    using w1 Cons.prems(3,5) same wrote_savable [OF w1] by (simp_all add: wrote_def statis_ok_def)
  ultimately obtain r where r: "save_levels os (server_env os runs) ls s1 (Inr srv1) = Inr r"
    "wrote os b srv1 (concat (map (level_puts (g_ParaMet s) (elStatis s)) ls)) s1 r"
    using Cons.IH [of s1 srv1] Cons.prems(4,6) same by auto
  then show ?case using 1 wrote_trans [OF w1 r(2)] by simp
qed

lemma statis_save_through:
  assumes "attached_to os (b + 96) s srv" and "meters_ok s" and "statis_ok s"
    and "list_all (savable srv) (save_puts (g_ParaMet s) (elStatis s))" and "scheduled runs"
  shows "\<exists>r. el_statis_save os (server_env os runs) s (Inr srv) = Inr r
     \<and> wrote os b srv (save_puts (g_ParaMet s) (elStatis s)) s r"
proof -
  have "attached_to os (b + 24 * length [0 ..< 4 :: nat]) s srv" "list_all (\<lambda>l. l < 4) [0 ..< 4]"
    using assms(1) by (simp_all add: list_all_iff)
  from save_levels_through [OF this(1) assms(2,3) this(2) _ assms(5)] assms(4)
  show ?thesis by (simp add: el_statis_save_def METER_LEV_MAX_def save_puts_def del: upt_rec_numeral)
qed

section \<open>One minute\<close>

text \<open>The fields the results go to exist in the server's memory.\<close>

definition result_fields :: "rh_proc \<Rightarrow> u8 list \<Rightarrow> bool" where
  "result_fields srv mem \<longleftrightarrow> (\<forall>l < 4. \<forall>m. level_meter mem l = Some m \<longrightarrow>
     (\<forall>p < 4. list_all (savable srv) (puts m (unit_writes zero_unit p))))"

lemma savable_length: "length d = length d' \<Longrightarrow> savable srv (Put k d) = savable srv (Put k d')"
  by (cases "oop_field (dp_mem srv) k") (auto simp: savable_def)

lemma float_bytes_length [simp]: "length (float_bytes x) = 4"
  by (simp add: float_bytes_def)

lemma savable_unit: "list_all (savable srv) (puts m (unit_writes u p)) = list_all (savable srv) (puts m (unit_writes v p))"
  using savable_length [of "float_bytes x" "float_bytes y" srv for x y] savable_length [of "[a]" "[b]" srv for a b]
  by (simp add: puts_def unit_writes_def) metis

lemma save_savable:
  assumes "result_fields srv mem"
  shows "list_all (savable srv) (save_puts mem est)"
proof -
  have "list_all (savable srv) (puts m (unit_writes u p))" if "level_meter mem l = Some m" "l < 4" "p < 4" for l m p u
    using assms that savable_unit [of srv m u p zero_unit] by (simp add: result_fields_def)
  then have "list_all (savable srv) (level_puts mem est l)" if "l < 4" for l
    using that by (cases "level_meter mem l") (simp_all add: level_puts_def phase_puts_def list_all_iff)
  then show ?thesis by (simp add: save_puts_def list_all_iff)
qed

text \<open>The conditions under which the task can work: the server serves every meter in use and has
  the fields of the results, no meter has level 4, and the counter has room for the minute and
  \<open>b\<close> calls after it.\<close>

definition workable :: "os_env \<Rightarrow> nat \<Rightarrow> el_app \<Rightarrow> rh_proc \<Rightarrow> bool" where
  "workable os b s srv \<longleftrightarrow> attached_to os (b + 1120) s srv \<and> meters_fair s \<and> statis_ok s
     \<and> (\<forall>m < 128. metered (g_ParaMet s) m \<longrightarrow> readable srv m) \<and> \<not> has_level (g_ParaMet s) 4
     \<and> result_fields srv (g_ParaMet s)"

lemma minute_works:
  assumes "workable os b s srv" and "scheduled runs" and "60 < nTicks s"
  shows "\<exists>s' srv'. elTaskProc os (server_env os runs) s (Inr srv) = Inr (s', Inr srv', True)
     \<and> nTicks s' = 1 \<and> meters_fair s' \<and> statis_ok s' \<and> attached_to os b s' srv' \<and> g_ParaMet s' = g_ParaMet s
     \<and> (\<forall>m i. metered (g_ParaMet s) m \<and> i < 8 \<longrightarrow> served srv m i = Some (value_of i (s_MetData s' ! m)))
     \<and> (\<forall>m < 128. \<forall>i < 8. value_of i (s_MetDataBak s' ! m) = backup (served srv) s m i)
     \<and> (\<forall>l < 4. \<forall>i < 8. value_of i (s_EneUseUp s' ! l) = counted (served srv) s l i)
     \<and> (\<forall>l < 4. \<forall>p < 4. unit_at s' l p = loss s' l p (unit_at s l p))
     \<and> oop_field (dp_mem srv') = oop_field (dp_mem srv)
     \<and> mem_cells (dp_mem srv') =
         fst (ref_run (oop_field (dp_mem srv)) (mem_cells (dp_mem srv)) (save_puts (g_ParaMet s) (elStatis s')))"
proof -
  have w: "attached_to os (b + 96 + 8 * length [0 ..< 128 :: nat]) s srv" "meters_fair s" "statis_ok s"
    "list_all (\<lambda>m. m < 128 \<and> (metered (g_ParaMet s) m \<longrightarrow> readable srv m)) [0 ..< 128]"
    "\<not> has_level (g_ParaMet s) 4" "result_fields srv (g_ParaMet s)"
    using assms(1) by (simp_all add: workable_def list_all_iff add.assoc)
  from update_meters_through [OF w(1,2) assms(2) w(4)] obtain s1 srv1 where
    1: "meter_data_update os (server_env os runs) s (Inr srv) = Inr (s1, Inr srv1)"
    and u: "updated os (b + 96) srv (taken (g_ParaMet s) [0 ..< 128]) s (s1, Inr srv1)"
    unfolding meter_data_update_def MAX_MET_NUM_def by (fastforce simp: updated_def split: prod.splits)
  from u have u': "dp_mem srv1 = dp_mem srv" "attached_to os (b + 96) s1 srv1" "meters_fair s1" "same_paras s s1"
    and took: "took (served srv) {(m, i). m \<in> set [0 ..< 128] \<and> i < 8 \<and> metered (g_ParaMet s) m} s s1"
    by (auto simp: updated_def set_taken)
  have "updated os (b + 96) srv (taken (g_ParaMet s) [0 ..< 128]) s (s1, Inr srv1)" using u by simp
  note counts = updated_counts [OF this w(2)]
  have p: "g_ParaMet s1 = g_ParaMet s" "elStatis s1 = elStatis s" "nTicks s1 = nTicks s"
    using u'(4) by (cases s; cases s1; simp add: same_paras_def)+
  have ok: "meters_ok s1" "statis_ok s1" using u'(3) w(3) p by (simp_all add: meters_fair_def statis_ok_def)
  from statis_proc_ok [OF ok] w(5) p(1) obtain s2 where 2: "el_statis_proc s1 = Inr s2"
    and rec: "records s1 ({0 ..< 4} \<times> {0 ..< 4}) s2" by auto
  have sb: "same_but_statis s1 s2" "statis_ok s2" using rec by (simp_all add: records_def)
  note same = same_but_statis_simps [OF sb(1)]
  have dat: "s_MetData s2 = s_MetData s1" "s_MetDataBak s2 = s_MetDataBak s1"
    using sb(1) unfolding same_but_statis_def by (metis el_app.surjective el_app.update_convs(1) meters.select_convs(3,4))+
  then have fair2: "meters_fair s2" "s_MetData s2 = s_MetData s1" "meters_ok s2"
    using u'(3) same dat by (simp_all add: meters_fair_def)
  have "attached_to os (b + 96) s2 srv1" using u'(2) same by (simp add: attached_to_def)
  moreover have "result_fields srv1 (g_ParaMet s2)"
    using w(6) same(1) p(1) u'(1) unfolding result_fields_def savable_def by simp
  ultimately obtain s3 srv3 where 3: "el_statis_save os (server_env os runs) s2 (Inr srv1) = Inr (s3, Inr srv3)"
    and wr: "wrote os b srv1 (save_puts (g_ParaMet s2) (elStatis s2)) s2 (s3, Inr srv3)"
    using statis_save_through [OF _ fair2(3) sb(2) save_savable assms(2)] wrote_cases by metis
  let ?s = "s3\<lparr>nTicks := 1\<rparr>"
  have s3: "s3 = s2\<lparr>mt_db := mt_db s3\<rparr>" using wr by (simp add: wrote_def)
  have keep: "g_ParaMet s3 = g_ParaMet s2" "s_EneUseUp s3 = s_EneUseUp s2" "s_MetData s3 = s_MetData s2"
    "s_MetDataBak s3 = s_MetDataBak s2" "elStatis s3 = elStatis s2"
    by (subst s3, simp)+
  have "elTaskProc os (server_env os runs) s (Inr srv) = Inr (?s, Inr srv3, True)"
    using 1 2 3 assms(3) by (simp add: elTaskProc_def addi_def)
  moreover have "meters_fair ?s" "statis_ok ?s" "attached_to os b ?s srv3"
    using fair2 sb(2) wr keep by (simp_all add: meters_fair_def meters_ok_def statis_ok_def wrote_def attached_to_def)
  moreover have "served srv m i = Some (value_of i (s_MetData ?s ! m))" if "metered (g_ParaMet s) m" "i < 8" for m i
    using that took fair2(2) keep by (auto simp: took_def metered_def)
  moreover have "s_MetDataBak ?s = s_MetDataBak s1" "s_EneUseUp ?s = s_EneUseUp s1"
    using keep same(2) dat(2) by simp_all
  moreover have "unit_at ?s l p = loss ?s l p (unit_at s l p)" if "l < 4" "p < 4" for l p
  proof -
    have "unit_at s2 l p = loss s1 l p (unit_at s1 l p)" using rec that by (simp add: records_def)
    moreover have "loss ?s l p = loss s1 l p"
      using same(1,2) keep by (simp add: fun_eq_iff loss_def used_def)
    ultimately show ?thesis using keep(5) p(2) by (simp add: unit_at_def)
  qed
  ultimately show ?thesis
    using wr keep u'(1) same(1) p(1) counts by (intro exI [of _ ?s] exI [of _ srv3]) (simp add: wrote_def)
qed

section \<open>The start\<close>

lemma app_starts:
  assumes "para_doc d num ns" and "list_all2 describes ns ps" and "int (length ns) \<le> num"
    and "list_all (\<lambda>p. p_index p < 128) ps" and "distinct (map p_index ps)" and "os_ok os" and "lock_malloc_ok os"
  shows "\<exists>s'. el_init os (Some d) s = Inr (s', pthread_create_ok os, pthread_create_ok os)
     \<and> meters_fair s' \<and> statis_ok s' \<and> nTicks s' = nTicks s
     \<and> mt_db s' = (mt_db s)\<lparr>dp_chan := attached (dp_chan (mt_db s))\<rparr>
     \<and> s_EneUseUp s' = replicate 4 zero_block \<and> s_MetDataBak s' = replicate 128 zero_block
     \<and> (\<forall>l < 4. \<forall>p < 4. unit_at s' l p = zero_unit)
     \<and> (\<forall>p \<in> set ps. port_of (g_ParaMet s') (p_index p) = p_port p \<and> level_of (g_ParaMet s') (p_index p) = word_of_int (p_level p))
     \<and> (\<forall>m < 128. m \<notin> p_index ` set ps \<longrightarrow> port_of (g_ParaMet s') m = 0)"
proof -
  from parameters_loaded [OF assms(1-5)] obtain mem where
    1: "meter_para_load (Some d) = Inr (mem, int (length ns))" and mem: "length mem = 6656"
    and ports: "\<forall>p \<in> set ps. port_of mem (p_index p) = p_port p \<and> level_of mem (p_index p) = word_of_int (p_level p)"
    and empty: "\<forall>m < 128. m \<notin> p_index ` set ps \<longrightarrow> EMPTY_METER mem (of_nat m) = Inr True" by blast
  have "\<forall>m < 128. m \<notin> p_index ` set ps \<longrightarrow> port_of mem m = 0"
    using empty EMPTY_METER_closed [OF mem] by simp
  moreover have "meters_fair (el_statis_init ((meter_data_init s)\<lparr>g_ParaMet := mem, mt_db := p\<rparr>))" for p
    using meters_init_fair [of s] mem by (simp add: meters_fair_def meters_ok_def el_statis_init_def)
  ultimately show ?thesis
    using 1 ports el_start_closed [OF assms(6,7)]
    by (simp add: el_init_def Let_def) (simp add: statis_ok_def el_statis_init_def unit_at_def meter_data_init_def list_all_iff)
qed

lemma has_level_used: "has_level mem l \<longleftrightarrow> (\<exists>m < 128. port_of mem m \<noteq> 0 \<and> unat (level_of mem m) = l)"
  by (auto simp: has_level_def has_meter_def)

end
