(* ===== verification/ElMinute.thy ===== *)
theory ElMinute
  imports ElService
begin

text \<open>
  The properties of the energy-loss application at work: its start, one minute of the task beside
  the data server, the recorded line loss, and when the task works; with an example server.
\<close>

section \<open>An example\<close>

text \<open>
  A server whose memory has, for the points 1 and 2, the eight energies, all 2.5, and the fields of
  the results, 4 bytes each.
\<close>

definition demo_ids :: "u32 list" where
  "demo_ids = DI_ENERGY @ concat (map (\<lambda>p. map fst (unit_writes zero_unit p)) [0 ..< 4])"

definition demo_units :: "DOTTYPE_DO_UNIT_T list" where
  "demo_units = map (\<lambda>k. demo_unit (of_nat (Suc k)) (4 * int k) 4) [0 ..< 32]"

definition demo_object :: IED_DO_LIST_T where
  "demo_object =
     \<lparr>dl_do_tag = [111, 0], dl_itemid = 0, dl_offset = 0, dl_dotTypeLen = 0, dl_nNum = 32,
      dl_pDotList_104 = Some demo_units, dl_pDotList_698 = Some demo_units\<rparr>"

definition demo_device :: "u16 \<Rightarrow> u32 \<Rightarrow> IED_LIST_T" where
  "demo_device nPn off = \<lparr>ied_tag = [100, 0], ied_nPn = nPn, ied_lock = Unlocked, ied_nNum = 1,
     ied_pDoList = Some [demo_object\<lparr>dl_offset := off\<rparr>]\<rparr>"

definition demo_items :: "ID_ITEM_T list" where
  "demo_items = map (\<lambda>k. \<lparr>id_id = demo_ids ! k, id_do_tag = [111, 0], id_dotype_tag = [of_nat (Suc k), 0]\<rparr>) [0 ..< 32]"

definition service_mem :: mem_state where
  "service_mem =
     \<lparr>s_pointMap = zero_pointMap\<lparr>id_list := \<lparr>il_nNum = 32, il_pItem = Some demo_items\<rparr>\<rparr>,
      s_memMap = \<lparr>mm_nNum = 2, mm_pIedList = Some [demo_device 1 0, demo_device 2 128]\<rparr>,
      s_pDataMem = Some (concat (replicate 64 [0, 0, 0x20, 0x40]))\<rparr>"

lemma find_ix_upt:
  assumes "k < n" and "\<And>j. j < n \<Longrightarrow> q (f j) \<longleftrightarrow> j = k"
  shows "find_ix q (map f [0 ..< n]) = Some k"
proof -
  have "list_ex q (map f [0 ..< n])" using assms by (auto simp: list_ex_iff)
  then obtain i where i: "find_ix q (map f [0 ..< n]) = Some i" by (simp add: find_ix_def)
  from find_ix_Some [OF i] have n: "i < n" by simp
  with find_ix_Some [OF i] have "q (f i)" by simp
  with n show ?thesis using assms(2) i by simp
qed

lemma demo_ids: "distinct demo_ids" "length demo_ids = 32"
  by code_simp+

lemma demo_tag: "j < 32 \<Longrightarrow> k < 32 \<Longrightarrow> ccont [of_nat (Suc k), 0 :: u8] = ccont [of_nat (Suc j), 0] \<longleftrightarrow> j = k"
proof -
  assume "j < 32" "k < 32"
  then have u: "unat (of_nat (Suc j) :: u8) = Suc j" "unat (of_nat (Suc k) :: u8) = Suc k"
    by (simp_all add: unat_of_nat take_bit_nat_eq_self del: of_nat_Suc)
  then have "(of_nat (Suc j) :: u8) \<noteq> 0" "(of_nat (Suc k) :: u8) \<noteq> 0" by (auto simp del: of_nat_Suc)
  then show ?thesis using u by (auto simp: ccont_def simp del: of_nat_Suc dest: arg_cong [where f = unat])
qed

lemma demo_units_elem: "u \<in> set demo_units \<Longrightarrow> wf_unit u \<and> 0 \<le> du_offset u \<and> du_offset u \<le> 124 \<and> du_dataLen u = 4"
  by (auto simp: demo_units_def demo_unit_def wf_unit_def terminated_def)

lemma demo_items_elem: "x \<in> set demo_items \<Longrightarrow> wf_id x"
  by (auto simp: demo_items_def wf_id_def terminated_def)

lemma demo_lengths [simp]: "length demo_units = 32" "length demo_items = 32"
  by (simp_all add: demo_units_def demo_items_def)

lemma service_mem: "valid_mem service_mem"
proof -
  have "table wf_unit (Some demo_units) 32" using demo_units_elem by (simp add: table_def list_all_iff)
  then have o: "wf_do (demo_object\<lparr>dl_offset := off\<rparr>)" for off
    by (simp add: wf_do_def demo_object_def terminated_def)
  have "table wf_id (Some demo_items) 32" using demo_items_elem by (simp add: table_def list_all_iff)
  with o have "wf_mem service_mem"
    by (simp add: wf_mem_def service_mem_def wf_ied_def demo_device_def terminated_def table_def)
  moreover have "do_fits 256 (demo_object\<lparr>dl_offset := off\<rparr>)" if "uint off \<le> 128" for off
    using that demo_units_elem by (fastforce simp: do_fits_def demo_object_def unit_fits_def data_addr_def list_all_iff elems_def)
  ultimately show ?thesis
    by (simp add: valid_mem_def ieds_free_def service_mem_def demo_device_def index_fits_def elems_def length_concat sum_list_replicate)
qed

lemma service_fields:
  assumes "k < 32"
  shows "oop_field service_mem (1, demo_ids ! k) = Some (4 * k, 4)"
    and "oop_field service_mem (2, demo_ids ! k) = Some (128 + 4 * k, 4)"
proof -
  have a: "find_ix (\<lambda>it. demo_ids ! k = id_id it) demo_items = Some k"
    unfolding demo_items_def by (rule find_ix_upt [OF assms]) (use demo_ids assms in \<open>auto simp: nth_eq_iff_index_eq\<close>)
  have b: "find_ix (\<lambda>u. ccont [of_nat (Suc k), 0] = ccont (du_dotype_tag u)) demo_units = Some k"
    unfolding demo_units_def by (rule find_ix_upt [OF assms]) (use demo_tag assms in \<open>auto simp: demo_unit_def simp del: of_nat_Suc\<close>)
  have c: "find_ix (\<lambda>d. ccont [111, 0] = ccont (dl_do_tag d)) [demo_object\<lparr>dl_offset := off\<rparr>] = Some 0" for off
    by (simp add: find_ix_def demo_object_def)
  have d: "find_ix (\<lambda>d. 1 = ied_nPn d) [demo_device 1 0, demo_device 2 128] = Some 0"
    "find_ix (\<lambda>d. 2 = ied_nPn d) [demo_device 1 0, demo_device 2 128] = Some 1"
    by (simp_all add: find_ix_def demo_device_def)
  have e: "id_do_tag (demo_items ! k) = [111, 0]" "id_dotype_tag (demo_items ! k) = [of_nat (Suc k), 0]"
    "demo_units ! k = demo_unit (of_nat (Suc k)) (4 * int k) 4"
    using assms by (simp_all add: demo_items_def demo_units_def del: upt_rec_numeral)
  have o: "ied_pDoList (demo_device n off) = Some [demo_object\<lparr>dl_offset := off\<rparr>]"
    "dl_pDotList_698 (demo_object\<lparr>dl_offset := off\<rparr>) = Some demo_units" for n off
    by (simp_all add: demo_device_def demo_object_def)
  have r: "oop_field service_mem (nPn, demo_ids ! k) = Some (unat off + 4 * k, 4)"
    if "find_ix (\<lambda>d. nPn = ied_nPn d) [demo_device 1 0, demo_device 2 128] = Some i"
      and "[demo_device 1 0, demo_device 2 128] ! i = demo_device n off" for nPn i n off
  proof -
    have "nat (uint off + 4 * int k) = unat off + 4 * k"
      unfolding uint_nat by linarith
    then show ?thesis
      using that a b c e o
      by (simp add: oop_field_def oop_lookup_def service_mem_def Let_def data_addr_def demo_unit_def elems_def del: of_nat_Suc)
  qed
  show "oop_field service_mem (1, demo_ids ! k) = Some (4 * k, 4)" using r [OF d(1), of 1 0] by simp
  show "oop_field service_mem (2, demo_ids ! k) = Some (128 + 4 * k, 4)" using r [OF d(2), of 2 128] by simp
qed

lemma demo_windows: "k \<le> n \<Longrightarrow> drop (length xs * k) (concat (replicate n xs)) = concat (replicate (n - k) xs)"
proof (induction k arbitrary: n)
  case (Suc k)
  then show ?case by (cases n) simp_all
qed simp

definition service :: rh_proc where
  "service = \<lparr>dp_chan = demo_chan idle_box, dp_seq = 0, dp_mem = service_mem\<rparr>"

lemma service_ready: "ready good_os service"
  using service_mem by (simp add: ready_def service_def good_os_ok)

lemma demo_energy: "i < 8 \<Longrightarrow> DI_ENERGY ! i = demo_ids ! i"
proof -
  assume "i < 8"
  moreover have "length DI_ENERGY = 8" by (simp add: DI_ENERGY_def)
  ultimately show ?thesis by (simp add: demo_ids_def nth_append)
qed

lemma service_served:
  assumes "m = 1 \<or> m = 2" and "i < 8"
  shows "served service m i = Some (B32 0x40200000)"
proof -
  let ?v = "[0, 0, 0x20, 0x40] :: u8 list"
  have "mem_cells service_mem = concat (replicate 64 ?v)" by (simp add: service_mem_def mem_cells_def)
  then have w: "take 4 (drop (4 * k) (mem_cells service_mem)) = ?v" if k: "k < 64" for k
  proof -
    have four: "Suc (Suc (Suc (Suc 0))) = 4" by simp
    obtain n where "64 - k = Suc n" using k by (cases "64 - k") simp_all
    then have "drop (4 * k) (concat (replicate 64 ?v)) = ?v @ concat (replicate n ?v)"
      using demo_windows [of k 64 ?v] k by (simp del: mult_Suc mult_Suc_right add: four)
    then show ?thesis using \<open>mem_cells service_mem = _\<close> by simp
  qed
  have f: "bytes_float ?v = B32 0x40200000" by code_simp
  have k: "i < 32" using assms(2) by simp
  show ?thesis
    using assms(1)
  proof
    assume "m = 1"
    then show ?thesis using service_fields(1) [OF k] w [of i] f k
      by (simp add: served_def service_def demo_energy [OF assms(2)])
  next
    assume "m = 2"
    moreover have "128 + 4 * i = 4 * (32 + i)" by simp
    ultimately show ?thesis using service_fields(2) [OF k] w [of "32 + i"] f k
      by (simp add: served_def service_def demo_energy [OF assms(2)])
  qed
qed

lemma service_savable:
  assumes "m = 1 \<or> m = 2" and "p < 4"
  shows "list_all (savable service) (puts m (unit_writes zero_unit p))"
proof -
  have c: "length (mem_cells service_mem) = 256" by (simp add: service_mem_def mem_cells_def length_concat sum_list_replicate)
  have "savable service (Put (of_nat m, di) bs)" if "(di, bs) \<in> set (unit_writes zero_unit p)" for di bs
  proof -
    have l: "length bs \<le> 4" using that by (auto simp: unit_writes_def)
    have "di \<in> set demo_ids" using that assms(2) by (force simp: demo_ids_def)
    then obtain k where "k < 32" "di = demo_ids ! k" using demo_ids(2) by (auto simp: in_set_conv_nth)
    then show ?thesis using service_fields [of k] assms(1) l c by (auto simp: savable_def service_def)
  qed
  then show ?thesis by (auto simp: puts_def list_all_iff)
qed

text \<open>The application, started on \<^verbatim>\<open>bin/meter.xml\<close> beside that server, when its minute is over.\<close>

definition app_before :: el_app where
  "app_before = \<lparr>g_ParaMet = [], s_EneUseUp = [], s_MetData = [], s_MetDataBak = [], mt_db = demo_client, elStatis = [], nTicks = 61\<rparr>"

lemma shipped_list: "list_all (\<lambda>p. p_index p < 128) shipped_meters" "distinct (map p_index shipped_meters)"
  "int (length shipped_paras) \<le> 2" "p_index ` set shipped_meters = {1, 2}"
  by (auto simp: shipped_meters_def shipped_paras_def)

lemma shipped_doc: "para_doc (para_xml ''2'' shipped_paras) 2 shipped_paras"
  by (rule para_xml_doc) (simp_all add: scan_digits)

lemma good_os_simps: "lock_malloc_ok good_os" "pthread_create_ok good_os"
  by (simp_all add: good_os_def)

lemma app_started:
  "\<exists>s. el_init good_os (Some (para_xml ''2'' shipped_paras)) app_before = Inr (s, True, True)
     \<and> workable good_os 2240 s service \<and> nTicks s = 61
     \<and> s_EneUseUp s = replicate 4 zero_block \<and> s_MetDataBak s = replicate 128 zero_block
     \<and> (\<forall>l < 4. \<forall>p < 4. unit_at s l p = zero_unit)
     \<and> (\<forall>m < 128. port_of (g_ParaMet s) m \<noteq> 0 \<longleftrightarrow> m = 1 \<or> m = 2)
     \<and> level_of (g_ParaMet s) 1 = 0 \<and> level_of (g_ParaMet s) 2 = 1"
proof -
  from app_starts [OF shipped_doc shipped_described shipped_list(3,1,2) good_os_ok good_os_simps(1), of app_before]
  obtain s where s: "el_init good_os (Some (para_xml ''2'' shipped_paras)) app_before = Inr (s, True, True)"
    "meters_fair s" "statis_ok s" "nTicks s = 61" "mt_db s = demo_client\<lparr>dp_chan := attached (dp_chan demo_client)\<rparr>"
    "s_EneUseUp s = replicate 4 zero_block" "s_MetDataBak s = replicate 128 zero_block" "\<forall>l < 4. \<forall>p < 4. unit_at s l p = zero_unit"
    and p: "\<forall>p \<in> set shipped_meters. port_of (g_ParaMet s) (p_index p) = p_port p \<and> level_of (g_ParaMet s) (p_index p) = word_of_int (p_level p)"
    and e: "\<forall>m < 128. m \<notin> p_index ` set shipped_meters \<longrightarrow> port_of (g_ParaMet s) m = 0"
    by (auto simp: good_os_simps app_before_def)
  have lev: "level_of (g_ParaMet s) 1 = 0" "level_of (g_ParaMet s) 2 = 1" using p by (simp_all add: shipped_meters_def)
  have m12: "m = 1 \<or> m = 2" if "m < 128" "port_of (g_ParaMet s) m \<noteq> 0" for m
    using e that unfolding shipped_list(4) by blast
  have "client_ok (mt_db s)" "dp_seq (mt_db s) = 0" using s(5) demo_pair(1,3) by (simp_all add: client_ok_def)
  then have "attached_to good_os (2240 + 1120) s service" using service_ready by (simp add: attached_to_def)
  moreover have "readable service m" if "metered (g_ParaMet s) m" for m
  proof -
    have "m = 1 \<or> m = 2" using m12 that by (simp add: metered_def)
    moreover have "fair (B32 0x40200000)" by (simp add: fair_def pos_def neg_def is_nan_def upat_def inf_pat_def)
    ultimately show ?thesis using service_served by (simp add: readable_def)
  qed
  moreover have "\<not> has_level (g_ParaMet s) 4"
  proof
    assume "has_level (g_ParaMet s) 4"
    then obtain m where "m < 128" "port_of (g_ParaMet s) m \<noteq> 0" "unat (level_of (g_ParaMet s) m) = 4"
      by (auto simp: has_level_used)
    with m12 [of m] lev show False by auto
  qed
  moreover have "result_fields service (g_ParaMet s)"
    using m12 service_savable level_meter_Some unfolding result_fields_def has_meter_def by blast
  moreover have "port_of (g_ParaMet s) 1 \<noteq> 0" "port_of (g_ParaMet s) 2 \<noteq> 0" using p by (simp_all add: shipped_meters_def)
  ultimately show ?thesis using s lev m12 by (auto simp: workable_def)
qed

lemma app_workable:
  "\<exists>s. el_init good_os (Some (para_xml ''2'' shipped_paras)) app_before = Inr (s, True, True)
     \<and> workable good_os 2240 s service \<and> nTicks s = 61 \<and> has_level (g_ParaMet s) 1"
proof -
  obtain s where "el_init good_os (Some (para_xml ''2'' shipped_paras)) app_before = Inr (s, True, True)"
    "workable good_os 2240 s service" "nTicks s = 61" and p: "\<forall>m < 128. port_of (g_ParaMet s) m \<noteq> 0 \<longleftrightarrow> m = 1 \<or> m = 2"
    and "level_of (g_ParaMet s) 2 = 1" using app_started by blast
  moreover have "port_of (g_ParaMet s) 2 \<noteq> 0" using p by simp
  ultimately have "has_level (g_ParaMet s) 1" unfolding has_level_used by (intro exI [of _ 2]) simp
  with \<open>workable good_os 2240 s service\<close> \<open>nTicks s = 61\<close> \<open>el_init _ _ _ = _\<close> show ?thesis by blast
qed

section \<open>Iterations of the task\<close>

fun task_run ::
  "os_env \<Rightarrow> 'w tick_env \<Rightarrow> nat \<Rightarrow> el_app \<Rightarrow> 'w \<Rightarrow> (el_app \<times> 'w \<times> bool list) res" where
  "task_run os env 0 s w = Inr (s, w, [])"
| "task_run os env (Suc n) s w =
     bindR (elTaskProc os env s w) (\<lambda>(s, w, b).
     bindR (task_run os env n s w) (\<lambda>(s, w, bs). Inr (s, w, b # bs)))"

lemma task_ticks:
  "elTaskProc os env s w = Inr (s', w', b) \<Longrightarrow> b = (60 < nTicks s) \<and> nTicks s' = (if b then 1 else nTicks s + 1)"
  by (auto simp: elTaskProc_def bindR_eq_Inr addi_eq_Inr split: if_splits)

definition ticks_at :: "nat \<Rightarrow> nat" where
  "ticks_at i = (if i = 0 then 0 else (i - 1) mod 61 + 1)"

lemma ticks_at_works: "60 < ticks_at i \<longleftrightarrow> 0 < i \<and> i mod 61 = 0"
  by (cases i) (auto simp: ticks_at_def mod_Suc)

lemma ticks_at_Suc: "ticks_at (Suc i) = (if 60 < ticks_at i then 1 else ticks_at i + 1)"
  by (cases i) (auto simp: ticks_at_def mod_Suc)

lemma task_run_flags:
  "task_run os env n s w = Inr (s', w', bs) \<Longrightarrow> nTicks s = int (ticks_at i) \<Longrightarrow>
     bs = map (\<lambda>k. 0 < k \<and> k mod 61 = 0) [i ..< i + n]"
proof (induction n arbitrary: s w i bs)
  case (Suc n)
  then obtain s1 w1 b bs1 where 1: "elTaskProc os env s w = Inr (s1, w1, b)"
    and 2: "task_run os env n s1 w1 = Inr (s', w', bs1)" and bs: "bs = b # bs1" by (auto simp: bindR_eq_Inr)
  have b: "b \<longleftrightarrow> 60 < ticks_at i" using task_ticks [OF 1] Suc.prems(2) by simp
  then have "nTicks s1 = int (ticks_at (Suc i))" using task_ticks [OF 1] Suc.prems(2) by (simp add: ticks_at_Suc)
  from Suc.IH [OF 2 this] show ?case
    using b ticks_at_works [of i] by (simp add: bs upt_conv_Cons del: upt_Suc)
qed simp

section \<open>Properties\<close>

text \<open>
  C23: the start of the energy-loss application on a complete configuration: \<^verbatim>\<open>el_init\<close> returns with
  both threads started, the parameters of exactly the listed meters, no energy counted, zeroed
  results, an idle mailbox and a free mutex; readings and backups are values the task accepts.
\<close>

theorem application_start:
  assumes "para_doc d num ns" and "list_all2 describes ns ps" and "int (length ns) \<le> num"
    and "list_all (\<lambda>p. p_index p < 128) ps" and "distinct (map p_index ps)" and "os_ok os" and "lock_malloc_ok os"
  shows "\<exists>s'. el_init os (Some d) s = Inr (s', pthread_create_ok os, pthread_create_ok os)
     \<and> meters_fair s' \<and> statis_ok s' \<and> nTicks s' = nTicks s
     \<and> mt_db s' = (mt_db s)\<lparr>dp_chan := attached (dp_chan (mt_db s))\<rparr>
     \<and> s_EneUseUp s' = replicate 4 zero_block \<and> s_MetDataBak s' = replicate 128 zero_block
     \<and> (\<forall>l < 4. \<forall>p < 4. unit_at s' l p = zero_unit)
     \<and> (\<forall>p \<in> set ps. port_of (g_ParaMet s') (p_index p) = p_port p \<and> level_of (g_ParaMet s') (p_index p) = word_of_int (p_level p))
     \<and> (\<forall>m < 128. m \<notin> p_index ` set ps \<longrightarrow> port_of (g_ParaMet s') m = 0)"
  using assms by (rule app_starts)

theorem application_start_witness:
  "\<exists>s'. el_init good_os (Some (para_xml ''2'' shipped_paras)) app_before = Inr (s', True, True)
     \<and> meters_fair s' \<and> level_of (g_ParaMet s') 2 = 1"
  using application_start [OF shipped_doc shipped_described shipped_list(3,1,2) good_os_ok good_os_simps(1), of app_before]
  by (auto simp: good_os_simps shipped_meters_def)

text \<open>
  C3: one minute beside the data server: when the server serves the meters in use and has the fields
  of the results, the task reads every quantity of every such meter as it is in the server's data
  memory, adds what each has used since its backup to the accumulator of its level, in the order
  of the meters, records the losses computed from these, and leaves the memory as a
  reference that writes these results, in the order of levels and phases, to the fields of the
  first meter of each level; it starts counting again.
\<close>

theorem minute_beside_server:
  assumes "workable os b s srv" and "scheduled runs" and "60 < nTicks s"
  shows "\<exists>s' srv'. elTaskProc os (server_env os runs) s (Inr srv) = Inr (s', Inr srv', True)
     \<and> nTicks s' = 1 \<and> meters_fair s' \<and> statis_ok s' \<and> attached_to os b s' srv' \<and> g_ParaMet s' = g_ParaMet s
     \<and> (\<forall>m i. metered (g_ParaMet s) m \<and> i < 8 \<longrightarrow> served srv m i = Some (value_of i (s_MetData s' ! m)))
     \<and> (\<forall>m < 128. \<forall>i < 8. value_of i (s_MetDataBak s' ! m) = backup (served srv) s m i)
     \<and> (\<forall>l < 4. \<forall>i < 8. value_of i (s_EneUseUp s' ! l) = counted (served srv) s l i)
     \<and> (\<forall>l < 4. \<forall>p < 4. unit_at s' l p = loss s' l p (unit_at s l p))
     \<and> oop_field (dp_mem srv') = oop_field (dp_mem srv)
     \<and> mem_cells (dp_mem srv') =
         fst (ref_run (oop_field (dp_mem srv)) (mem_cells (dp_mem srv)) (save_puts (g_ParaMet s) (elStatis s')))"
  using assms by (rule minute_works)

theorem minute_beside_server_witness:
  "\<exists>s s' srv'. el_init good_os (Some (para_xml ''2'' shipped_paras)) app_before = Inr (s, True, True)
     \<and> elTaskProc good_os (server_env good_os (\<lambda>_. 1)) s (Inr service) = Inr (s', Inr srv', True) \<and> nTicks s' = 1"
proof -
  obtain s where s: "el_init good_os (Some (para_xml ''2'' shipped_paras)) app_before = Inr (s, True, True)"
    "workable good_os 2240 s service" "nTicks s = 61" using app_workable by blast
  from minute_beside_server [OF s(2) demo_pair(5)] s(1,3) show ?thesis by auto
qed

text \<open>
  C4: the recorded line loss: with no meter of level 4, \<^verbatim>\<open>el_statis_proc\<close> returns and changes exactly
  the phases for which the next level has a meter and this level has used energy; for a finite
  energy the loss is at most 100 per cent, not negative if the next level used no more, and not
  positive if it used more.
\<close>

theorem line_loss_recorded:
  assumes "meters_ok s" and "statis_ok s" and "\<not> has_level (g_ParaMet s) 4"
  shows "\<exists>s'. el_statis_proc s = Inr s' \<and> same_but_statis s s'
     \<and> (\<forall>l < 4. \<forall>p < 4. unit_at s' l p = loss s l p (unit_at s l p)
         \<and> (has_level (g_ParaMet s) (Suc l) \<and> 0 < used s l p \<and> is_fin (used s l p) \<longrightarrow>
              nRatio (unit_at s' l p) \<le> of_int32 100
            \<and> (used s (Suc l) p \<le> used s l p \<longrightarrow> 0 \<le> nRatio (unit_at s' l p))
            \<and> (used s l p < used s (Suc l) p \<longrightarrow> nRatio (unit_at s' l p) \<le> 0)))"
proof -
  obtain s' where s': "el_statis_proc s = Inr s'" "records s ({0 ..< 4} \<times> {0 ..< 4}) s'"
    using statis_proc_ok [OF assms] by blast
  have u: "unit_at s' l p = loss s l p (unit_at s l p)" if "l < 4" "p < 4" for l p
    using s'(2) that by (simp add: records_def)
  have "nRatio (loss s l p v) \<le> of_int32 100 \<and> (used s (Suc l) p \<le> used s l p \<longrightarrow> 0 \<le> nRatio (loss s l p v))
      \<and> (used s l p < used s (Suc l) p \<longrightarrow> nRatio (loss s l p v) \<le> 0)"
    if "l < 4" "p < 4" "has_level (g_ParaMet s) (Suc l)" "0 < used s l p" "is_fin (used s l p)" for l p v
  proof -
    have "l \<noteq> 3" using assms(3) that(3) by (cases "l = 3") simp_all
    then have "Suc l < 4" using that(1) by simp
    then have pos: "pos (used s l p)" "pos (used s (Suc l) p)" using used_pos [OF assms(1)] that(1,2) by simp_all
    show ?thesis using percent_bounds [OF pos(1) that(5,4) pos(2)] that(3,4) by (simp add: loss_def)
  qed
  with u s' show ?thesis by (intro exI [of _ s']) (simp add: records_def)
qed

definition ten_nine :: "MET_ENERGY_BLOCK_T list" where
  "ten_nine = [set_member 0 (B32 0x41200000) zero_block, set_member 0 (B32 0x41100000) zero_block, zero_block, zero_block]"

lemma ten_nine: "length ten_nine = 4" "list_all pos_block ten_nine" "value_of 0 (ten_nine ! 0) = B32 0x41200000"
  "value_of 0 (ten_nine ! 1) = B32 0x41100000"
proof -
  have "pos (B32 0x41200000)" "pos (B32 0x41100000)" by (simp_all add: pos_def neg_def is_nan_def upat_def inf_pat_def)
  then show "list_all pos_block ten_nine" by (simp add: ten_nine_def pos_zero_block pos_set_member)
  have "wf_block zero_block" using pos_zero_block by (simp add: pos_block_def)
  then show "value_of 0 (ten_nine ! 0) = B32 0x41200000" "value_of 0 (ten_nine ! 1) = B32 0x41100000"
    by (simp_all add: ten_nine_def value_set_member)
qed (simp add: ten_nine_def)

text \<open>With 10 supplied and 9 arrived the loss is 10 per cent.\<close>

theorem line_loss_recorded_witness:
  "\<exists>s s'. el_statis_proc s = Inr s' \<and> used s 0 0 = B32 0x41200000 \<and> used s 1 0 = B32 0x41100000
     \<and> nRatio (unit_at s' 0 0) = B32 0x41200000 \<and> nRatio (unit_at s' 0 0) \<le> of_int32 100"
proof -
  obtain s0 where s0: "workable good_os 2240 s0 service" "has_level (g_ParaMet s0) 1" using app_workable by blast
  define s where "s = s0\<lparr>s_EneUseUp := ten_nine\<rparr>"
  have s: "meters_ok s" "statis_ok s" "\<not> has_level (g_ParaMet s) 4" "has_level (g_ParaMet s) 1"
    using s0 ten_nine(1,2) by (simp_all add: s_def workable_def meters_fair_def meters_ok_def statis_ok_def)
  have u: "used s 0 0 = B32 0x41200000" "used s 1 0 = B32 0x41100000" using ten_nine(3,4) by (simp_all add: used_def s_def)
  have r: "(B32 0x41200000 - B32 0x41100000) div B32 0x41200000 * of_int32 100 = B32 0x41200000"
    "is_fin (B32 0x41200000)" by (simp_all add: float_eval)
  have g: "0 < B32 0x41200000"
    by (simp add: less_binary32_def units_def mag_def neg_def is_nan_def upat_def inf_pat_def zero_binary32_def)
  from line_loss_recorded [OF s(1-3)] obtain s' where "el_statis_proc s = Inr s'"
    and "unit_at s' 0 0 = loss s 0 0 (unit_at s 0 0)" "nRatio (unit_at s' 0 0) \<le> of_int32 100"
    using s(4) u(1) r(2) g by (metis One_nat_def zero_less_numeral)
  then show ?thesis using u s(4) r(1) g by (intro exI [of _ s] exI [of _ s']) (simp add: loss_def)
qed

text \<open>
  a meter of level 4 is accepted by the loader and ends the task: as soon as level 3 has used
  energy in a phase, \<^verbatim>\<open>el_statis_proc\<close> reads behind the four accumulators.
\<close>

theorem level_four_meter_faults:
  assumes "meters_ok s" and "statis_ok s" and "has_level (g_ParaMet s) 4" and "p < 4" and "0 < used s 3 p"
  shows "el_statis_proc s = Inl OutOfBounds"
  using assms by (rule statis_proc_fault)

definition level_four :: para where
  "level_four = \<lparr>p_index = 1, p_addr = [], p_baud = 4, p_proto = 3, p_port = 0xF2010201, p_type = 4, p_level = 4\<rparr>"

theorem level_four_meter_faults_witness:
  "\<exists>s. g_ParaMet s = stored zero_ParaMet level_four \<and> el_statis_proc s = Inl OutOfBounds"
proof -
  obtain s0 where s0: "workable good_os 2240 s0 service" using app_workable by blast
  let ?use = "[zero_block, zero_block, zero_block, set_member 0 (B32 0x41200000) zero_block]"
  define s where "s = s0\<lparr>g_ParaMet := stored zero_ParaMet level_four, s_EneUseUp := ?use\<rparr>"
  have z: "length zero_ParaMet = 128 * 52" by (simp add: zero_ParaMet_def)
  have p: "p_index level_four < 128" "length (p_addr level_four) \<le> 15" by (simp_all add: level_four_def)
  have g: "0 < B32 0x41200000" "pos (B32 0x41200000)"
    by (simp_all add: less_binary32_def units_def mag_def pos_def neg_def is_nan_def upat_def inf_pat_def zero_binary32_def)
  have wf: "wf_block zero_block" using pos_zero_block by (simp add: pos_block_def)
  have "meters_ok s" "statis_ok s"
    using s0 length_stored [OF p z] g(2)
    by (simp_all add: s_def workable_def meters_fair_def meters_ok_def statis_ok_def pos_zero_block pos_set_member)
  moreover have "has_level (g_ParaMet s) 4"
    using stored_fields(1,2) [OF p z] unfolding has_level_used
    by (intro exI [of _ 1]) (simp add: s_def level_four_def)
  moreover have "0 < used s 3 0" using g(1) wf by (simp add: used_def s_def value_set_member eval_nat_numeral)
  ultimately have "el_statis_proc s = Inl OutOfBounds" using level_four_meter_faults [of s 0] by simp
  then show ?thesis by (intro exI [of _ s]) (simp add: s_def)
qed

text \<open>
  the task works in iteration 61, 122, ... and in no other: whatever the server does, as long as
  the iterations return.
\<close>

theorem task_works_every_61_iterations:
  assumes "task_run os env n s w = Inr (s', w', bs)" and "nTicks s = 0"
  shows "bs = map (\<lambda>k. 0 < k \<and> k mod 61 = 0) [0 ..< n]"
  using task_run_flags [OF assms(1), of 0] assms(2) by (simp add: ticks_at_def)

text \<open>Without meters the iterations return.\<close>

definition idle_app :: "el_app \<Rightarrow> bool" where
  "idle_app s \<longleftrightarrow> g_ParaMet s = zero_ParaMet \<and> meters_ok s \<and> statis_ok s \<and> 0 \<le> nTicks s \<and> nTicks s \<le> 61"

lemma no_level_zero: "\<not> has_level zero_ParaMet l"
  using empty_zero EMPTY_METER_closed [of zero_ParaMet] by (auto simp: has_level_used zero_ParaMet_def)

lemma idle_task:
  assumes "idle_app s"
  shows "\<exists>s' b. elTaskProc os env s w = Inr (s', w, b) \<and> idle_app s'"
proof (cases "60 < nTicks s")
  case False
  then show ?thesis using assms by (auto simp: elTaskProc_def addi_def idle_app_def meters_ok_def statis_ok_def)
next
  case True
  have s: "g_ParaMet s = zero_ParaMet" "meters_ok s" "statis_ok s" using assms by (simp_all add: idle_app_def)
  have z: "length zero_ParaMet = 6656" by (simp add: zero_ParaMet_def)
  have 1: "meter_data_update os env s w = Inr (s, w)"
    unfolding meter_data_update_def MAX_MET_NUM_def by (rule no_meters [OF s(1)]) (simp add: list_all_iff)
  obtain s1 where 2: "el_statis_proc s = Inr s1" and r: "same_but_statis s s1" "statis_ok s1"
    using statis_proc_ok [OF s(2,3)] s(1) no_level_zero by (auto simp: records_def)
  note same = same_but_statis_simps [OF r(1)]
  have "level_meter zero_ParaMet l = None" for l
    using level_meter_Some [of zero_ParaMet l] no_level_zero [of l] by (cases "level_meter zero_ParaMet l") (auto simp: has_level_def)
  then have "save_level os env l s1 w = Inr (s1, w)" if "l < 4" for l
    using find_level [OF z that] same(1) s(1) by (simp add: save_level_def MAX_MET_NUM_def)
  then have "save_levels os env ls s1 w = Inr (s1, w)" if "list_all (\<lambda>l. l < 4) ls" for ls
    using that by (induction ls) simp_all
  then have 3: "el_statis_save os env s1 w = Inr (s1, w)" by (simp add: el_statis_save_def METER_LEV_MAX_def list_all_iff)
  have "meters_ok s1" "g_ParaMet s1 = zero_ParaMet" using same s by simp_all
  then show ?thesis using 1 2 3 True r(2) by (auto simp: elTaskProc_def addi_def idle_app_def meters_ok_def statis_ok_def)
qed

lemma idle_run: "idle_app s \<Longrightarrow> \<exists>s' bs. task_run os env n s w = Inr (s', w, bs)"
proof (induction n arbitrary: s)
  case (Suc n)
  obtain s1 b where 1: "elTaskProc os env s w = Inr (s1, w, b)" "idle_app s1" using idle_task [OF Suc.prems, of os env w] by blast
  then show ?case using Suc.IH [OF 1(2)] by auto
qed simp

theorem task_works_every_61_iterations_witness:
  "\<exists>s s' bs. task_run good_os (\<lambda>k sw. sw) 123 s () = Inr (s', (), bs) \<and> bs ! 61 \<and> bs ! 122 \<and> \<not> bs ! 60"
proof -
  define s where "s = el_statis_init (meter_data_init (app_before\<lparr>nTicks := 0\<rparr>))"
  have z: "g_ParaMet s = zero_ParaMet" "nTicks s = 0" by (simp_all add: s_def el_statis_init_def meter_data_init_def app_before_def)
  have "idle_app s" using statis_init_ok [OF meters_init_ok] z by (simp add: idle_app_def s_def)
  from idle_run [OF this, of good_os "\<lambda>k sw. sw" 123 "()"] obtain s' bs where r: "task_run good_os (\<lambda>k sw. sw) 123 s () = Inr (s', (), bs)" by blast
  have "bs ! k \<longleftrightarrow> 0 < k \<and> k mod 61 = 0" if "k < 123" for k
    using task_works_every_61_iterations [OF r z(2)] that by (simp del: upt_rec_numeral)
  then show ?thesis using r by fastforce
qed

end
