(* ===== verification/RhMain.thy ===== *)
theory RhMain
  imports ElService
begin

text \<open>
  \<^verbatim>\<open>code/main.c\<close>: the data server started with six readings in its memory, and the endless loop
  that prints the loss rate of point 1 and after seventy seconds stores two new readings.
\<close>

text \<open>\<^verbatim>\<open>rh_mem_data_write_oop(nPn, nDi, (void*)&v, sizeof(v))\<close> for a list of floats; the results are not looked at.\<close>

fun main_writes :: "(u16 \<times> u32 \<times> binary32) list \<Rightarrow> mem_state \<Rightarrow> mem_state res" where
  "main_writes [] m = Inr m"
| "main_writes ((nPn, nDi, v) # ws) m =
     bindR (rh_mem_data_write_oop m nPn nDi (float_bytes v) 4) (\<lambda>(m, _). main_writes ws m)"

text \<open>3.3, 2.2, 4.4 and 3.0 as floats.\<close>

definition first_readings :: "(u16 \<times> u32 \<times> binary32) list" where
  "first_readings =
     [(1, 0x00010000, B32 0x40533333), (2, 0x00010000, B32 0x400CCCCD), (1, 0x00150000, B32 0x40533333),
      (2, 0x00150000, B32 0x400CCCCD), (1, 0x00290000, B32 0x40533333), (2, 0x00290000, B32 0x400CCCCD)]"

definition later_readings :: "(u16 \<times> u32 \<times> binary32) list" where
  "later_readings = [(1, 0x00010000, B32 0x408CCCCD), (2, 0x00010000, B32 0x40400000)]"

definition main_start ::
  "os_env \<Rightarrow> alloc_env \<Rightarrow> xmlDoc option \<Rightarrow> xmlDoc option \<Rightarrow> rh_proc \<Rightarrow> (rh_proc \<times> bool) res" where
  "main_start os env doc1 doc2 p =
     bindR (rh_mem_init os env doc1 doc2 p) (\<lambda>(p, running, _).
     bindR (main_writes first_readings (dp_mem p)) (\<lambda>m. Inr (p\<lparr>dp_mem := m\<rparr>, running)))"

text \<open>One iteration; the state is the memory, \<^verbatim>\<open>data1\<close>, which is printed, and \<^verbatim>\<open>nTick\<close>.\<close>

definition main_tick :: "mem_state \<Rightarrow> binary32 \<Rightarrow> int \<Rightarrow> (mem_state \<times> binary32 \<times> int) res" where
  "main_tick m data1 nTick =
     bindR (rh_mem_data_read_oop m 1 0x60510205 (float_bytes data1) 4) (\<lambda>(m, out, _).
     bindR (if nTick > 70 then bindR (main_writes later_readings m) (\<lambda>m. Inr (m, 0)) else Inr (m, nTick)) (\<lambda>(m, nTick).
     bindR (addi nTick 1) (\<lambda>nTick. Inr (m, bytes_float out, nTick))))"

text \<open>The writes as accesses of the reference.\<close>

definition float_puts :: "(u16 \<times> u32 \<times> binary32) list \<Rightarrow> (u16 \<times> u32) access list" where
  "float_puts ws = map (\<lambda>(nPn, nDi, v). Put (nPn, nDi) (float_bytes v)) ws"

text \<open>A write either misses, or its four bytes stay inside the data memory.\<close>

definition float_room :: "mem_state \<Rightarrow> u16 \<times> u32 \<Rightarrow> bool" where
  "float_room m k \<longleftrightarrow> (case oop_field m k of None \<Rightarrow> True | Some (a, n) \<Rightarrow> a + 4 \<le> length (mem_cells m))"

definition writable :: "mem_state \<Rightarrow> (u16 \<times> u32 \<times> binary32) list \<Rightarrow> bool" where
  "writable m ws \<longleftrightarrow> list_all (\<lambda>(nPn, nDi, v). float_room m (nPn, nDi)) ws"

lemma writable_same: "oop_field m' = oop_field m \<Longrightarrow> length (mem_cells m') = length (mem_cells m) \<Longrightarrow> writable m' = writable m"
  unfolding writable_def float_room_def by (simp only:)

lemma float_write_refines:
  assumes v: "valid_mem m" and room: "float_room m (nPn, nDi)"
  shows "\<exists>m' r. rh_mem_data_write_oop m nPn nDi (float_bytes x) 4 = Inr (m', r) \<and> valid_mem m' \<and> oop_field m' = oop_field m
     \<and> length (mem_cells m') = length (mem_cells m)
     \<and> mem_cells m' = fst (ref_step (oop_field m) (mem_cells m) (Put (nPn, nDi) (float_bytes x)))"
proof (cases "oop_field m (nPn, nDi)")
  case None
  then show ?thesis using oop.write_unknown [OF v None, of "float_bytes x" 4] v by (auto simp: write_key_def)
next
  case (Some an)
  then obtain a n where f: "oop_field m (nPn, nDi) = Some (a, n)" by (cases an) simp
  then show ?thesis
    using oop.write_known [OF v f, of 4 "float_bytes x"] room by (auto simp: float_room_def write_key_def)
qed

lemma main_writes_refine:
  assumes "valid_mem m" and "writable m ws"
  shows "\<exists>m'. main_writes ws m = Inr m' \<and> valid_mem m' \<and> oop_field m' = oop_field m
     \<and> length (mem_cells m') = length (mem_cells m)
     \<and> mem_cells m' = fst (ref_run (oop_field m) (mem_cells m) (float_puts ws))"
  using assms
proof (induction ws arbitrary: m)
  case (Cons x ws)
  obtain nPn nDi v where x: "x = (nPn, nDi, v)" by (cases x)
  have "float_room m (nPn, nDi)" "writable m ws" using Cons.prems(2) by (simp_all add: x writable_def)
  with float_write_refines [OF Cons.prems(1)] obtain m1 r where
    1: "rh_mem_data_write_oop m nPn nDi (float_bytes v) 4 = Inr (m1, r)" "valid_mem m1" "oop_field m1 = oop_field m"
      "length (mem_cells m1) = length (mem_cells m)"
      "mem_cells m1 = fst (ref_step (oop_field m) (mem_cells m) (Put (nPn, nDi) (float_bytes v)))" and w: "writable m ws"
    by blast
  have "writable m1 ws" using w writable_same [OF 1(3,4)] by simp
  from Cons.IH [OF 1(2) this] obtain m' where
    "main_writes ws m1 = Inr m'" "valid_mem m'" "oop_field m' = oop_field m1" "length (mem_cells m') = length (mem_cells m1)"
    "mem_cells m' = fst (ref_run (oop_field m1) (mem_cells m1) (float_puts ws))" by blast
  then show ?case using 1 by (auto simp: x float_puts_def Let_def split: prod.splits)
qed (simp add: float_puts_def)

text \<open>What is printed: the field if there is one, else what \<^verbatim>\<open>data1\<close> held before.\<close>

definition shown :: "mem_state \<Rightarrow> binary32 \<Rightarrow> binary32" where
  "shown m d = (case oop_field m (1, 0x60510205) of
     None \<Rightarrow> d
   | Some (a, n) \<Rightarrow> bytes_float (patch (float_bytes d) 0 (take (min n 4) (drop a (mem_cells m)))))"

lemma bytes_float_bytes [simp]: "bytes_float (float_bytes d) = d"
  by (simp add: bytes_float_def float_bytes_def)

lemma main_tick_closed:
  assumes "valid_mem m" and "t < 2147483647"
  shows "main_tick m d t = (if t > 70
     then bindR (main_writes later_readings m) (\<lambda>m'. Inr (m', shown m d, 1)) else bindR (addi t 1) (\<lambda>t. Inr (m, shown m d, t)))"
  using read_oop_closed_field [OF assms(1), of 1 _ "float_bytes d"]
  by (cases "main_writes later_readings m"; cases "oop_field m (1, 0x60510205)")
    (simp_all add: main_tick_def shown_def addi_def split: prod.split)

section \<open>The loop\<close>

text \<open>\<open>k\<close> iterations and what they print.\<close>

fun main_run :: "nat \<Rightarrow> mem_state \<Rightarrow> binary32 \<Rightarrow> int \<Rightarrow> (mem_state \<times> binary32 list) res" where
  "main_run 0 m data1 nTick = Inr (m, [])"
| "main_run (Suc k) m data1 nTick =
     bindR (main_tick m data1 nTick) (\<lambda>(m, data1, nTick).
     bindR (main_run k m data1 nTick) (\<lambda>(m, ds). Inr (m, data1 # ds)))"

definition rate_apart :: "mem_state \<Rightarrow> bool" where
  "rate_apart m \<longleftrightarrow> (case oop_field m (1, 0x60510205) of
     None \<Rightarrow> True
   | Some (a, n) \<Rightarrow> list_all (apart (oop_field m) a (min n 4)) (float_puts later_readings))"

lemma inside_float_puts: "writable m ws = list_all (inside (oop_field m) (length (mem_cells m))) (float_puts ws)"
  by (auto simp: writable_def float_room_def float_puts_def list_all_iff split: option.splits)

lemma float_bytes_bytes: "length bs = 4 \<Longrightarrow> float_bytes (bytes_float bs) = bs"
proof -
  assume "length bs = 4"
  then obtain a b c d where "bs = [a, b, c, d]" by (auto simp: eval_nat_numeral length_Suc_conv)
  moreover have "le32 (u32_le [a, b, c, d]) = [a, b, c, d]"
    by (simp add: u32_le_def le32_def) (intro conjI bit_word_eqI; auto simp: bit_simps dest: bit_imp_le_length)
  ultimately show ?thesis by (simp add: float_bytes_def bytes_float_def)
qed

lemma shown_stays:
  assumes "oop_field m' = oop_field m" and "rate_apart m" and "writable m later_readings"
    and "mem_cells m' = mem_cells m \<or> mem_cells m' = fst (ref_run (oop_field m) (mem_cells m) (float_puts later_readings))"
  shows "shown m' (shown m d) = shown m d"
proof (cases "oop_field m (1, 0x60510205)")
  case None
  then show ?thesis using assms(1) by (simp add: shown_def)
next
  case (Some an)
  then obtain a n where f: "oop_field m (1, 0x60510205) = Some (a, n)" by (cases an) simp
  have w: "take (min n 4) (drop a (mem_cells m')) = take (min n 4) (drop a (mem_cells m))"
    using assms(2-4) f ref_run_apart(2) [of "oop_field m" "mem_cells m" "float_puts later_readings" a "min n 4"]
    by (auto simp: rate_apart_def inside_float_puts)
  define W where "W = take (min n 4) (drop a (mem_cells m))"
  have l: "length W \<le> 4" by (simp add: W_def)
  then have p: "length (patch (float_bytes d) 0 W) = 4" by simp
  have "patch (patch (float_bytes d) 0 W) 0 W = patch (float_bytes d) 0 W" using l by (simp add: patch_def)
  then show ?thesis using f assms(1) w p by (simp add: shown_def float_bytes_bytes flip: W_def)
qed

text \<open>Storing the later readings leaves the loop's conditions intact.\<close>

definition loop_ok :: "mem_state \<Rightarrow> bool" where
  "loop_ok m \<longleftrightarrow> valid_mem m \<and> writable m later_readings \<and> rate_apart m"

lemma rate_apart_same: "oop_field m' = oop_field m \<Longrightarrow> rate_apart m' = rate_apart m"
  unfolding rate_apart_def by (simp only:)

lemma loop_ok_same:
  "loop_ok m \<Longrightarrow> valid_mem m' \<Longrightarrow> oop_field m' = oop_field m \<Longrightarrow> length (mem_cells m') = length (mem_cells m) \<Longrightarrow> loop_ok m'"
  using writable_same [of m' m] rate_apart_same [of m' m] by (simp add: loop_ok_def)

definition stored_times :: "nat \<Rightarrow> mem_state \<Rightarrow> u8 list" where
  "stored_times j m = fst (ref_run (oop_field m) (mem_cells m) (concat (replicate j (float_puts later_readings))))"

lemma main_tick_ok:
  assumes "loop_ok m" and "t \<le> 71"
  shows "\<exists>m'. main_tick m d (int t) = Inr (m', shown m d, if t = 71 then 1 else int t + 1) \<and> loop_ok m'
     \<and> oop_field m' = oop_field m \<and> shown m' (shown m d) = shown m d
     \<and> mem_cells m' = stored_times (if t = 71 then 1 else 0) m"
proof -
  have ok: "valid_mem m" "writable m later_readings" "rate_apart m" using assms(1) by (simp_all add: loop_ok_def)
  note closed = main_tick_closed [OF ok(1), of "int t" d]
  show ?thesis
  proof (cases "t = 71")
    case False
    then show ?thesis
      using closed assms shown_stays [of m m d] ok(2,3) by (auto simp: addi_def stored_times_def)
  next
    case True
    obtain m' where w: "main_writes later_readings m = Inr m'" "valid_mem m'" "oop_field m' = oop_field m"
      "length (mem_cells m') = length (mem_cells m)"
      "mem_cells m' = fst (ref_run (oop_field m) (mem_cells m) (float_puts later_readings))"
      using main_writes_refine [OF ok(1,2)] by blast
    then show ?thesis
      using closed True loop_ok_same [OF assms(1) w(2-4)] shown_stays [OF w(3) ok(3,2)]
      by (simp add: stored_times_def)
  qed
qed

lemma main_run_ok:
  assumes "loop_ok m" and "t \<le> 71"
  shows "\<exists>m'. main_run k m d (int t) = Inr (m', replicate k (shown m d)) \<and> valid_mem m' \<and> oop_field m' = oop_field m
     \<and> mem_cells m' = stored_times ((k + t - 1) div 71) m"
  using assms
proof (induction k arbitrary: m d t)
  case 0
  then have "(t - 1) div 71 = 0" by simp
  then show ?case using 0 by (simp add: stored_times_def loop_ok_def)
next
  case (Suc k)
  let ?t = "if t = 71 then 1 else t + 1"
  obtain m1 where 1: "main_tick m d (int t) = Inr (m1, shown m d, int ?t)" "loop_ok m1"
    "oop_field m1 = oop_field m" "shown m1 (shown m d) = shown m d" "mem_cells m1 = stored_times (if t = 71 then 1 else 0) m"
    using main_tick_ok [OF Suc.prems, of d] by (auto simp: add.commute)
  have "?t \<le> 71" using Suc.prems(2) by simp
  from Suc.IH [OF 1(2) this, of "shown m d"] obtain m' where
    2: "main_run k m1 (shown m d) (int ?t) = Inr (m', replicate k (shown m d))" "valid_mem m'" "oop_field m' = oop_field m1"
      "mem_cells m' = stored_times ((k + ?t - 1) div 71) m1" using 1(4) by auto
  have n: "(Suc k + t - 1) div 71 = (if t = 71 then 1 else 0) + (k + ?t - 1) div 71" using Suc.prems(2) by auto
  have "stored_times j m1 = stored_times ((if t = 71 then 1 else 0) + j) m" for j
    using 1(3,5) by (simp add: stored_times_def fst_ref_run_append)
  then show ?case using 1(1,3) 2 n by simp
qed

section \<open>The start\<close>

lemma main_start_ok:
  assumes "good_points d1" and "good_cfg d2" and "fits_cfg d2" and "\<And>s. malloc_ok env s" and "os_ok os"
    and "lock_malloc_ok os" and "writable (loaded_mem env d1 d2) first_readings"
  shows "\<exists>srv. main_start os env (Some d1) (Some d2) p = Inr (srv, pthread_create_ok os) \<and> ready os srv
     \<and> oop_field (dp_mem srv) = oop_field (loaded_mem env d1 d2)
     \<and> mem_cells (dp_mem srv) = fst (ref_run (oop_field (loaded_mem env d1 d2))
         (replicate (nat (span (objects d2))) 0) (float_puts first_readings))"
proof -
  have v: "valid_mem (loaded_mem env d1 d2)" using valid_loaded [OF assms(1-3)] .
  from main_writes_refine [OF v assms(7)] obtain m' where
    w: "main_writes first_readings (loaded_mem env d1 d2) = Inr m'" "valid_mem m'"
      "oop_field m' = oop_field (loaded_mem env d1 d2)"
      "mem_cells m' = fst (ref_run (oop_field (loaded_mem env d1 d2)) (mem_cells (loaded_mem env d1 d2)) (float_puts first_readings))"
    by blast
  then show ?thesis
    using rh_mem_init_closed [OF assms(1,2,4-6), of p] started_ready [OF assms(1-3,5), of p env]
    by (simp add: main_start_def loaded_cells ready_def)
qed

lemma later_room: "writable m first_readings \<Longrightarrow> writable m later_readings"
  by (simp add: writable_def first_readings_def later_readings_def)

text \<open>
  C7: the data server's program: on a configuration the loaders accept, \<^verbatim>\<open>main\<close> starts the server with
  the six readings stored in the zeroed memory, and its loop goes on without a fault: it prints
  the loss rate of point 1, or 3.3 where the configuration has no such field, and stores the two
  later readings in iteration 72 and every 71 iterations after it.
\<close>

theorem main_program_runs:
  assumes "good_points d1" and "good_cfg d2" and "fits_cfg d2" and "\<And>s. malloc_ok env s" and "os_ok os"
    and "lock_malloc_ok os" and room: "writable (loaded_mem env d1 d2) first_readings" and apart: "rate_apart (loaded_mem env d1 d2)"
  shows "\<exists>srv m'. main_start os env (Some d1) (Some d2) p = Inr (srv, pthread_create_ok os) \<and> ready os srv
     \<and> main_run k (dp_mem srv) (B32 0x40533333) 0 = Inr (m', replicate k (shown (dp_mem srv) (B32 0x40533333)))
     \<and> mem_cells m' = fst (ref_run (oop_field (loaded_mem env d1 d2)) (replicate (nat (span (objects d2))) 0)
         (float_puts first_readings @ concat (replicate ((k - 1) div 71) (float_puts later_readings))))"
proof -
  let ?l = "loaded_mem env d1 d2"
  from main_start_ok [OF assms(1-7), of p] obtain srv where
    1: "main_start os env (Some d1) (Some d2) p = Inr (srv, pthread_create_ok os)" "ready os srv"
      "oop_field (dp_mem srv) = oop_field ?l"
      "mem_cells (dp_mem srv) = fst (ref_run (oop_field ?l) (replicate (nat (span (objects d2))) 0) (float_puts first_readings))"
    by blast
  have "length (mem_cells (dp_mem srv)) = length (mem_cells ?l)"
    using room 1(4) ref_run_apart(1) [of "oop_field ?l" "mem_cells ?l" "float_puts first_readings"]
    by (simp add: inside_float_puts loaded_cells)
  then have "loop_ok (dp_mem srv)"
    using later_room [OF room] apart 1(2) writable_same [OF 1(3)] rate_apart_same [OF 1(3)] by (simp add: loop_ok_def ready_def)
  from main_run_ok [OF this, of 0 k "B32 0x40533333"] 1 show ?thesis
    by (auto simp: stored_times_def fst_ref_run_append)
qed

lemma demo_missing:
  "map (oop_field (loaded_mem demo_env demo_doc demo_doc)) [(2, 0x00010000), (1, 0x00150000), (2, 0x00150000),
     (1, 0x00290000), (2, 0x00290000), (1, 0x60510205)] = [None, None, None, None, None, None]"
  by code_simp

text \<open>The example configuration has no loss rate: 72 times 3.3, and the later reading is stored.\<close>

theorem main_program_runs_witness:
  "\<exists>srv m'. main_start good_os demo_env (Some demo_doc) (Some demo_doc) demo_server = Inr (srv, True)
     \<and> main_run 72 (dp_mem srv) (B32 0x40533333) 0 = Inr (m', replicate 72 (B32 0x40533333))
     \<and> mem_cells m' = [0, 0, 0, 0, 0xCD, 0xCC, 0x8C, 0x40, 0, 0, 0, 0]"
proof -
  let ?m = "loaded_mem demo_env demo_doc demo_doc"
  have s: "span (objects demo_doc) = 12" by code_simp
  have o: "lock_malloc_ok good_os" "pthread_create_ok good_os" by (simp_all add: good_os_def)
  note f = demo_missing [simplified]
  have room: "writable ?m first_readings" "rate_apart ?m"
    using demo_loaded(1) f by (simp_all add: writable_def float_room_def first_readings_def rate_apart_def loaded_cells s)
  have b: "float_bytes (B32 0x40533333) = [0x33, 0x33, 0x53, 0x40]" "float_bytes (B32 0x408CCCCD) = [0xCD, 0xCC, 0x8C, 0x40]"
    by code_simp+
  have r: "fst (ref_run (oop_field ?m) (replicate 12 0)
      (float_puts first_readings @ concat (replicate ((72 - 1) div 71) (float_puts later_readings)))) =
      [0, 0, 0, 0, 0xCD, 0xCC, 0x8C, 0x40, 0, 0, 0, 0]"
    using demo_loaded(1) f b by (simp add: float_puts_def first_readings_def later_readings_def patch_def) (simp add: eval_nat_numeral)
  have m: "malloc_ok demo_env x" for x by (simp add: demo_env_def)
  from main_program_runs [OF demo_doc m good_os_ok o(1) room, of demo_server 72] obtain srv m' where
    w: "main_start good_os demo_env (Some demo_doc) (Some demo_doc) demo_server = Inr (srv, True)"
      "main_run 72 (dp_mem srv) (B32 0x40533333) 0 = Inr (m', replicate 72 (shown (dp_mem srv) (B32 0x40533333)))"
      "mem_cells m' = [0, 0, 0, 0, 0xCD, 0xCC, 0x8C, 0x40, 0, 0, 0, 0]"
    using r s o(2) by auto
  have "oop_field (dp_mem srv) = oop_field ?m"
    using main_start_ok [OF demo_doc m good_os_ok o(1) room(1), of demo_server] w(1) by auto
  then have "shown (dp_mem srv) (B32 0x40533333) = B32 0x40533333" using f by (simp add: shown_def)
  then show ?thesis using w by auto
qed

end
