(* ===== verification/ElReport.thy ===== *)
theory ElReport
  imports ElMinute RhMain
begin

text \<open>
  From the readings to the display: where the results of a minute can be read, that the task goes
  on minute after minute, and the loss rate the data server's main loop prints.
\<close>

section \<open>Writes that stay readable\<close>

lemma ref_run_records:
  assumes "list_all (inside f (length bs)) xs" and "Put k d \<in> set xs" and "f k = Some (a, n)"
    and "\<And>x. x \<in> set xs \<Longrightarrow> x = Put k d \<or> apart f a (length d) x"
  shows "take (length d) (drop a (fst (ref_run f bs xs))) = d"
  using assms
proof (induction xs arbitrary: bs)
  case (Cons x xs)
  have l: "length (fst (ref_step f bs x)) = length bs" using ref_step_apart(1) [of f bs x] Cons.prems(1) by simp
  show ?case
  proof (cases "Put k d \<in> set xs")
    case True
    then show ?thesis
      using Cons.IH [of "fst (ref_step f bs x)"] Cons.prems l by (simp add: ref_run_Cons del: ref_run.simps)
  next
    case False
    then have x: "x = Put k d" "list_all (apart f a (length d)) xs" using Cons.prems(2,4) by (auto simp: list_all_iff)
    then show ?thesis
      using Cons.prems(1,3) l ref_run_apart(2) [of f "fst (ref_step f bs x)" xs a "length d"]
      by (simp add: ref_run_Cons del: ref_run.simps)
  qed
qed simp

fun access_window :: "'k access \<Rightarrow> 'k \<times> nat" where
  "access_window (Put k data) = (k, length data)"
| "access_window (Get k buf) = (k, length buf)"

definition windows_apart :: "('k \<Rightarrow> (nat \<times> nat) option) \<Rightarrow> ('k \<times> nat) list \<Rightarrow> bool" where
  "windows_apart f ws \<longleftrightarrow> list_all (\<lambda>(k, n). list_all (\<lambda>(k', n'). k = k' \<or>
     (case (f k, f k') of (Some (a, _), Some (b, _)) \<Rightarrow> b + n' \<le> a \<or> a + n \<le> b | _ \<Rightarrow> True)) ws) ws"

lemma windows_apart_Put:
  assumes "windows_apart f ws" and "f k = Some (a, l)" and "(k, n) \<in> set ws" and "access_window (Put k' d) \<in> set ws" and "k \<noteq> k'"
  shows "apart f a n (Put k' d)"
  using assms by (fastforce simp: windows_apart_def list_all_iff split: option.splits)

section \<open>The windows of a minute\<close>

text \<open>What a minute writes: the identifier and the number of bytes of each result, and what it reads.\<close>

definition result_windows :: "u8 list \<Rightarrow> ((u16 \<times> u32) \<times> nat) list" where
  "result_windows mem = map access_window
     (save_puts mem (replicate 4 \<lparr>st_nNum = 0, st_rsv = 0, st_nVal = replicate 4 zero_unit\<rparr>))"

definition energy_windows :: "u8 list \<Rightarrow> ((u16 \<times> u32) \<times> nat) list" where
  "energy_windows mem = map (\<lambda>(m, i). ((of_nat m, DI_ENERGY ! i), 4)) (taken mem [0 ..< 128])"

lemma puts_windows: "map access_window (puts m (unit_writes u p)) = map access_window (puts m (unit_writes v p))"
  by (simp add: puts_def unit_writes_def)

lemma save_windows: "map access_window (save_puts mem est) = result_windows mem"
proof -
  have "map access_window (phase_puts m st ps) = map access_window (phase_puts m st' ps)" for m st st' ps
    using puts_windows by (induction ps) (simp_all add: phase_puts_def)
  then have w: "map access_window (level_puts mem est l) = map access_window (level_puts mem est' l)" for est est' l
    by (simp add: level_puts_def split: option.split)
  have "map (\<lambda>l. map access_window (level_puts mem est l)) ls = map (\<lambda>l. map access_window (level_puts mem est' l)) ls" for est est' ls
    by (rule map_cong [OF refl]) (rule w)
  then show ?thesis unfolding result_windows_def save_puts_def map_concat map_map o_def by (rule arg_cong)
qed

lemma phase_of_id: "p < 4 \<Longrightarrow> di \<in> fst ` set (unit_writes u p) \<Longrightarrow> p = unat (and (drop_bit 24 di) 3)"
proof -
  assume "p < 4" and "di \<in> fst ` set (unit_writes u p)"
  moreover from this(1) have "p = 0 \<or> p = 1 \<or> p = 2 \<or> p = 3" by arith
  ultimately show ?thesis by (elim disjE) (auto simp: unit_writes_def phase_id_def)
qed

lemma phase_ids_distinct: "p < 4 \<Longrightarrow> distinct (map fst (unit_writes u p))"
proof -
  assume "p < 4"
  then have "p = 0 \<or> p = 1 \<or> p = 2 \<or> p = 3" by arith
  then show ?thesis by (elim disjE) (simp_all add: unit_writes_def phase_id_def)
qed

text \<open>Every result is written once.\<close>

lemma save_puts_elem:
  "x \<in> set (save_puts mem est) \<longleftrightarrow> (\<exists>l < 4. \<exists>m. level_meter mem l = Some m \<and> (\<exists>p < 4. \<exists>(di, bs) \<in> set (unit_writes (st_nVal (est ! l) ! p) p).
     x = Put (of_nat m, di) bs))"
proof -
  have "x \<in> set (phase_puts m st [0 ..< 4]) \<longleftrightarrow>
      (\<exists>p < 4. \<exists>(di, bs) \<in> set (unit_writes (st_nVal st ! p) p). x = Put (of_nat m, di) bs)" for m st
    by (fastforce simp: phase_puts_def puts_def simp del: upt_rec_numeral)
  moreover have "x \<in> set (save_puts mem est) \<longleftrightarrow>
      (\<exists>l < 4. \<exists>m. level_meter mem l = Some m \<and> x \<in> set (phase_puts m (est ! l) [0 ..< 4]))"
  proof -
    have "x \<in> set (level_puts mem est l) \<longleftrightarrow> (\<exists>m. level_meter mem l = Some m \<and> x \<in> set (phase_puts m (est ! l) [0 ..< 4]))" for l
      by (cases "level_meter mem l") (simp_all add: level_puts_def del: upt_rec_numeral)
    then show ?thesis by (fastforce simp: save_puts_def simp del: upt_rec_numeral)
  qed
  ultimately show ?thesis by simp
qed

lemma of_nat_meter: "m < 128 \<Longrightarrow> m' < 128 \<Longrightarrow> (of_nat m :: u16) = of_nat m' \<longleftrightarrow> m = m'"
proof -
  assume "m < 128" and "m' < 128"
  then have "unat (of_nat m :: u16) = m" "unat (of_nat m' :: u16) = m'"
    by (simp_all add: unat_of_nat take_bit_nat_eq_self)
  then show ?thesis by metis
qed

lemma save_puts_unique:
  assumes "Put k d \<in> set (save_puts mem est)" and "Put k d' \<in> set (save_puts mem est)"
  shows "d = d'"
proof -
  from assms(1) obtain l m p di where 1: "l < 4" "level_meter mem l = Some m" "p < 4"
    "(di, d) \<in> set (unit_writes (st_nVal (est ! l) ! p) p)" "k = (of_nat m, di)" by (auto simp: save_puts_elem)
  from assms(2) obtain l' m' p' di' where 2: "l' < 4" "level_meter mem l' = Some m'" "p' < 4"
    "(di', d') \<in> set (unit_writes (st_nVal (est ! l') ! p') p')" "k = (of_nat m', di')" by (auto simp: save_puts_elem)
  have m: "m = m'" "di = di'" using 1(5) 2(5) of_nat_meter level_meter_Some [OF 1(2)] level_meter_Some [OF 2(2)] by auto
  then have l: "l = l'" using level_meter_Some [OF 1(2)] level_meter_Some [OF 2(2)] by (auto simp: has_meter_def)
  have "p = p'" using phase_of_id [OF 1(3)] phase_of_id [OF 2(3)] 1(4) 2(4) m(2) by force
  then show ?thesis using 1(4) 2(4) l m phase_ids_distinct [OF 1(3)] eq_key_imp_eq_value by metis
qed

lemma energy_id: "i < 8 \<Longrightarrow> p < 4 \<Longrightarrow> di \<in> fst ` set (unit_writes u p) \<Longrightarrow> DI_ENERGY ! i \<noteq> di"
proof -
  assume "i < 8" and p: "p < 4" and di: "di \<in> fst ` set (unit_writes u p)"
  then have "DI_ENERGY ! i < 0x60000000" unfolding less_8 by (elim disjE) (simp_all add: DI_ENERGY_def)
  moreover from p have "p = 0 \<or> p = 1 \<or> p = 2 \<or> p = 3" by arith
  then have "0x60000000 \<le> di" using di by (elim disjE) (auto simp: unit_writes_def phase_id_def)
  ultimately show ?thesis by auto
qed

text \<open>The fields a minute reads and writes do not overlap, and each result fits its field.\<close>

definition layout :: "rh_proc \<Rightarrow> u8 list \<Rightarrow> bool" where
  "layout srv mem \<longleftrightarrow> windows_apart (oop_field (dp_mem srv)) (energy_windows mem @ result_windows mem)
     \<and> list_all (\<lambda>(k, n). case oop_field (dp_mem srv) k of None \<Rightarrow> False | Some (a, l) \<Rightarrow> n \<le> l) (result_windows mem)"

lemma layout_same: "oop_field (dp_mem srv') = oop_field (dp_mem srv) \<Longrightarrow> layout srv' mem = layout srv mem"
  unfolding layout_def by (simp only:)

lemma savable_inside:
  "list_all (savable srv) xs \<Longrightarrow> list_all (inside (oop_field (dp_mem srv)) (length (mem_cells (dp_mem srv)))) xs"
proof -
  have "inside f len x" if "fits_access f len 128 x" for f :: "u16 \<times> u32 \<Rightarrow> (nat \<times> nat) option" and len x
    using that by (cases x) (auto split: option.splits)
  then show "list_all (savable srv) xs \<Longrightarrow> list_all (inside (oop_field (dp_mem srv)) (length (mem_cells (dp_mem srv)))) xs"
    by (simp add: list_all_iff savable_def)
qed

lemma results_stored:
  assumes "layout srv mem" and "result_fields srv mem" and "Put k d \<in> set (save_puts mem est)"
    and "oop_field (dp_mem srv) k = Some (a, l)"
  shows "take (length d) (drop a (fst (ref_run (oop_field (dp_mem srv)) (mem_cells (dp_mem srv)) (save_puts mem est)))) = d"
    and "length d \<le> l"
proof -
  let ?f = "oop_field (dp_mem srv)" and ?xs = "save_puts mem est"
  have ap: "windows_apart ?f (energy_windows mem @ result_windows mem)" using assms(1) by (simp add: layout_def)
  have w: "access_window x \<in> set (result_windows mem)" if "x \<in> set ?xs" for x
    using that unfolding save_windows [of mem est, symmetric] by simp
  have kw: "(k, length d) \<in> set (result_windows mem)" using w [OF assms(3)] by simp
  then show "length d \<le> l" using assms(1,4) by (auto simp: layout_def list_all_iff)
  have "x = Put k d \<or> apart ?f a (length d) x" if x: "x \<in> set ?xs" for x
  proof -
    from x obtain k' d' where e: "x = Put k' d'" by (auto simp: save_puts_elem)
    show ?thesis
    proof (cases "k = k'")
      case True
      then show ?thesis using save_puts_unique [OF assms(3), of d'] x e by simp
    next
      case False
      have "access_window (Put k' d') \<in> set (energy_windows mem @ result_windows mem)" using w [OF x] e by simp
      with windows_apart_Put [OF ap assms(4) _ this False] kw e show ?thesis by simp
    qed
  qed
  with ref_run_records [OF savable_inside [OF save_savable [OF assms(2)]] assms(3,4)]
  show "take (length d) (drop a (fst (ref_run ?f (mem_cells (dp_mem srv)) ?xs))) = d" by blast
qed

lemma energies_kept:
  assumes "layout srv mem" and "result_fields srv mem" and "metered mem m" and "i < 8"
    and "oop_field (dp_mem srv') = oop_field (dp_mem srv)"
    and cells: "mem_cells (dp_mem srv') = fst (ref_run (oop_field (dp_mem srv)) (mem_cells (dp_mem srv)) (save_puts mem est))"
  shows "served srv' m i = served srv m i"
proof (cases "\<exists>a. oop_field (dp_mem srv) (of_nat m, DI_ENERGY ! i) = Some (a, 4)")
  case False
  then show ?thesis using assms(5) by (auto simp: served_def split: option.splits)
next
  case True
  then obtain a where f: "oop_field (dp_mem srv) (of_nat m, DI_ENERGY ! i) = Some (a, 4)" by blast
  let ?f = "oop_field (dp_mem srv)" and ?xs = "save_puts mem est"
  have ap: "windows_apart ?f (energy_windows mem @ result_windows mem)" using assms(1) by (simp add: layout_def)
  have "(m, i) \<in> set (taken mem [0 ..< 128])" using assms(3,4) by (simp add: set_taken metered_def)
  then have e: "((of_nat m, DI_ENERGY ! i), 4) \<in> set (energy_windows mem @ result_windows mem)"
    by (force simp: energy_windows_def)
  have "apart ?f a 4 x" if x: "x \<in> set ?xs" for x
  proof -
    from x obtain m' p di d u where x': "x = Put (of_nat m', di) d" "p < 4" "(di, d) \<in> set (unit_writes u p)"
      by (auto simp: save_puts_elem)
    have "access_window x \<in> set (energy_windows mem @ result_windows mem)"
      using x unfolding save_windows [of mem est, symmetric] by simp
    moreover have "DI_ENERGY ! i \<noteq> di" using energy_id [OF assms(4) x'(2)] x'(3) by force
    ultimately show ?thesis using windows_apart_Put [OF ap f e] x'(1) by simp
  qed
  then have "take 4 (drop a (mem_cells (dp_mem srv'))) = take 4 (drop a (mem_cells (dp_mem srv)))"
    unfolding cells using ref_run_apart(2) [OF savable_inside [OF save_savable [OF assms(2)]], of a 4]
    by (simp add: list_all_iff)
  then show ?thesis using f assms(5) by (simp add: served_def)
qed

text \<open>After a minute the next one can follow, and each result is what a reader gets.\<close>

lemma after_minute:
  assumes w: "workable os c s srv" and lay: "layout srv (g_ParaMet s)"
    and ok: "meters_fair s'" "statis_ok s'" "attached_to os (b + 1120) s' srv'" "g_ParaMet s' = g_ParaMet s"
    and f: "oop_field (dp_mem srv') = oop_field (dp_mem srv)"
    and cells: "mem_cells (dp_mem srv') = fst (ref_run (oop_field (dp_mem srv)) (mem_cells (dp_mem srv)) (save_puts (g_ParaMet s) (elStatis s')))"
  shows "workable os b s' srv'" and "layout srv' (g_ParaMet s')"
    and "Put (nPn, nDi) d \<in> set (save_puts (g_ParaMet s) (elStatis s')) \<Longrightarrow> length buf = length d \<Longrightarrow>
      \<exists>n. rh_mem_data_read_oop (dp_mem srv') nPn nDi buf (int (length buf)) = Inr (dp_mem srv', d, int n)"
proof -
  have rf: "result_fields srv (g_ParaMet s)" using w by (simp add: workable_def)
  have len: "length (mem_cells (dp_mem srv')) = length (mem_cells (dp_mem srv))"
    unfolding cells by (rule ref_run_apart(1) [OF savable_inside [OF save_savable [OF rf]]])
  have "savable srv' = savable srv" using f len by (simp add: savable_def)
  then have "result_fields srv' (g_ParaMet s)" using rf by (simp add: result_fields_def)
  moreover have "readable srv' m" if "metered (g_ParaMet s) m" for m
  proof -
    have "readable srv m" using w that by (simp add: workable_def metered_def)
    then show ?thesis using energies_kept [OF lay rf that _ f cells] by (simp add: readable_def)
  qed
  ultimately show "workable os b s' srv'" using w ok by (simp add: workable_def)
  show "layout srv' (g_ParaMet s')" using lay layout_same [OF f] ok(4) by simp
  show "\<exists>n. rh_mem_data_read_oop (dp_mem srv') nPn nDi buf (int (length buf)) = Inr (dp_mem srv', d, int n)"
    if d: "Put (nPn, nDi) d \<in> set (save_puts (g_ParaMet s) (elStatis s'))" and buf: "length buf = length d"
  proof -
    have "savable srv (Put (nPn, nDi) d)" using save_savable [OF rf] d by (auto simp: list_all_iff)
    then obtain a l where k: "oop_field (dp_mem srv) (nPn, nDi) = Some (a, l)" by (auto simp: savable_def split: option.splits)
    note r = results_stored [OF lay rf d k]
    have "valid_mem (dp_mem srv')" using ok(3) by (simp add: attached_to_def ready_def)
    moreover from this have "a + l \<le> length (mem_cells (dp_mem srv'))" using oop.in_cells k f by fastforce
    ultimately show ?thesis using read_oop_closed_field [of "dp_mem srv'" nPn nDi buf] r k f buf
      by (auto simp: min_absorb2 patch_def simp flip: cells)
  qed
qed

section \<open>Minute after minute\<close>

lemma minute_lasts:
  assumes w: "workable os (b + 1120) s srv" and lay: "layout srv (g_ParaMet s)" and run: "scheduled runs" and t: "60 < nTicks s"
  shows "\<exists>s' srv'. elTaskProc os (server_env os runs) s (Inr srv) = Inr (s', Inr srv', True)
     \<and> nTicks s' = 1 \<and> workable os b s' srv' \<and> g_ParaMet s' = g_ParaMet s \<and> layout srv' (g_ParaMet s')
     \<and> oop_field (dp_mem srv') = oop_field (dp_mem srv) \<and> length (mem_cells (dp_mem srv')) = length (mem_cells (dp_mem srv))
     \<and> (\<forall>m < 128. \<forall>i < 8. value_of i (s_MetDataBak s' ! m) = backup (served srv) s m i)
     \<and> (\<forall>l < 4. \<forall>i < 8. value_of i (s_EneUseUp s' ! l) = counted (served srv) s l i)
     \<and> (\<forall>l < 4. \<forall>p < 4. unit_at s' l p = loss s' l p (unit_at s l p))
     \<and> (\<forall>l m p di bs buf. l < 4 \<longrightarrow> level_meter (g_ParaMet s) l = Some m \<longrightarrow> p < 4 \<longrightarrow>
          (di, bs) \<in> set (unit_writes (unit_at s' l p) p) \<longrightarrow> length buf = length bs \<longrightarrow>
          (\<exists>n. rh_mem_data_read_oop (dp_mem srv') (of_nat m) di buf (int (length buf)) = Inr (dp_mem srv', bs, int n)))
     \<and> (\<forall>l d. l < 4 \<longrightarrow> level_meter (g_ParaMet s) l = Some 1 \<longrightarrow> shown (dp_mem srv') d = nRatio (unit_at s' l 0))"
proof -
  from minute_works [OF w run t] obtain s' srv' where
    1: "elTaskProc os (server_env os runs) s (Inr srv) = Inr (s', Inr srv', True)" "nTicks s' = 1"
    and ok: "meters_fair s'" "statis_ok s'" "attached_to os (b + 1120) s' srv'" "g_ParaMet s' = g_ParaMet s"
    and v: "\<forall>m < 128. \<forall>i < 8. value_of i (s_MetDataBak s' ! m) = backup (served srv) s m i"
      "\<forall>l < 4. \<forall>i < 8. value_of i (s_EneUseUp s' ! l) = counted (served srv) s l i"
      "\<forall>l < 4. \<forall>p < 4. unit_at s' l p = loss s' l p (unit_at s l p)"
    and f: "oop_field (dp_mem srv') = oop_field (dp_mem srv)"
      "mem_cells (dp_mem srv') = fst (ref_run (oop_field (dp_mem srv)) (mem_cells (dp_mem srv)) (save_puts (g_ParaMet s) (elStatis s')))"
    by blast
  note a = after_minute [OF w lay ok f]
  have r: "\<exists>n. rh_mem_data_read_oop (dp_mem srv') (of_nat m) di buf (int (length buf)) = Inr (dp_mem srv', bs, int n)"
    if "l < 4" "level_meter (g_ParaMet s) l = Some m" "p < 4" "(di, bs) \<in> set (unit_writes (unit_at s' l p) p)"
      "length buf = length bs" for l m p di bs buf
  proof (rule a(3))
    show "Put (of_nat m, di) bs \<in> set (save_puts (g_ParaMet s) (elStatis s'))"
      using that unfolding save_puts_elem unit_at_def by blast
  qed (rule that(5))
  have len: "length (mem_cells (dp_mem srv')) = length (mem_cells (dp_mem srv))"
    unfolding f(2) using w by (intro ref_run_apart(1) savable_inside save_savable) (simp add: workable_def)
  have v': "valid_mem (dp_mem srv')" using ok(3) by (simp add: attached_to_def ready_def)
  have "shown (dp_mem srv') d = nRatio (unit_at s' l 0)" if "l < 4" "level_meter (g_ParaMet s) l = Some 1" for l d
  proof -
    have "(0x60510205, float_bytes (nRatio (unit_at s' l 0))) \<in> set (unit_writes (unit_at s' l 0) 0)"
      by (simp add: unit_writes_def phase_id_def)
    from r [OF that _ this, of "float_bytes d"] obtain n where
      "rh_mem_data_read_oop (dp_mem srv') 1 0x60510205 (float_bytes d) (int (length (float_bytes d))) =
        Inr (dp_mem srv', float_bytes (nRatio (unit_at s' l 0)), int n)" by auto
    then show ?thesis unfolding read_oop_closed_field [OF v']
      by (auto simp: shown_def split: option.splits)
  qed
  then show ?thesis using 1 a(1,2) ok(4) v f(1) r len by (intro exI [of _ s'] exI [of _ srv']) auto
qed

lemma waits: "nTicks s = int t \<Longrightarrow> t < 61 \<Longrightarrow> elTaskProc os env s w = Inr (s\<lparr>nTicks := int t + 1\<rparr>, w, False)"
  by (simp add: elTaskProc_def addi_def)

lemma workable_less: "workable os c s srv \<Longrightarrow> b \<le> c \<Longrightarrow> workable os b s srv"
  by (auto simp: workable_def intro: attached_less)

lemma workable_ticks: "workable os b (s\<lparr>nTicks := t\<rparr>) srv = workable os b s srv"
  by (simp add: workable_def attached_to_def meters_fair_def meters_ok_def statis_ok_def)

lemma task_lasts:
  assumes "workable os (b + 1120 * ((n + t - 1) div 61)) s srv" and "layout srv (g_ParaMet s)" and "scheduled runs"
    and "nTicks s = int t" and "t \<le> 61"
  shows "\<exists>s' srv' bs. task_run os (server_env os runs) n s (Inr srv) = Inr (s', Inr srv', bs) \<and> workable os b s' srv'
     \<and> layout srv' (g_ParaMet s') \<and> length (filter (\<lambda>x. x) bs) = (n + t - 1) div 61"
  using assms
proof (induction n arbitrary: s srv t)
  case 0
  then show ?case using workable_less [OF 0(1), of b] by simp
next
  case (Suc n)
  show ?case
  proof (cases "t = 61")
    case False
    let ?s = "s\<lparr>nTicks := int (t + 1)\<rparr>"
    have "workable os (b + 1120 * ((n + (t + 1) - 1) div 61)) ?s srv" "layout srv (g_ParaMet ?s)" "nTicks ?s = int (t + 1)" "t + 1 \<le> 61"
      using Suc.prems(1,2,5) False by (simp_all add: workable_ticks)
    from Suc.IH [OF this(1,2) Suc.prems(3) this(3,4)] show ?thesis
      using waits [OF Suc.prems(4), of os "server_env os runs" "Inr srv"] Suc.prems(5) False by (auto simp: add.commute)
  next
    case True
    have n: "(Suc n + t - 1) div 61 = Suc ((n + 1 - 1) div 61)" using True by simp
    have "workable os (b + 1120 * ((n + 1 - 1) div 61) + 1120) s srv" using Suc.prems(1) unfolding n by (simp add: ac_simps)
    from minute_lasts [OF this Suc.prems(2,3)] Suc.prems(4) True obtain s1 srv1 where
      1: "elTaskProc os (server_env os runs) s (Inr srv) = Inr (s1, Inr srv1, True)" "nTicks s1 = int 1"
        "workable os (b + 1120 * ((n + 1 - 1) div 61)) s1 srv1" "layout srv1 (g_ParaMet s1)" by auto
    from Suc.IH [OF 1(3,4) Suc.prems(3) 1(2)] show ?thesis using 1(1) n by auto
  qed
qed

section \<open>The example server\<close>

text \<open>Each field is four bytes at its own multiple of four.\<close>

lemma demo_window:
  assumes "\<forall>m < 128. port_of mem m \<noteq> 0 \<longleftrightarrow> m = 1 \<or> m = 2" and "(k, n) \<in> set (energy_windows mem @ result_windows mem)"
  shows "\<exists>j < 2. \<exists>i < 32. k = (of_nat (Suc j), demo_ids ! i) \<and> oop_field service_mem k = Some (128 * j + 4 * i, 4) \<and> n \<le> 4"
proof -
  have "\<exists>m di. (m = 1 \<or> m = 2) \<and> di \<in> set demo_ids \<and> k = (of_nat m, di) \<and> n \<le> 4"
  proof (cases "(k, n) \<in> set (energy_windows mem)")
    case True
    then obtain m i where "metered mem m" "i < 8" "k = (of_nat m, DI_ENERGY ! i)" "n = 4"
      by (auto simp: energy_windows_def set_taken)
    moreover have "DI_ENERGY ! i \<in> set demo_ids" if "i < 8" for i
      using demo_energy [OF that] demo_ids(2) that by simp
    ultimately show ?thesis using assms(1) by (auto simp: metered_def)
  next
    case False
    then have "(k, n) \<in> set (map access_window (save_puts mem []))" using assms(2) by (simp add: save_windows)
    then obtain l m p di bs u where "level_meter mem l = Some m" "p < 4" "(di, bs) \<in> set (unit_writes u p)"
      "k = (of_nat m, di)" "n = length bs" by (auto simp: save_puts_elem)
    moreover from this have "di \<in> set demo_ids" by (force simp: demo_ids_def unit_writes_def)
    moreover have "m = 1 \<or> m = 2" using level_meter_Some [OF \<open>level_meter mem l = Some m\<close>] assms(1) by (auto simp: has_meter_def)
    moreover have "n \<le> 4" using calculation by (auto simp: unit_writes_def)
    ultimately show ?thesis by blast
  qed
  then obtain m di where m: "m = 1 \<or> m = 2" "di \<in> set demo_ids" "k = (of_nat m, di)" "n \<le> 4" by blast
  from m(2) obtain i where "i < 32" "di = demo_ids ! i" using demo_ids(2) by (auto simp: in_set_conv_nth)
  then show ?thesis using m service_fields
    by (elim disjE) (auto intro: exI [of _ "0 :: nat"] exI [of _ "1 :: nat"])
qed

lemma service_layout:
  assumes "\<forall>m < 128. port_of mem m \<noteq> 0 \<longleftrightarrow> m = 1 \<or> m = 2"
  shows "layout service mem"
proof -
  let ?f = "oop_field service_mem" and ?ws = "energy_windows mem @ result_windows mem"
  have "k = k' \<or> (case (?f k, ?f k') of (Some (a, _), Some (b, _)) \<Rightarrow> b + n' \<le> a \<or> a + n \<le> b | _ \<Rightarrow> True)"
    if w: "(k, n) \<in> set ?ws" "(k', n') \<in> set ?ws" for k n k' n'
  proof -
    from demo_window [OF assms w(1)] obtain j i where 1: "j < 2" "i < 32" "k = (of_nat (Suc j), demo_ids ! i)"
      "?f k = Some (128 * j + 4 * i, 4)" "n \<le> 4" by blast
    from demo_window [OF assms w(2)] obtain j' i' where 2: "j' < 2" "i' < 32" "k' = (of_nat (Suc j'), demo_ids ! i')"
      "?f k' = Some (128 * j' + 4 * i', 4)" "n' \<le> 4" by blast
    show ?thesis
    proof (cases "j = j' \<and> i = i'")
      case True
      then show ?thesis using 1(3) 2(3) by simp
    next
      case False
      then have "32 * j' + i' < 32 * j + i \<or> 32 * j + i < 32 * j' + i'"
        using 1(1,2) 2(1,2) by (auto simp: less_2_cases_iff)
      then have "128 * j' + 4 * i' + n' \<le> 128 * j + 4 * i \<or> 128 * j + 4 * i + n \<le> 128 * j' + 4 * i'"
        using 1(5) 2(5) by (elim disjE) linarith+
      then show ?thesis unfolding 1(4) 2(4) prod.case option.case by (rule disjI2)
    qed
  qed
  then have "windows_apart ?f ?ws"
    unfolding windows_apart_def list_all_iff Ball_def split_paired_All prod.case by blast
  moreover have "list_all (\<lambda>(k, n). case ?f k of None \<Rightarrow> False | Some (a, l) \<Rightarrow> n \<le> l) (result_windows mem)"
    using demo_window [OF assms] by (fastforce simp: list_all_iff)
  ultimately show ?thesis by (simp add: layout_def service_def)
qed

section \<open>Properties\<close>

text \<open>
  C5: from the readings to the display: when the fields of a minute do not overlap and point 1 is the
  first meter of a level, the iteration of the data server's main loop that follows a minute of the
  task prints the loss of that level, computed from what its meters and those of the next level
  have used.
\<close>

theorem loss_rate_displayed:
  assumes "workable os (b + 1120) s srv" and "layout srv (g_ParaMet s)" and "scheduled runs" and "60 < nTicks s"
    and "level_meter (g_ParaMet s) l = Some 1" and "l < 4" and "t \<le> 70" and "0 \<le> t"
  shows "\<exists>s' srv'. elTaskProc os (server_env os runs) s (Inr srv) = Inr (s', Inr srv', True)
     \<and> main_tick (dp_mem srv') d t = Inr (dp_mem srv', nRatio (unit_at s' l 0), t + 1)
     \<and> unit_at s' l 0 = loss s' l 0 (unit_at s l 0)
     \<and> (\<forall>j < 4. used s' j 0 = counted (served srv) s j 0)"
proof -
  obtain s' srv' where 1: "elTaskProc os (server_env os runs) s (Inr srv) = Inr (s', Inr srv', True)" "workable os b s' srv'"
    "\<forall>l < 4. \<forall>i < 8. value_of i (s_EneUseUp s' ! l) = counted (served srv) s l i"
    "\<forall>l < 4. \<forall>p < 4. unit_at s' l p = loss s' l p (unit_at s l p)"
    and r: "\<forall>l d. l < 4 \<longrightarrow> level_meter (g_ParaMet s) l = Some 1 \<longrightarrow> shown (dp_mem srv') d = nRatio (unit_at s' l 0)"
    using minute_lasts [OF assms(1-4)] by blast
  have "valid_mem (dp_mem srv')" using 1(2) by (simp add: workable_def attached_to_def ready_def)
  from main_tick_closed [OF this, of t d] r assms(5-8)
  have "main_tick (dp_mem srv') d t = Inr (dp_mem srv', nRatio (unit_at s' l 0), t + 1)" by (simp add: addi_def)
  then show ?thesis using 1 assms(6) by (auto simp: used_def)
qed

lemma filter_one:
  assumes "\<And>m. m < 128 \<Longrightarrow> P m \<longleftrightarrow> m = k" and "k = 1 \<or> k = 2"
  shows "filter P [0 ..< 128] = [k]"
proof -
  have "filter P [0 ..< 128] = filter (\<lambda>m. m = k) [0 ..< 128]" using assms(1) by (intro filter_cong) simp_all
  then show ?thesis using assms(2) by (elim disjE) (simp_all add: upt_conv_Cons)
qed

lemma level_meter_1:
  assumes "\<forall>m < 128. port_of mem m \<noteq> 0 \<longleftrightarrow> m = 1 \<or> m = 2" and "level_of mem 1 = 0" and "level_of mem 2 = 1"
  shows "level_meter mem 0 = Some 1"
proof -
  have p: "has_meter mem (\<lambda>v. unat v = 0) 1" using assms by (auto simp: has_meter_def)
  have "\<not> has_meter mem (\<lambda>v. unat v = 0) 0" using assms(1) by (auto simp: has_meter_def)
  then show ?thesis using p by (simp add: level_meter_def upt_conv_Cons)
qed

theorem loss_rate_displayed_witness:
  "\<exists>s s' srv'. el_init good_os (Some (para_xml ''2'' shipped_paras)) app_before = Inr (s, True, True)
     \<and> elTaskProc good_os (server_env good_os (\<lambda>_. 1)) s (Inr service) = Inr (s', Inr srv', True)
     \<and> main_tick (dp_mem srv') (B32 0x40533333) 0 = Inr (dp_mem srv', nRatio (unit_at s' 0 0), 1)"
proof -
  obtain s where s: "el_init good_os (Some (para_xml ''2'' shipped_paras)) app_before = Inr (s, True, True)"
    "workable good_os (1120 + 1120) s service" "nTicks s = 61"
    and p: "\<forall>m < 128. port_of (g_ParaMet s) m \<noteq> 0 \<longleftrightarrow> m = 1 \<or> m = 2"
      "level_of (g_ParaMet s) 1 = 0" "level_of (g_ParaMet s) 2 = 1"
    using app_started by auto
  from loss_rate_displayed [OF s(2) service_layout [OF p(1)] demo_pair(5) _ level_meter_1 [OF p], of 0 "B32 0x40533333"] s(1,3)
  show ?thesis by auto
qed

text \<open>
  C6: the task goes on: on a memory whose fields do not overlap, any number of iterations returns as long
  as the client's sequence number has room, having worked once in 61; and after them the task can
  still work.
\<close>

theorem task_goes_on:
  assumes "workable os (b + 1120 * ((n + t - 1) div 61)) s srv" and "layout srv (g_ParaMet s)" and "scheduled runs"
    and "nTicks s = int t" and "t \<le> 61"
  shows "\<exists>s' srv' bs. task_run os (server_env os runs) n s (Inr srv) = Inr (s', Inr srv', bs) \<and> workable os b s' srv'
     \<and> layout srv' (g_ParaMet s') \<and> length (filter (\<lambda>x. x) bs) = (n + t - 1) div 61"
  using assms by (rule task_lasts)

theorem task_goes_on_witness:
  "\<exists>s s' srv' bs. el_init good_os (Some (para_xml ''2'' shipped_paras)) app_before = Inr (s, True, True)
     \<and> task_run good_os (server_env good_os (\<lambda>_. 1)) 60 s (Inr service) = Inr (s', Inr srv', bs) \<and> length (filter (\<lambda>x. x) bs) = 1"
proof -
  obtain s where s: "el_init good_os (Some (para_xml ''2'' shipped_paras)) app_before = Inr (s, True, True)"
    "workable good_os 2240 s service" "nTicks s = 61" and p: "\<forall>m < 128. port_of (g_ParaMet s) m \<noteq> 0 \<longleftrightarrow> m = 1 \<or> m = 2"
    using app_started by blast
  from task_goes_on [of good_os 1120 60 61 s service, OF _ service_layout [OF p] demo_pair(5)] s show ?thesis by auto
qed

end
