(* ===== verification/MemWj.thy ===== *)
theory MemWj
  imports MemAccess MemLoad MemMap ElMeter
begin

text \<open>
  The older data memory, \<^verbatim>\<open>code/mem_wj.c\<close> with its header \<^verbatim>\<open>mem_wj.h\<close>: the same loaders and access
  functions as \<^verbatim>\<open>mem.c\<close>, its own copies of the scanners, a table of meter parameters, and signal
  points that also carry a point number and an identifier.  The makefile does not build it.  Its
  definitions have the suffix \<open>wj\<close>.  \<^verbatim>\<open>MAX_METER\<close>, which no header of \<^verbatim>\<open>code/\<close> defines, is the
  argument \<open>maxm\<close>.
\<close>

section \<open>Copies\<close>

definition str2dec_wj :: "u8 list \<Rightarrow> int res" where
  "str2dec_wj = str2dec"

definition str2hex_wj :: "u8 list \<Rightarrow> u8 list \<Rightarrow> nat \<Rightarrow> int \<Rightarrow> (u8 list \<times> int) res" where
  "str2hex_wj = str2hex"

definition reversecpy_wj :: "u8 list \<Rightarrow> u8 list \<Rightarrow> int \<Rightarrow> u8 list res" where
  "reversecpy_wj = reversecpy"

definition smallcpy_wj :: "u8 list \<Rightarrow> int \<Rightarrow> u8 list \<Rightarrow> int \<Rightarrow> int \<Rightarrow> u8 list res" where
  "smallcpy_wj = smallcpy"

definition get_cfg_num_wj :: "xmlNode option \<Rightarrow> int res" where
  "get_cfg_num_wj = get_cfg_num"

definition rh_mem_map_init_wj :: "alloc_env \<Rightarrow> xmlDoc option \<Rightarrow> (MEM_MAP_T \<times> int) res" where
  "rh_mem_map_init_wj = rh_mem_map_init"

lemmas wj_copy = str2dec_wj_def str2hex_wj_def reversecpy_wj_def smallcpy_wj_def get_cfg_num_wj_def
  rh_mem_map_init_wj_def

section \<open>Tables\<close>

record POINT_ITEM_wj = POINT_ITEM_T +
  pt_pn :: u16
  pt_id :: u32

record POINT_LIST_wj =
  plw_nNum :: int
  plw_point :: "POINT_ITEM_wj list option"
  plw_lock :: lock

record POINT_MAP_wj =
  ym_list_wj :: POINT_LIST_wj
  yx_list_wj :: POINT_LIST_wj
  yc_list_wj :: POINT_LIST_wj
  id_list_wj :: ID_LIST_T

record mem_wj =
  wj_pointMap :: POINT_MAP_wj
  wj_memMap :: MEM_MAP_T
  wj_pDataMem :: "u8 list option"
  wj_ParaMet :: "u8 list"

definition fresh_point_wj :: "alloc_env \<Rightarrow> nat \<Rightarrow> POINT_ITEM_wj" where
  "fresh_point_wj env i =
     \<lparr>pt_ied_tag = fresh_bytes env (204 * i) 64,
      pt_do_tag = fresh_bytes env (204 * i + 64) 64,
      pt_dotype_tag = fresh_bytes env (204 * i + 128) 64,
      pt_addr = sint (u32_le (fresh_bytes env (204 * i + 192) 4)),
      pt_pn = u16_le (fresh_bytes env (204 * i + 196) 2),
      pt_id = u32_le (fresh_bytes env (204 * i + 200) 4)\<rparr>"

definition zero_list_wj :: POINT_LIST_wj where
  "zero_list_wj = \<lparr>plw_nNum = 0, plw_point = None, plw_lock = NoLock\<rparr>"

definition zero_pointMap_wj :: POINT_MAP_wj where
  "zero_pointMap_wj =
     \<lparr>ym_list_wj = zero_list_wj, yx_list_wj = zero_list_wj, yc_list_wj = zero_list_wj,
      id_list_wj = \<lparr>il_nNum = 0, il_pItem = None\<rparr>\<rparr>"

text \<open>\<^verbatim>\<open>s_ParaMet\<close> has \<^verbatim>\<open>MAX_METER\<close> elements of 52 bytes.\<close>

definition zero_ParaMet_wj :: "nat \<Rightarrow> u8 list" where
  "zero_ParaMet_wj maxm = replicate (maxm * 52) 0"

definition mem_start_wj :: "nat \<Rightarrow> mem_wj" where
  "mem_start_wj maxm = \<lparr>wj_pointMap = zero_pointMap_wj, wj_memMap = zero_memMap, wj_pDataMem = None,
     wj_ParaMet = zero_ParaMet_wj maxm\<rparr>"

section \<open>Meter parameters\<close>

text \<open>
  One element of \<^verbatim>\<open>IED_PARA\<close>, with the offsets of \<^verbatim>\<open>OOP_METER_T\<close>, which is the struct of
  \<^verbatim>\<open>elMeter.h\<close>.
\<close>

definition poke_dec_wj :: "u8 list \<Rightarrow> int \<Rightarrow> string \<Rightarrow> u8 list res" where
  "poke_dec_wj mem a s = bindR (str2dec_wj (cstr s)) (\<lambda>v. poke mem a (le32 (word_of_int v)))"

definition para_item_wj :: "nat \<Rightarrow> u8 list \<Rightarrow> xmlNode \<Rightarrow> (u8 list \<times> load_end) res" where
  "para_item_wj maxm mem n =
     (case xmlGetProp n ''index'' of
        None \<Rightarrow> Inr (mem, Return)
      | Some s \<Rightarrow>
          bindR (str2dec_wj (cstr s)) (\<lambda>nPn.
          if nPn \<ge> int maxm then Inr (mem, Break)
          else
          bindR (poke mem (met_nIndex nPn) (le16 (word_of_int nPn))) (\<lambda>mem.
          bindR (case xmlGetProp n ''addr'' of
                   None \<Rightarrow> Inr mem
                 | Some a \<Rightarrow> bindR (strlen (cstr a)) (\<lambda>len.
                     bindR (str2hex_wj (cstr a) mem (nat (met_add nPn)) (int len)) (\<lambda>(mem, _). Inr mem))) (\<lambda>mem.
          case xmlGetProp n ''baud'' of
            None \<Rightarrow> Inr (mem, Return)
          | Some b \<Rightarrow>
          bindR (poke_dec_wj mem (met_baud nPn) b) (\<lambda>mem.
          case xmlGetProp n ''proto'' of
            None \<Rightarrow> Inr (mem, Return)
          | Some pr \<Rightarrow>
          bindR (poke_dec_wj mem (met_protocol nPn) pr) (\<lambda>mem.
          bindR (case xmlGetProp n ''port'' of
                   None \<Rightarrow> Inr mem
                 | Some q \<Rightarrow>
                     bindR (str2hex_wj (cstr q) (le32 0) 0 8) (\<lambda>(nPort, _).
                     bindR (peek mem (met_port nPn) 4) (\<lambda>port.
                     bindR (reversecpy_wj port nPort 4) (\<lambda>port.
                       poke mem (met_port nPn) port)))) (\<lambda>mem.
          case xmlGetProp n ''userType'' of
            None \<Rightarrow> Inr (mem, Return)
          | Some u \<Rightarrow>
          bindR (poke_dec_wj mem (met_userType nPn) u) (\<lambda>mem.
          case xmlGetProp n ''level'' of
            None \<Rightarrow> Inr (mem, Return)
          | Some l \<Rightarrow>
          bindR (poke_dec_wj mem (met_level nPn) l) (\<lambda>mem. Inr (mem, Continue))))))))))"

fun load_paras_wj :: "nat \<Rightarrow> int \<Rightarrow> xmlNode list \<Rightarrow> nat \<Rightarrow> u8 list \<Rightarrow> (u8 list \<times> int) res" where
  "load_paras_wj maxm nMetNum [] idx mem = Inr (mem, int idx)"
| "load_paras_wj maxm nMetNum (n # ns) idx mem =
     (if int idx > nMetNum then Inr (mem, int idx)
      else bindR (para_item_wj maxm mem n) (\<lambda>(mem, e).
             case e of
               Continue \<Rightarrow> load_paras_wj maxm nMetNum ns (Suc idx) mem
             | Break \<Rightarrow> Inr (mem, int idx)
             | Return \<Rightarrow> Inr (mem, - 1)))"

definition rh_meter_param_load_wj :: "nat \<Rightarrow> xmlDoc option \<Rightarrow> (u8 list \<times> int) res" where
  "rh_meter_param_load_wj maxm doc =
     (let zero = zero_ParaMet_wj maxm in
      case doc of
        None \<Rightarrow> Inr (zero, - 1)
      | Some d \<Rightarrow>
     (case xmlDocGetRootElement d of
        None \<Rightarrow> Inr (zero, - 1)
      | Some rootNode \<Rightarrow>
     (case find_by_name (node_children rootNode) ''IED_PARA'' of
        None \<Rightarrow> Inr (zero, - 1)
      | Some iedPara \<Rightarrow>
          bindR (get_cfg_num_wj (Some iedPara)) (\<lambda>nMetNum.
          if nMetNum \<le> 0 then Inr (zero, - 1)
          else load_paras_wj maxm nMetNum (node_children iedPara) 0 zero))))"

section \<open>Point tables\<close>

definition point_path_parse_wj :: "POINT_ITEM_wj \<Rightarrow> u8 list option \<Rightarrow> POINT_ITEM_wj res" where
  "point_path_parse_wj pItem path =
     (case path of
        None \<Rightarrow> Inr pItem
      | Some s \<Rightarrow>
          bindR (strlen s) (\<lambda>len.
            let p = take len s in
            bindR (copy_seg (pt_ied_tag pItem) p 0) (\<lambda>(t1, i).
            let offset = i + 1 in
            bindR (copy_seg (pt_do_tag pItem) (drop offset p) 0) (\<lambda>(t2, k).
            let offset = offset + k + 1 in
            bindR (copy_rest (pt_dotype_tag pItem) (drop offset p) 0) (\<lambda>(t3, n).
            bindR (wr t3 n 0) (\<lambda>t3.
              Inr (pItem\<lparr>pt_ied_tag := t1, pt_do_tag := t2, pt_dotype_tag := t3\<rparr>)))))))"

definition yc_item_wj :: "POINT_ITEM_wj list \<Rightarrow> nat \<Rightarrow> xmlNode \<Rightarrow> (POINT_ITEM_wj list \<times> bool) res" where
  "yc_item_wj pts ycNum doNode =
     (case xmlGetProp doNode ''addr'' of
        None \<Rightarrow> Inr (pts, False)
      | Some a \<Rightarrow>
          bindR (str2dec_wj (cstr a)) (\<lambda>v.
          bindR (upd pts ycNum (\<lambda>p. Inr (p\<lparr>pt_addr := v\<rparr>))) (\<lambda>pts.
          case xmlGetProp doNode ''path'' of
            None \<Rightarrow> Inr (pts, False)
          | Some s \<Rightarrow>
              bindR (upd pts ycNum (\<lambda>p. point_path_parse_wj p (Some (cstr s)))) (\<lambda>pts.
                Inr (pts, True)))))"

text \<open>
  A signal entry.  The point number is stored as an \<^verbatim>\<open>int\<close> through a pointer to the 16 bit member
  \<^verbatim>\<open>pn\<close>, which two bytes of padding follow, so its low half is kept; the identifier is scanned
  into a four byte variable with a limit of eight bytes.
\<close>

definition yx_item_wj :: "POINT_ITEM_wj list \<Rightarrow> nat \<Rightarrow> xmlNode \<Rightarrow> (POINT_ITEM_wj list \<times> bool) res" where
  "yx_item_wj pts yxNum doNode =
     bindR (case xmlGetProp doNode ''addr'' of
              None \<Rightarrow> Inr pts
            | Some a \<Rightarrow> bindR (str2dec_wj (cstr a)) (\<lambda>v.
                          upd pts yxNum (\<lambda>p. Inr (p\<lparr>pt_addr := v\<rparr>)))) (\<lambda>pts.
     bindR (case xmlGetProp doNode ''pn'' of
              None \<Rightarrow> Inr pts
            | Some a \<Rightarrow> bindR (str2dec_wj (cstr a)) (\<lambda>v.
                          upd pts yxNum (\<lambda>p. Inr (p\<lparr>pt_pn := word_of_int v\<rparr>)))) (\<lambda>pts.
     bindR (case xmlGetProp doNode ''id'' of
              None \<Rightarrow> Inr pts
            | Some h \<Rightarrow> bindR (str2hex_wj (cstr h) (le32 0) 0 8) (\<lambda>(id, k).
                          upd pts yxNum (\<lambda>p. bindR (reversecpy_wj (le32 (pt_id p)) id 4) (\<lambda>b.
                            Inr (p\<lparr>pt_id := u32_le b\<rparr>))))) (\<lambda>pts.
     bindR (case xmlGetProp doNode ''path'' of
              None \<Rightarrow> Inr pts
            | Some s \<Rightarrow> upd pts yxNum (\<lambda>p. point_path_parse_wj p (Some (cstr s)))) (\<lambda>pts.
       Inr (pts, True)))))"

definition ym_item_wj :: "POINT_ITEM_wj list \<Rightarrow> nat \<Rightarrow> xmlNode \<Rightarrow> (POINT_ITEM_wj list \<times> bool) res" where
  "ym_item_wj pts ymNum doNode =
     bindR (deref (xmlGetProp doNode ''addr'')) (\<lambda>a.
     bindR (str2dec_wj a) (\<lambda>v.
     bindR (upd pts ymNum (\<lambda>p. Inr (p\<lparr>pt_addr := v\<rparr>))) (\<lambda>pts.
     bindR (upd pts ymNum (\<lambda>p. point_path_parse_wj p (map_option cstr (xmlGetProp doNode ''path'')))) (\<lambda>pts.
       Inr (pts, True)))))"

fun load_items_wj ::
  "(POINT_ITEM_wj list \<Rightarrow> nat \<Rightarrow> xmlNode \<Rightarrow> (POINT_ITEM_wj list \<times> bool) res) \<Rightarrow>
   int \<Rightarrow> xmlNode list \<Rightarrow> nat \<Rightarrow> POINT_ITEM_wj list \<Rightarrow> (POINT_ITEM_wj list \<times> bool) res" where
  "load_items_wj item nNum [] k pts = Inr (pts, True)"
| "load_items_wj item nNum (n # ns) k pts =
     (if int k > nNum then Inr (pts, True)
      else bindR (item pts k n) (\<lambda>(pts, ok).
             if ok then load_items_wj item nNum ns (Suc k) pts else Inr (pts, False)))"

definition load_point_list_wj ::
  "alloc_env \<Rightarrow> DATA_TYPE_E \<Rightarrow> string \<Rightarrow>
   (POINT_ITEM_wj list \<Rightarrow> nat \<Rightarrow> xmlNode \<Rightarrow> (POINT_ITEM_wj list \<times> bool) res) \<Rightarrow>
   xmlNode \<Rightarrow> POINT_LIST_wj \<Rightarrow> (POINT_LIST_wj \<times> bool) res" where
  "load_point_list_wj env ty t item iedNode pl =
     (case find_by_tag (node_children iedNode) t of
        None \<Rightarrow> Inr (pl, True)
      | Some node \<Rightarrow>
          bindR (deref (xmlGetProp node ''num'')) (\<lambda>s.
          bindR (str2dec_wj s) (\<lambda>n.
          let pl = pl\<lparr>plw_nNum := n\<rparr> in
          if \<not> alloc env (PointLock ty) 1 then Inr (pl\<lparr>plw_lock := NoLock\<rparr>, False)
          else
            let pl = pl\<lparr>plw_lock := Unlocked\<rparr> in
            if n > 0 then
              (if alloc env (PointItems ty) n then
                 bindR (load_items_wj item n (node_children node) 0 (map (fresh_point_wj env) [0 ..< nat n]))
                   (\<lambda>(pts, ok). Inr (pl\<lparr>plw_point := Some pts\<rparr>, ok))
               else Inr (pl\<lparr>plw_point := None\<rparr>, True))
            else Inr (pl, True))))"

definition load_yc_wj :: "alloc_env \<Rightarrow> xmlNode \<Rightarrow> POINT_MAP_wj \<Rightarrow> (POINT_MAP_wj \<times> bool) res" where
  "load_yc_wj env iedNode pm =
     bindR (load_point_list_wj env DATA_YC ''YC'' yc_item_wj iedNode (yc_list_wj pm)) (\<lambda>(pl, ok).
       Inr (pm\<lparr>yc_list_wj := pl\<rparr>, ok))"

definition load_yx_wj :: "alloc_env \<Rightarrow> xmlNode \<Rightarrow> POINT_MAP_wj \<Rightarrow> (POINT_MAP_wj \<times> bool) res" where
  "load_yx_wj env iedNode pm =
     bindR (load_point_list_wj env DATA_YX ''YX'' yx_item_wj iedNode (yx_list_wj pm)) (\<lambda>(pl, ok).
       Inr (pm\<lparr>yx_list_wj := pl\<rparr>, ok))"

definition load_ym_wj :: "alloc_env \<Rightarrow> xmlNode \<Rightarrow> POINT_MAP_wj \<Rightarrow> (POINT_MAP_wj \<times> bool) res" where
  "load_ym_wj env iedNode pm =
     bindR (load_point_list_wj env DATA_YM ''YM'' ym_item_wj iedNode (ym_list_wj pm)) (\<lambda>(pl, ok).
       Inr (pm\<lparr>ym_list_wj := pl\<rparr>, ok))"

definition id_item_wj :: "ID_ITEM_T \<Rightarrow> xmlNode \<Rightarrow> ID_ITEM_T res" where
  "id_item_wj it idNode =
     bindR (deref (xmlGetProp idNode ''name'')) (\<lambda>nm.
     bindR (strcpy (id_do_tag it) 0 nm) (\<lambda>t1.
     bindR (deref (xmlGetProp idNode ''tag'')) (\<lambda>tg.
     bindR (strcpy (id_dotype_tag it) 0 tg) (\<lambda>t2.
     bindR (deref (xmlGetProp idNode ''id'')) (\<lambda>h.
     bindR (str2hex_wj h (le32 0) 0 8) (\<lambda>(id, k).
     bindR (reversecpy_wj (le32 (id_id it)) id 4) (\<lambda>b.
       Inr \<lparr>id_id = u32_le b, id_do_tag = t1, id_dotype_tag = t2\<rparr>)))))))"

fun load_ids_wj :: "int \<Rightarrow> xmlNode list \<Rightarrow> nat \<Rightarrow> ID_ITEM_T list \<Rightarrow> ID_ITEM_T list res" where
  "load_ids_wj nNum [] k items = Inr items"
| "load_ids_wj nNum (n # ns) k items =
     (if int k \<ge> nNum then Inr items
      else bindR (upd items k (\<lambda>it. id_item_wj it n)) (\<lambda>items. load_ids_wj nNum ns (Suc k) items))"

definition load_id_wj :: "alloc_env \<Rightarrow> xmlNode \<Rightarrow> POINT_MAP_wj \<Rightarrow> (POINT_MAP_wj \<times> bool) res" where
  "load_id_wj env rootNode pm =
     (case find_by_name (node_children rootNode) ''ID_CFG'' of
        None \<Rightarrow> Inr (pm, True)
      | Some cfg \<Rightarrow>
          bindR (deref (xmlGetProp cfg ''num'')) (\<lambda>s.
          bindR (str2dec_wj s) (\<lambda>n.
          let pm = pm\<lparr>id_list_wj := (id_list_wj pm)\<lparr>il_nNum := n\<rparr>\<rparr> in
          if \<not> alloc env IdItems n
          then Inr (pm\<lparr>id_list_wj := (id_list_wj pm)\<lparr>il_pItem := None\<rparr>\<rparr>, False)
          else
            bindR (load_ids_wj n (node_children cfg) 0 (map (fresh_id env) [0 ..< nat n])) (\<lambda>items.
              Inr (pm\<lparr>id_list_wj := (id_list_wj pm)\<lparr>il_pItem := Some items\<rparr>\<rparr>, True)))))"

definition rh_point_list_load_wj :: "alloc_env \<Rightarrow> xmlDoc option \<Rightarrow> (POINT_MAP_wj \<times> int) res" where
  "rh_point_list_load_wj env doc =
     (case doc of
        None \<Rightarrow> Inr (zero_pointMap_wj, - 1)
      | Some d \<Rightarrow>
     (case xmlDocGetRootElement d of
        None \<Rightarrow> Inr (zero_pointMap_wj, - 1)
      | Some rootNode \<Rightarrow>
     (case find_by_name (node_children rootNode) ''IED_CFG'' of
        None \<Rightarrow> Inr (zero_pointMap_wj, - 1)
      | Some iedCfgNode \<Rightarrow>
     (case find_by_tag (node_children iedCfgNode) ''104tstied'' of
        None \<Rightarrow> Inr (zero_pointMap_wj, - 1)
      | Some iedNode \<Rightarrow>
          bindR (load_yc_wj env iedNode zero_pointMap_wj) (\<lambda>(pm, ok).
          if \<not> ok then Inr (pm, - 1) else
          bindR (load_yx_wj env iedNode pm) (\<lambda>(pm, ok).
          if \<not> ok then Inr (pm, - 1) else
          bindR (load_ym_wj env iedNode pm) (\<lambda>(pm, ok).
          if \<not> ok then Inr (pm, - 1) else
          bindR (load_id_wj env rootNode pm) (\<lambda>(pm, ok).
          if \<not> ok then Inr (pm, - 1) else Inr (pm, 0)))))))))"

text \<open>\<^verbatim>\<open>rh_mem_get_yx_addr\<close>: the loop reads \<^verbatim>\<open>point[i]\<close>, \<open>k\<close> rounds left.\<close>

fun yx_addr_loop :: "POINT_ITEM_wj list option \<Rightarrow> u16 \<Rightarrow> u32 \<Rightarrow> nat \<Rightarrow> nat \<Rightarrow> int res" where
  "yx_addr_loop p nPn nId i 0 = Inr (- 1)"
| "yx_addr_loop p nPn nId i (Suc k) =
     bindR (rdp p i) (\<lambda>item.
       if nPn = pt_pn item \<and> nId = pt_id item then Inr (pt_addr item)
       else yx_addr_loop p nPn nId (Suc i) k)"

definition rh_mem_get_yx_addr_wj :: "mem_wj \<Rightarrow> u16 \<Rightarrow> u32 \<Rightarrow> int res" where
  "rh_mem_get_yx_addr_wj m nPn nId =
     (let pl = yx_list_wj (wj_pointMap m) in yx_addr_loop (plw_point pl) nPn nId 0 (nat (plw_nNum pl)))"

section \<open>Access by identifier\<close>

definition on_ied_lock_wj :: "(lock \<Rightarrow> lock res) \<Rightarrow> nat \<Rightarrow> mem_wj \<Rightarrow> mem_wj res" where
  "on_ied_lock_wj f i m =
     (case mm_pIedList (wj_memMap m) of
        None \<Rightarrow> Inl NullPtr
      | Some ieds \<Rightarrow>
          bindR (upd ieds i (\<lambda>ied. bindR (f (ied_lock ied)) (\<lambda>l. Inr (ied\<lparr>ied_lock := l\<rparr>)))) (\<lambda>ieds.
            Inr (m\<lparr>wj_memMap := (wj_memMap m)\<lparr>mm_pIedList := Some ieds\<rparr>\<rparr>)))"

definition mem_write_wj :: "mem_wj \<Rightarrow> int \<Rightarrow> u8 list \<Rightarrow> int \<Rightarrow> mem_wj res" where
  "mem_write_wj m a data datalen =
     (case wj_pDataMem m of
        None \<Rightarrow> if datalen \<le> 0 then Inr m else Inl NullPtr
      | Some mem \<Rightarrow> bindR (smallcpy_wj mem a data 0 datalen) (\<lambda>mem.
                      Inr (m\<lparr>wj_pDataMem := Some mem\<rparr>)))"

definition mem_read_wj :: "mem_wj \<Rightarrow> u8 list \<Rightarrow> int \<Rightarrow> int \<Rightarrow> u8 list res" where
  "mem_read_wj m data a len =
     (case wj_pDataMem m of
        None \<Rightarrow> if len \<le> 0 then Inr data else Inl NullPtr
      | Some mem \<Rightarrow> smallcpy_wj data 0 mem a len)"

text \<open>
  The four searches of the identifier functions.  The last is followed by no check: when the
  type name does not occur, the entry behind the list is used.
\<close>

definition find_oop_wj ::
  "mem_wj \<Rightarrow> u16 \<Rightarrow> u32 \<Rightarrow> (nat \<times> IED_DO_LIST_T \<times> DOTTYPE_DO_UNIT_T) option res" where
  "find_oop_wj m nPn nDi =
     (let pMapList = wj_memMap m; ids = id_list_wj (wj_pointMap m) in
      bindR (scan (\<lambda>ied. Inr (nPn = ied_nPn ied)) (mm_pIedList pMapList) (mm_nNum pMapList)) (\<lambda>i.
      if int i \<ge> mm_nNum pMapList then Inr None else
      bindR (rdp (mm_pIedList pMapList) i) (\<lambda>pied.
      bindR (scan (\<lambda>it. Inr (nDi = id_id it)) (il_pItem ids) (il_nNum ids)) (\<lambda>j.
      if int j \<ge> il_nNum ids then Inr None else
      bindR (rdp (il_pItem ids) j) (\<lambda>pIDItem.
      bindR (scan (\<lambda>d. str_eq (id_do_tag pIDItem) (dl_do_tag d)) (ied_pDoList pied) (ied_nNum pied)) (\<lambda>k.
      if int k \<ge> ied_nNum pied then Inr None else
      bindR (rdp (ied_pDoList pied) k) (\<lambda>pDo.
      bindR (scan (\<lambda>u. str_eq (id_dotype_tag pIDItem) (du_dotype_tag u))
               (dl_pDotList_698 pDo) (dl_nNum pDo)) (\<lambda>l.
      bindR (rdp (dl_pDotList_698 pDo) l) (\<lambda>pDotType.
        Inr (Some (i, pDo, pDotType)))))))))))"

definition rh_mem_data_write_oop_wj ::
  "mem_wj \<Rightarrow> u16 \<Rightarrow> u32 \<Rightarrow> u8 list \<Rightarrow> int \<Rightarrow> (mem_wj \<times> int) res" where
  "rh_mem_data_write_oop_wj m nPn nDi data datalen =
     bindR (find_oop_wj m nPn nDi) (\<lambda>r.
     case r of
       None \<Rightarrow> Inr (m, - 1)
     | Some (i, pDo, pDotType) \<Rightarrow>
         if datalen \<noteq> du_dataLen pDotType then Inr (m, - 1)
         else
           bindR (on_ied_lock_wj mutex_lock i m) (\<lambda>m.
           bindR (mem_write_wj m (data_addr pDo pDotType) data datalen) (\<lambda>m.
           bindR (on_ied_lock_wj mutex_unlock i m) (\<lambda>m. Inr (m, 0)))))"

definition rh_mem_data_read_oop_wj ::
  "mem_wj \<Rightarrow> u16 \<Rightarrow> u32 \<Rightarrow> u8 list \<Rightarrow> int \<Rightarrow> (mem_wj \<times> u8 list \<times> int) res" where
  "rh_mem_data_read_oop_wj m nPn nDi data datalen =
     bindR (find_oop_wj m nPn nDi) (\<lambda>r.
     case r of
       None \<Rightarrow> Inr (m, data, - 1)
     | Some (i, pDo, pDotType) \<Rightarrow>
         bindR (on_ied_lock_wj mutex_lock i m) (\<lambda>m.
         bindR (mem_read_wj m data (data_addr pDo pDotType) (du_dataLen pDotType)) (\<lambda>data.
         bindR (on_ied_lock_wj mutex_unlock i m) (\<lambda>m. Inr (m, data, du_dataLen pDotType)))))"

section \<open>Access by address\<close>

fun point_list_wj :: "DATA_TYPE_E \<Rightarrow> POINT_MAP_wj \<Rightarrow> POINT_LIST_wj" where
  "point_list_wj DATA_YC pm = yc_list_wj pm"
| "point_list_wj DATA_YX pm = yx_list_wj pm"
| "point_list_wj DATA_YM pm = ym_list_wj pm"

fun set_point_list_wj :: "DATA_TYPE_E \<Rightarrow> POINT_LIST_wj \<Rightarrow> POINT_MAP_wj \<Rightarrow> POINT_MAP_wj" where
  "set_point_list_wj DATA_YC pl pm = pm\<lparr>yc_list_wj := pl\<rparr>"
| "set_point_list_wj DATA_YX pl pm = pm\<lparr>yx_list_wj := pl\<rparr>"
| "set_point_list_wj DATA_YM pl pm = pm\<lparr>ym_list_wj := pl\<rparr>"

definition on_list_lock_wj :: "(lock \<Rightarrow> lock res) \<Rightarrow> DATA_TYPE_E \<Rightarrow> mem_wj \<Rightarrow> mem_wj res" where
  "on_list_lock_wj f ty m =
     (let pl = point_list_wj ty (wj_pointMap m) in
      bindR (f (plw_lock pl)) (\<lambda>l.
        Inr (m\<lparr>wj_pointMap := set_point_list_wj ty (pl\<lparr>plw_lock := l\<rparr>) (wj_pointMap m)\<rparr>)))"

function bisect_wj :: "POINT_ITEM_wj list option \<Rightarrow> int \<Rightarrow> int \<Rightarrow> int \<Rightarrow> int option res" where
  "bisect_wj p addr_start nStart nEnd =
     (if nStart \<le> nEnd then
        bindR (rdpi p ((nStart + nEnd) div 2)) (\<lambda>x.
          if pt_addr x = addr_start then Inr (Some ((nStart + nEnd) div 2))
          else if pt_addr x < addr_start then bisect_wj p addr_start ((nStart + nEnd) div 2 + 1) nEnd
          else bisect_wj p addr_start nStart ((nStart + nEnd) div 2 - 1))
      else Inr None)"
  by pat_completeness auto
termination
  by (relation "measure (\<lambda>(p, a, s, e). nat (e - s + 1))") auto

declare bisect_wj.simps [simp del]

text \<open>The searches of the address functions; without the check, \<open>NoDot\<close> does not occur.\<close>

definition find_iec_wj :: "mem_wj \<Rightarrow> DATA_TYPE_E \<Rightarrow> int \<Rightarrow> iec_find res" where
  "find_iec_wj m ty addr_start =
     (let pMapList = wj_memMap m; pList = point_list_wj ty (wj_pointMap m) in
      bindR (bisect_wj (plw_point pList) addr_start 0 (plw_nNum pList)) (\<lambda>r.
      case r of None \<Rightarrow> Inr NoAddr | Some nMid \<Rightarrow>
      bindR (rdpi (plw_point pList) nMid) (\<lambda>point.
      bindR (scan (\<lambda>ied. str_eq (pt_ied_tag point) (ied_tag ied))
               (mm_pIedList pMapList) (mm_nNum pMapList)) (\<lambda>i.
      if int i \<ge> mm_nNum pMapList then Inr NoIed else
      bindR (rdp (mm_pIedList pMapList) i) (\<lambda>pied.
      bindR (scan (\<lambda>d. str_eq (pt_do_tag point) (dl_do_tag d)) (ied_pDoList pied) (ied_nNum pied)) (\<lambda>k.
      if int k \<ge> ied_nNum pied then Inr NoDo else
      bindR (rdp (ied_pDoList pied) k) (\<lambda>pDo.
      bindR (scan (\<lambda>u. str_eq (pt_dotype_tag point) (du_dotype_tag u))
               (dl_pDotList_104 pDo) (dl_nNum pDo)) (\<lambda>l.
        Inr (Found i pDo (dl_pDotList_104 pDo) l)))))))))"

definition rh_mem_data_write_iec_wj ::
  "mem_wj \<Rightarrow> u8 \<Rightarrow> int \<Rightarrow> int \<Rightarrow> u8 list \<Rightarrow> int \<Rightarrow> (mem_wj \<times> int) res" where
  "rh_mem_data_write_iec_wj m dataType addr_start nNum data datalen =
     (case data_type_of dataType of
        None \<Rightarrow> Inr (m, - 1)
      | Some ty \<Rightarrow>
          bindR (on_list_lock_wj mutex_lock ty m) (\<lambda>m.
          bindR (find_iec_wj m ty addr_start) (\<lambda>r.
          case r of
            Found i pDo us l \<Rightarrow>
              bindR (rdp us l) (\<lambda>pDotType.
              bindR (on_ied_lock_wj mutex_lock i m) (\<lambda>m.
              bindR (mem_write_wj m (data_addr pDo pDotType) data datalen) (\<lambda>m.
              bindR (on_ied_lock_wj mutex_unlock i m) (\<lambda>m.
              bindR (on_list_lock_wj mutex_unlock ty m) (\<lambda>m. Inr (m, 0))))))
          | _ \<Rightarrow> bindR (on_list_lock_wj mutex_unlock ty m) (\<lambda>m. Inr (m, - 1)))))"

text \<open>The reader returns with the table mutex held when the device is not found.\<close>

definition rh_mem_data_read_iec_wj ::
  "mem_wj \<Rightarrow> u8 \<Rightarrow> int \<Rightarrow> int \<Rightarrow> u8 list \<Rightarrow> int \<Rightarrow> (mem_wj \<times> u8 list \<times> int) res" where
  "rh_mem_data_read_iec_wj m dataType addr_start nNum data sz =
     (case data_type_of dataType of
        None \<Rightarrow> Inr (m, data, - 1)
      | Some ty \<Rightarrow>
          bindR (on_list_lock_wj mutex_lock ty m) (\<lambda>m.
          bindR (find_iec_wj m ty addr_start) (\<lambda>r.
          case r of
            NoIed \<Rightarrow> Inr (m, data, - 1)
          | Found i pDo us l \<Rightarrow>
              bindR (sum_lens us l (nat nNum) 0) (\<lambda>datalen.
              if datalen > sz
              then bindR (on_list_lock_wj mutex_unlock ty m) (\<lambda>m. Inr (m, data, - 1))
              else
                bindR (rdp us l) (\<lambda>pDotType.
                bindR (on_ied_lock_wj mutex_lock i m) (\<lambda>m.
                bindR (mem_read_wj m data (data_addr pDo pDotType) datalen) (\<lambda>data.
                bindR (on_ied_lock_wj mutex_unlock i m) (\<lambda>m.
                bindR (on_list_lock_wj mutex_unlock ty m) (\<lambda>m. Inr (m, data, datalen)))))))
          | _ \<Rightarrow> bindR (on_list_lock_wj mutex_unlock ty m) (\<lambda>m. Inr (m, data, - 1)))))"

section \<open>Start\<close>

text \<open>
  \<^verbatim>\<open>rh_mem_init\<close>: the test before the last \<^verbatim>\<open>return -1\<close> is commented out, so the allocation of the
  data memory is never reached.  \<open>doc1\<close> and \<open>doc2\<close> are the two parses of \<^verbatim>\<open>/opt/app/meter.xml\<close>,
  \<open>doc3\<close> is that of \<^verbatim>\<open>/data/app/test.xml\<close>.
\<close>

definition rh_mem_init_wj ::
  "nat \<Rightarrow> alloc_env \<Rightarrow> xmlDoc option \<Rightarrow> xmlDoc option \<Rightarrow> xmlDoc option \<Rightarrow> mem_wj \<Rightarrow> (mem_wj \<times> int) res" where
  "rh_mem_init_wj maxm env doc1 doc2 doc3 m =
     bindR (rh_meter_param_load_wj maxm doc1) (\<lambda>(paras, r).
     let m = m\<lparr>wj_ParaMet := paras\<rparr> in
     if r < 0 then Inr (m, - 1)
     else
       bindR (rh_point_list_load_wj env doc2) (\<lambda>(pm, r).
       let m = m\<lparr>wj_pointMap := pm\<rparr> in
       if r < 0 then Inr (m, - 1)
       else
         bindR (rh_mem_map_init_wj env doc3) (\<lambda>(mm, malloc_len). Inr (m\<lparr>wj_memMap := mm\<rparr>, - 1))))"

end
