(* ===== verification/WjAccess.thy ===== *)
theory WjAccess
  imports MemWj MemIec
begin

text \<open>
  The access functions of the older data memory against those of \<^verbatim>\<open>mem.c\<close>.  \<open>forget\<close> drops what
  only the older tables have; the operations on mutexes, points and bytes commute with it, so the
  differences between the versions are exactly the checks that were added, moved or lost.
\<close>

section \<open>Forgetting\<close>

definition forget_list :: "POINT_LIST_wj \<Rightarrow> POINT_LIST_T" where
  "forget_list pl = \<lparr>pl_nNum = plw_nNum pl, pl_point = map_option (map POINT_ITEM_T.truncate) (plw_point pl),
     pl_lock = plw_lock pl\<rparr>"

definition forget_map :: "POINT_MAP_wj \<Rightarrow> POINT_MAP_T" where
  "forget_map pm = \<lparr>ym_list = forget_list (ym_list_wj pm), yx_list = forget_list (yx_list_wj pm),
     yc_list = forget_list (yc_list_wj pm), id_list = id_list_wj pm\<rparr>"

definition forget :: "mem_wj \<Rightarrow> mem_state" where
  "forget m = \<lparr>s_pointMap = forget_map (wj_pointMap m), s_memMap = wj_memMap m, s_pDataMem = wj_pDataMem m\<rparr>"

named_theorems forget_simps \<open>the older operations commute with forgetting\<close>

lemma forget_sel [simp, forget_simps]:
  "s_memMap (forget m) = wj_memMap m" "s_pDataMem (forget m) = wj_pDataMem m"
  "id_list (s_pointMap (forget m)) = id_list_wj (wj_pointMap m)"
  "point_list ty (s_pointMap (forget m)) = forget_list (point_list_wj ty (wj_pointMap m))"
  "pl_nNum (forget_list pl) = plw_nNum pl" "pl_lock (forget_list pl) = plw_lock pl"
  "pl_point (forget_list pl) = map_option (map POINT_ITEM_T.truncate) (plw_point pl)"
  by (cases ty; simp add: forget_def forget_map_def forget_list_def)+

lemma truncate_sel [simp, forget_simps]:
  "pt_ied_tag (POINT_ITEM_T.truncate p) = pt_ied_tag p" "pt_do_tag (POINT_ITEM_T.truncate p) = pt_do_tag p"
  "pt_dotype_tag (POINT_ITEM_T.truncate p) = pt_dotype_tag p" "pt_addr (POINT_ITEM_T.truncate p) = pt_addr p"
  by (simp_all add: POINT_ITEM_T.truncate_def)

text \<open>Results of the older functions, forgotten.\<close>

definition forget1 :: "(mem_wj \<times> 'a) res \<Rightarrow> (mem_state \<times> 'a) res" where
  "forget1 r = bindR r (\<lambda>(m, x). Inr (forget m, x))"

lemma forget1_simps [simp]: "forget1 (Inr (m, x)) = Inr (forget m, x)" "forget1 (Inl e) = Inl e"
  by (simp_all add: forget1_def)

lemma on_ied_lock_forget [forget_simps]:
  "on_ied_lock f i (forget m) = bindR (on_ied_lock_wj f i m) (\<lambda>m. Inr (forget m))"
  by (simp add: on_ied_lock_def on_ied_lock_wj_def bindR_assoc forget_def split: option.split)

lemma on_list_lock_forget [forget_simps]:
  "on_list_lock f ty (forget m) = bindR (on_list_lock_wj f ty m) (\<lambda>m. Inr (forget m))"
  by (cases ty) (simp_all add: on_list_lock_def on_list_lock_wj_def Let_def bindR_assoc forget_def forget_map_def forget_list_def)

lemma mem_write_forget [forget_simps]:
  "mem_write (forget m) a data n = bindR (mem_write_wj m a data n) (\<lambda>m. Inr (forget m))"
  by (simp add: mem_write_def mem_write_wj_def bindR_assoc wj_copy forget_def split: option.split)

lemma mem_read_forget [forget_simps]: "mem_read (forget m) data a n = mem_read_wj m data a n"
  by (simp add: mem_read_def mem_read_wj_def wj_copy split: option.split)

lemma rdpi_truncate:
  "rdpi (map_option (map f) p) i = bindR (rdpi p i) (\<lambda>x. Inr (f x))"
  by (simp add: rdpi_def rdi_def rd_def split: option.split)

lemma bisect_forget [forget_simps]:
  "bisect (map_option (map POINT_ITEM_T.truncate) p) a s e = bisect_wj p a s e"
proof (induction p a s e rule: bisect_wj.induct)
  case (1 p a s e)
  show ?case
    by (subst bisect.simps, subst bisect_wj.simps)
      (cases "s \<le> e"; cases "rdpi p ((s + e) div 2)"; simp add: rdpi_truncate 1)
qed

section \<open>Access by identifier\<close>

text \<open>The first three searches: the device, the object and the identifier entry.\<close>

definition oop_object :: "mem_state \<Rightarrow> u16 \<Rightarrow> u32 \<Rightarrow> (nat \<times> IED_DO_LIST_T \<times> ID_ITEM_T) option" where
  "oop_object m nPn nDi =
     (let ieds = elems (mm_pIedList (s_memMap m)); ids = elems (il_pItem (id_list (s_pointMap m))) in
      case find_ix (\<lambda>d. nPn = ied_nPn d) ieds of None \<Rightarrow> None | Some i \<Rightarrow>
      (case find_ix (\<lambda>it. nDi = id_id it) ids of None \<Rightarrow> None | Some j \<Rightarrow>
      (let dos = elems (ied_pDoList (ieds ! i)) in
      case find_ix (\<lambda>d. ccont (id_do_tag (ids ! j)) = ccont (dl_do_tag d)) dos of None \<Rightarrow> None | Some k \<Rightarrow>
        Some (i, dos ! k, ids ! j))))"

definition field_of :: "ID_ITEM_T \<Rightarrow> IED_DO_LIST_T \<Rightarrow> nat option" where
  "field_of it d = find_ix (\<lambda>u. ccont (id_dotype_tag it) = ccont (du_dotype_tag u)) (elems (dl_pDotList_698 d))"

lemma oop_lookup_object:
  "oop_lookup m nPn nDi =
     (case oop_object m nPn nDi of None \<Rightarrow> None
      | Some (i, d, it) \<Rightarrow> map_option (\<lambda>l. (i, d, elems (dl_pDotList_698 d) ! l)) (field_of it d))"
  by (auto simp: oop_lookup_def oop_object_def field_of_def Let_def split: option.split)

text \<open>A search that is followed by no check reads behind the list when nothing is found.\<close>

definition behind :: "'a list option \<Rightarrow> fault" where
  "behind p = (case p of None \<Rightarrow> NullPtr | Some _ \<Rightarrow> OutOfBounds)"

lemma scan_unchecked:
  assumes t: "table ok p n" and P: "\<And>x. ok x \<Longrightarrow> P x = Inr (q x)"
  shows "bindR (scan P p n) (\<lambda>l. bindR (rdp p l) f) =
     (case find_ix q (elems p) of
        None \<Rightarrow> Inl (behind p) | Some i \<Rightarrow> f (elems p ! i))"
proof -
  let ?k = "length (takeWhile (\<lambda>x. \<not> q x) (elems p))"
  have s: "scan P p n = Inr ?k" using t P table_elems [OF t] by (intro scan_closed) auto
  show ?thesis
  proof (cases "list_ex q (elems p)")
    case True
    then have "?k < length (elems p)" using find_ix_Some [of q "elems p" ?k] by (simp add: find_ix_def)
    with True s show ?thesis by (auto simp: find_ix_def rdp_def elems_def split: option.splits)
  next
    case False
    then have "takeWhile (\<lambda>x. \<not> q x) (elems p) = elems p" by (simp add: takeWhile_eq_all_conv list_ex_iff)
    then have "?k = length (elems p)" by (rule arg_cong)
    with False s show ?thesis by (auto simp: find_ix_def rdp_def behind_def elems_def split: option.splits)
  qed
qed

lemma find_oop_wj_closed:
  assumes wf: "wf_mem (forget m)"
  shows "find_oop_wj m nPn nDi =
     (case oop_object (forget m) nPn nDi of None \<Rightarrow> Inr None
      | Some (i, d, it) \<Rightarrow>
          (case field_of it d of
             None \<Rightarrow> Inl (behind (dl_pDotList_698 d))
           | Some l \<Rightarrow> Inr (Some (i, d, elems (dl_pDotList_698 d) ! l))))"
proof -
  note t = wf_tables(1,2) [OF wf, unfolded forget_sel]
  have last: "bindR (scan (\<lambda>u. str_eq t (du_dotype_tag u)) (dl_pDotList_698 d) (dl_nNum d))
      (\<lambda>l. bindR (rdp (dl_pDotList_698 d) l) f) =
     (case find_ix (\<lambda>u. ccont t = ccont (du_dotype_tag u)) (elems (dl_pDotList_698 d)) of
        None \<Rightarrow> Inl (behind (dl_pDotList_698 d))
      | Some l \<Rightarrow> f (elems (dl_pDotList_698 d) ! l))"
    if "terminated t" "wf_do d" for t d and f :: "_ \<Rightarrow> 'b res"
    using that by (intro scan_unchecked [where ok = wf_unit]) (auto simp: wf_do_def wf_unit_def str_eq_closed)
  show ?thesis
    unfolding find_oop_wj_def oop_object_def field_of_def Let_def forget_sel
      scan_device [OF wf, unfolded forget_sel] scan_item [OF t(2)]
    using find_ix_ok [OF t(1)] find_ix_ok [OF t(2)] find_ix_ok [OF wf_tables(3)]
    by (auto simp: scan_object last wf_id_def split: option.split)
qed

text \<open>On a known field the versions agree when the length is the field's.\<close>

lemma oop_object_field:
  "oop_lookup m nPn nDi = Some (i, d, u) \<Longrightarrow>
     \<exists>it l. oop_object m nPn nDi = Some (i, d, it) \<and> field_of it d = Some l \<and> u = elems (dl_pDotList_698 d) ! l"
  by (auto simp: oop_lookup_object split: option.splits)

lemma find_oop_wj_known:
  "wf_mem (forget m) \<Longrightarrow> oop_lookup (forget m) nPn nDi = Some (i, d, u) \<Longrightarrow> find_oop_wj m nPn nDi = Inr (Some (i, d, u))"
  by (auto simp: find_oop_wj_closed dest!: oop_object_field)

lemma write_oop_older:
  assumes "wf_mem (forget m)" and "oop_lookup (forget m) nPn nDi = Some (i, d, u)"
  shows "n = du_dataLen u \<Longrightarrow>
      rh_mem_data_write_oop (forget m) nPn nDi data n = forget1 (rh_mem_data_write_oop_wj m nPn nDi data n)"
    and "n \<noteq> du_dataLen u \<Longrightarrow> rh_mem_data_write_oop_wj m nPn nDi data n = Inr (m, - 1)"
  using assms
  by (simp_all add: rh_mem_data_write_oop_def rh_mem_data_write_oop_wj_def find_oop_closed find_oop_wj_known
      forget_simps bindR_assoc forget1_def)

lemma read_oop_older:
  assumes "wf_mem (forget m)" and "oop_lookup (forget m) nPn nDi = Some (i, d, u)" and "du_dataLen u \<le> n"
  shows "rh_mem_data_read_oop (forget m) nPn nDi buf n = forget1 (rh_mem_data_read_oop_wj m nPn nDi buf n)"
  using assms
  by (simp add: rh_mem_data_read_oop_def rh_mem_data_read_oop_wj_def find_oop_closed find_oop_wj_known
      forget_simps bindR_assoc forget1_def)

section \<open>Sequences of accesses\<close>

text \<open>
  A path whose states are abstracted to those of another and whose accesses agree with it there,
  for accesses that satisfy a further condition, carries sequences of such accesses as well.
\<close>

locale link_refinement = data_link cap ok field cells put get
  for cap and ok :: "nat \<Rightarrow> 's \<Rightarrow> bool" and field :: "'s \<Rightarrow> 'k \<Rightarrow> (nat \<times> nat) option" and cells and put and get +
  fixes abst :: "'t \<Rightarrow> 's"
    and put' :: "'t \<Rightarrow> 'k \<Rightarrow> u8 list \<Rightarrow> ('t \<times> int) res"
    and get' :: "'t \<Rightarrow> 'k \<Rightarrow> u8 list \<Rightarrow> ('t \<times> u8 list \<times> int) res"
    and fine :: "('k \<Rightarrow> (nat \<times> nat) option) \<Rightarrow> 'k access \<Rightarrow> bool"
  assumes agree: "ok (Suc b) (abst t) \<Longrightarrow> fits_access (field (abst t)) (length (cells (abst t))) cap x \<Longrightarrow>
      fine (field (abst t)) x \<Longrightarrow>
      path_step put get (abst t) x = bindR (path_step put' get' t x) (\<lambda>(t, r). Inr (abst t, r))"
begin

lemma refined_run:
  assumes "ok (b + length xs) (abst t)"
    and "list_all (fits_access (field (abst t)) (length (cells (abst t))) cap) xs"
    and "list_all (fine (field (abst t))) xs"
  shows "\<exists>t'. path_run put' get' t xs = Inr (t', snd (ref_run (field (abst t)) (cells (abst t)) xs))
     \<and> ok b (abst t') \<and> field (abst t') = field (abst t) \<and> cells (abst t') = fst (ref_run (field (abst t)) (cells (abst t)) xs)"
  using assms
proof (induction xs arbitrary: t)
  case (Cons x xs)
  from Cons.prems have ok: "ok (Suc (b + length xs)) (abst t)"
    and fits: "fits_access (field (abst t)) (length (cells (abst t))) cap x" and fine: "fine (field (abst t)) x" by simp_all
  obtain s1 where
    s1: "path_step put get (abst t) x = Inr (s1, snd (ref_step (field (abst t)) (cells (abst t)) x))" "ok (b + length xs) s1"
      "field s1 = field (abst t)" "cells s1 = fst (ref_step (field (abst t)) (cells (abst t)) x)"
    using step_refines [OF ok fits] by blast
  then obtain t1 where t1: "path_step put' get' t x = Inr (t1, snd (ref_step (field (abst t)) (cells (abst t)) x))"
    "s1 = abst t1" using agree [OF ok fits fine] by (auto simp: bindR_eq_Inr dest: sym)
  have "length (cells s1) = length (cells (abst t))" using ref_step_length [OF fits] s1(4) by simp
  then obtain t2 where
    "path_run put' get' t1 xs = Inr (t2, snd (ref_run (field s1) (cells s1) xs))" "ok b (abst t2)"
      "field (abst t2) = field s1" "cells (abst t2) = fst (ref_run (field s1) (cells s1) xs)"
    using Cons.IH [of t1] Cons.prems s1 t1(2) by auto
  with s1 t1 show ?case by (auto simp: Let_def split: prod.splits)
qed simp

end

text \<open>Writes of the older memory must have the length of their field.\<close>

fun whole_field :: "('k \<Rightarrow> (nat \<times> nat) option) \<Rightarrow> 'k access \<Rightarrow> bool" where
  "whole_field field (Put k data) = (case field k of None \<Rightarrow> False | Some (a, n) \<Rightarrow> length data = n)"
| "whole_field field (Get k buf) = True"

definition write_key_wj :: "mem_wj \<Rightarrow> u16 \<times> u32 \<Rightarrow> u8 list \<Rightarrow> (mem_wj \<times> int) res" where
  "write_key_wj m = (\<lambda>(nPn, nDi) data. rh_mem_data_write_oop_wj m nPn nDi data (int (length data)))"

definition read_key_wj :: "mem_wj \<Rightarrow> u16 \<times> u32 \<Rightarrow> u8 list \<Rightarrow> (mem_wj \<times> u8 list \<times> int) res" where
  "read_key_wj m = (\<lambda>(nPn, nDi) buf. rh_mem_data_read_oop_wj m nPn nDi buf (int (length buf)))"

lemma known_field:
  assumes "valid_mem m" and "oop_field m (nPn, nDi) = Some (a, n)"
  shows "\<exists>i d u. oop_lookup m nPn nDi = Some (i, d, u) \<and> du_dataLen u = int n"
  using assms oop_lookup_fits by (fastforce simp: oop_field_def unit_fits_def)

interpretation older: link_refinement 2147483647 "\<lambda>_. valid_mem" oop_field mem_cells
  "\<lambda>s k data. write_key s k data (int (length data))" "\<lambda>s k buf. read_key s k buf (int (length buf))"
  forget write_key_wj read_key_wj whole_field
proof
  fix m :: mem_wj and x :: "(u16 \<times> u32) access"
  assume m: "valid_mem (forget m)"
    and f: "fits_access (oop_field (forget m)) (length (mem_cells (forget m))) 2147483647 x"
    and w: "whole_field (oop_field (forget m)) x"
  have wf: "wf_mem (forget m)" using m by (simp add: valid_mem_def)
  show "path_step (\<lambda>s k data. write_key s k data (int (length data))) (\<lambda>s k buf. read_key s k buf (int (length buf)))
      (forget m) x = bindR (path_step write_key_wj read_key_wj m x) (\<lambda>(m, r). Inr (forget m, r))"
  proof (cases x)
    case (Put k data)
    obtain nPn nDi where k: "k = (nPn, nDi)" by (cases k)
    from w Put k obtain a where "oop_field (forget m) (nPn, nDi) = Some (a, length data)" by (auto split: option.splits)
    with known_field [OF m] obtain i d u where "oop_lookup (forget m) nPn nDi = Some (i, d, u)"
      "int (length data) = du_dataLen u" by metis
    with write_oop_older(1) [OF wf] Put k show ?thesis
      by (simp add: write_key_def write_key_wj_def forget1_def bindR_assoc case_prod_unfold)
  next
    case (Get k buf)
    obtain nPn nDi where k: "k = (nPn, nDi)" by (cases k)
    from f Get k obtain a n where "oop_field (forget m) (nPn, nDi) = Some (a, n)" and n: "n \<le> length buf"
      by (auto split: option.splits)
    with known_field [OF m] obtain i d u where "oop_lookup (forget m) nPn nDi = Some (i, d, u)"
      "du_dataLen u = int n" by metis
    with read_oop_older [OF wf] n Get k show ?thesis
      by (simp add: read_key_def read_key_wj_def forget1_def)
  qed
qed

section \<open>Access by address\<close>

lemma find_iec_forget:
  "find_iec (forget m) ty a =
     bindR (find_iec_wj m ty a) (\<lambda>r. case r of
       Found i d us l \<Rightarrow> if int l \<ge> dl_nNum d then Inr NoDot else Inr r
     | _ \<Rightarrow> Inr r)"
proof -
  have rd: "rdpi (map_option (map POINT_ITEM_T.truncate) p) i = bindR (rdpi p i) (\<lambda>x. Inr (POINT_ITEM_T.truncate x))"
    for p :: "POINT_ITEM_wj list option" and i by (rule rdpi_truncate)
  show ?thesis
    unfolding find_iec_def find_iec_wj_def find_addr_def Let_def forget_sel bisect_forget bindR_assoc
    by (intro bindR_cong refl) (auto simp: rd bindR_assoc truncate_sel split: option.split intro!: bindR_cong)
qed

lemma find_iec_wj_known:
  assumes "find_iec (forget m) ty a = Inr r" and "r \<noteq> NoDot"
  shows "find_iec_wj m ty a = Inr r"
proof (cases "find_iec_wj m ty a")
  case (Inr x)
  with assms show ?thesis by (cases x) (auto simp: find_iec_forget split: if_splits)
qed (use assms in \<open>simp add: find_iec_forget\<close>)

lemma lifted_lock:
  "on_list_lock f ty (forget m) = Inr s \<Longrightarrow> \<exists>m'. on_list_lock_wj f ty m = Inr m' \<and> forget m' = s"
  "on_ied_lock f i (forget m) = Inr s \<Longrightarrow> \<exists>m'. on_ied_lock_wj f i m = Inr m' \<and> forget m' = s"
  by (simp_all add: forget_simps bindR_eq_Inr)

lemma read_iec_older:
  assumes "data_type_of b = Some ty" and "on_list_lock mutex_lock ty (forget m) = Inr s" and "find_iec s ty a \<noteq> Inr NoDot"
  shows "rh_mem_data_read_iec (forget m) b a k buf sz = forget1 (rh_mem_data_read_iec_wj m b a k buf sz)"
proof -
  obtain m1 where m1: "on_list_lock_wj mutex_lock ty m = Inr m1" "s = forget m1"
    using lifted_lock(1) [OF assms(2)] by blast
  show ?thesis
  proof (cases "find_iec_wj m1 ty a")
    case (Inl e)
    with assms(1,2) m1 show ?thesis
      by (simp add: rh_mem_data_read_iec_def rh_mem_data_read_iec_wj_def find_iec_forget forget1_def)
  next
    case (Inr r)
    with assms(1,2) m1 assms(3) show ?thesis
      by (cases r) (simp_all add: rh_mem_data_read_iec_def rh_mem_data_read_iec_wj_def find_iec_forget forget1_def
          forget_simps bindR_assoc if_distrib [where f = "\<lambda>r. bindR r _"] split: if_splits cong: if_cong)
  qed
qed

text \<open>The older writer releases the device, the current one does not.\<close>

lemma write_iec_older:
  assumes r: "iec_ready ty (forget m)" and ty: "data_type_of b = Some ty" and pt: "point_at ty (forget m) a = Some pt"
    and f: "iec_lookup (forget m) pt = Found i d us l"
  shows "forget1 (rh_mem_data_write_iec_wj m b a k data n) =
     bindR (smallcpy (mem_cells (forget m)) (data_addr d (elems us ! l)) data 0 n) (\<lambda>mem'.
       Inr (with_data mem' (forget m), 0))"
proof -
  let ?s = "forget m" and ?L = "list_lock ty Locked (forget m)"
  have wf: "wf_mem ?s" "ieds_free ?s" "sorted_points ty ?s"
    and lk: "pl_lock (point_list ty (s_pointMap ?s)) = Unlocked" and mem: "s_pDataMem ?s = Some (mem_cells ?s)"
    using r by (auto simp: iec_ready_def mem_cells_def simp del: forget_sel)
  have wf': "wf_mem ?L" "ieds_free ?L" "sorted_points ty ?L" "point_at ty ?L a = Some pt" "iec_lookup ?L pt = Found i d us l"
    using wf pt f by simp_all
  note ied = iec_lookup_ied [OF wf'(1,2,5)]
  have "on_list_lock mutex_lock ty ?s = Inr ?L" using lk by (simp add: on_list_lock_closed del: forget_sel)
  then obtain m1 where m1: "on_list_lock_wj mutex_lock ty m = Inr m1" "forget m1 = ?L" using lifted_lock(1) by blast
  have "find_iec (forget m1) ty a = Inr (Found i d us l)" using find_iec_at [OF wf'(1,3,4)] wf'(5) m1(2) by simp
  then have find: "find_iec_wj m1 ty a = Inr (Found i d us l)" by (rule find_iec_wj_known) simp
  have rd: "rdp us l = Inr (elems us ! l)" using ied(4) by (auto simp: rdp_def elems_def split: option.splits)
  obtain s2 where s2: "on_ied_lock mutex_lock i ?L = Inr s2" "s_pDataMem s2 = s_pDataMem ?L"
    "\<And>bs. on_ied_lock mutex_unlock i (with_data bs s2) = Inr (with_data bs ?L)"
    using unlock_lock [OF ied(1,2)] by metis
  obtain m2 where m2: "on_ied_lock_wj mutex_lock i m1 = Inr m2" "forget m2 = s2"
    using lifted_lock(2) [of mutex_lock i m1] s2(1) m1(2) by metis
  let ?c = "smallcpy (mem_cells ?s) (data_addr d (elems us ! l)) data 0 n"
  have cells: "wj_pDataMem m2 = Some (mem_cells ?s)"
    using s2(2) m2(2) mem by (metis forget_sel(2) list_lock_simps(6))
  show ?thesis
  proof (cases ?c)
    case (Inl e)
    with m1 find rd m2 cells ty show ?thesis
      by (simp add: rh_mem_data_write_iec_wj_def mem_write_wj_def wj_copy del: forget_sel)
  next
    case (Inr bs)
    let ?m3 = "m2\<lparr>wj_pDataMem := Some bs\<rparr>"
    have w: "mem_write_wj m2 (data_addr d (elems us ! l)) data n = Inr ?m3"
      using Inr cells by (simp add: mem_write_wj_def wj_copy del: forget_sel)
    have "forget ?m3 = with_data bs s2" using m2(2) by (auto simp: forget_def with_data_def)
    then obtain m4 where m4: "on_ied_lock_wj mutex_unlock i ?m3 = Inr m4" "forget m4 = with_data bs ?L"
      using lifted_lock(2) [of mutex_unlock i ?m3] s2(3) [of bs] by metis
    have "on_list_lock mutex_unlock ty (with_data bs ?L) = Inr (with_data bs ?s)"
      using list_lock_same [of ty "with_data bs ?s" Unlocked] lk by (simp add: on_list_lock_closed del: forget_sel)
    then obtain m5 where "on_list_lock_wj mutex_unlock ty m4 = Inr m5" "forget m5 = with_data bs ?s"
      using lifted_lock(1) [of mutex_unlock ty m4] m4(2) by metis
    with Inr m1 find rd m2 w m4 ty show ?thesis by (simp add: rh_mem_data_write_iec_wj_def del: forget_sel)
  qed
qed

text \<open>An unknown type name: the current functions notice, the older ones read behind the list.\<close>

lemma rdp_elems: "rdp p i = Inr x \<Longrightarrow> x \<in> set (elems p)"
  by (auto simp: rdp_def elems_def rd_eq_Inr split: option.splits)

lemma find_iec_wj_list: "find_iec_wj m ty a = Inr (Found i d us l) \<Longrightarrow>
    us = dl_pDotList_104 d \<and> (\<exists>ied \<in> set (elems (mm_pIedList (wj_memMap m))). d \<in> set (elems (ied_pDoList ied)))"
  by (auto simp: find_iec_wj_def Let_def bindR_eq_Inr split: option.splits if_splits dest!: rdp_elems)

lemma find_iec_wj_not_NoDot: "find_iec_wj m ty a \<noteq> Inr NoDot"
  by (auto simp: find_iec_wj_def Let_def bindR_eq_Inr split: option.splits if_splits)

lemma find_iec_wj_behind:
  assumes wf: "wf_mem (forget m)" and "find_iec (forget m) ty a = Inr NoDot"
  shows "\<exists>i d us l. find_iec_wj m ty a = Inr (Found i d us l) \<and> rdp us l = Inl (behind us)"
proof -
  obtain r where r: "find_iec_wj m ty a = Inr r" using assms(2) by (cases "find_iec_wj m ty a") (auto simp: find_iec_forget)
  with assms(2) find_iec_wj_not_NoDot [of m ty a]
  obtain i d us l where f: "find_iec_wj m ty a = Inr (Found i d us l)" and l: "dl_nNum d \<le> int l"
    by (cases r) (auto simp: find_iec_forget split: if_splits)
  from find_iec_wj_list [OF f] obtain ied where us: "us = dl_pDotList_104 d"
    and "ied \<in> set (elems (mm_pIedList (wj_memMap m)))" "d \<in> set (elems (ied_pDoList ied))" by blast
  then have "wf_do d" using table_elems [OF wf_tables(1) [OF wf], unfolded forget_sel] table_elems [OF wf_tables(3)] by blast
  with l us have "rdp us l = Inl (behind us)" by (auto simp: wf_do_def table_def rdp_def behind_def split: option.splits)
  with f show ?thesis by blast
qed

lemma unknown_type_iec:
  assumes r: "iec_ready ty (forget m)" and ty: "data_type_of b = Some ty" and pt: "point_at ty (forget m) a = Some pt"
    and f: "iec_lookup (forget m) pt = NoDot"
  shows "\<exists>us. rh_mem_data_write_iec_wj m b a k data n = Inl (behind (us :: DOTTYPE_DO_UNIT_T list option))"
proof -
  let ?s = "forget m" and ?L = "list_lock ty Locked (forget m)"
  have wf: "wf_mem ?s" "sorted_points ty ?s" and lk: "pl_lock (point_list ty (s_pointMap ?s)) = Unlocked"
    using r by (auto simp: iec_ready_def simp del: forget_sel)
  have "on_list_lock mutex_lock ty ?s = Inr ?L" using lk by (simp add: on_list_lock_closed del: forget_sel)
  then obtain m1 where m1: "on_list_lock_wj mutex_lock ty m = Inr m1" "forget m1 = ?L" using lifted_lock(1) by blast
  have "find_iec (forget m1) ty a = Inr NoDot" "wf_mem (forget m1)"
    using find_iec_at [of ?L ty a pt] wf pt f m1(2) by simp_all
  from find_iec_wj_behind [OF this(2,1)] m1(1) ty show ?thesis by (auto simp: rh_mem_data_write_iec_wj_def)
qed

section \<open>Properties\<close>

text \<open>
  C12: the older data memory serves every sequence of reads and of writes of whole fields like the
  reference block of bytes, as the current one does: the same bytes, results and return values.
\<close>

theorem older_memory_refines_reference:
  assumes "valid_mem (forget m)"
    and "list_all (fits_access (oop_field (forget m)) (length (mem_cells (forget m))) 2147483647) xs"
    and "list_all (whole_field (oop_field (forget m))) xs"
  shows "\<exists>m'. path_run (\<lambda>m (nPn, di) data. rh_mem_data_write_oop_wj m nPn di data (int (length data)))
         (\<lambda>m (nPn, di) buf. rh_mem_data_read_oop_wj m nPn di buf (int (length buf))) m xs =
       Inr (m', snd (ref_run (oop_field (forget m)) (mem_cells (forget m)) xs))
     \<and> valid_mem (forget m') \<and> mem_cells (forget m') = fst (ref_run (oop_field (forget m)) (mem_cells (forget m)) xs)"
proof -
  have "write_key_wj = (\<lambda>m (nPn, di) data. rh_mem_data_write_oop_wj m nPn di data (int (length data)))"
    "read_key_wj = (\<lambda>m (nPn, di) buf. rh_mem_data_read_oop_wj m nPn di buf (int (length buf)))"
    by (simp_all add: write_key_wj_def read_key_wj_def fun_eq_iff)
  then show ?thesis using older.refined_run [of m xs] assms by auto
qed

text \<open>The index of the witnesses of \<open>MemIec\<close>, with an identifier and a point for an unknown field.\<close>

definition demo_point_wj :: "u8 \<Rightarrow> u8 \<Rightarrow> int \<Rightarrow> POINT_ITEM_wj" where
  "demo_point_wj d t a = \<lparr>pt_ied_tag = [d, 0], pt_do_tag = [111, 0], pt_dotype_tag = [t, 0], pt_addr = a,
     pt_pn = 1, pt_id = 5\<rparr>"

definition demo_wj :: mem_wj where
  "demo_wj = \<lparr>wj_pointMap = zero_pointMap_wj\<lparr>
       yc_list_wj := \<lparr>plw_nNum = 3, plw_point = Some
         [demo_point_wj 100 97 10, demo_point_wj 100 98 20, demo_point_wj 100 122 30], plw_lock = Unlocked\<rparr>,
       id_list_wj := \<lparr>il_nNum = 3, il_pItem = Some
         [\<lparr>id_id = 5, id_do_tag = [111, 0], id_dotype_tag = [97, 0]\<rparr>,
          \<lparr>id_id = 6, id_do_tag = [111, 0], id_dotype_tag = [98, 0]\<rparr>,
          \<lparr>id_id = 7, id_do_tag = [111, 0], id_dotype_tag = [122, 0]\<rparr>]\<rparr>\<rparr>,
     wj_memMap = s_memMap demo_mem, wj_pDataMem = s_pDataMem demo_mem, wj_ParaMet = []\<rparr>"

lemma demo_wj:
  "valid_mem (forget demo_wj)" "oop_field (forget demo_wj) (1, 5) = Some (1, 2)"
  "oop_field (forget demo_wj) (1, 6) = Some (3, 3)" "mem_cells (forget demo_wj) = [10, 11, 12, 13, 14, 15, 16]"
  "iec_ready DATA_YC (forget demo_wj)"
  "point_at DATA_YC (forget demo_wj) 20 = Some (POINT_ITEM_T.truncate (demo_point_wj 100 98 20))"
  "iec_lookup (forget demo_wj) (POINT_ITEM_T.truncate (demo_point_wj 100 98 20)) =
     Found 0 demo_do (Some [demo_unit 97 0 2, demo_unit 98 2 3]) 1"
  by code_simp+

theorem older_memory_refines_reference_witness:
  "\<exists>m'. path_run (\<lambda>m (nPn, di) data. rh_mem_data_write_oop_wj m nPn di data (int (length data)))
         (\<lambda>m (nPn, di) buf. rh_mem_data_read_oop_wj m nPn di buf (int (length buf))) demo_wj
       [Put (1, 6) [7, 8, 9], Get (1, 6) [0, 0, 0, 0]] = Inr (m', [([], 0), ([7, 8, 9, 0], 3)])"
proof -
  let ?xs = "[Put (1, 6) [7, 8, 9], Get (1, 6) [0, 0, 0, 0]] :: (u16 \<times> u32) access list"
  have r: "snd (ref_run (oop_field (forget demo_wj)) (mem_cells (forget demo_wj)) ?xs) = [([], 0), ([7, 8, 9, 0], 3)]"
    by (simp add: demo_wj(3,4) patch_def)
  show ?thesis
    using older_memory_refines_reference [OF demo_wj(1), of ?xs] r by (auto simp: demo_wj(3,4))
qed

text \<open>
  C35: a write by address that stays inside the memory leaves it ready for the next access when made
  through the older memory; the current writer stores the same bytes and returns the same, but
  with the device mutex held: the release was lost between the versions.
\<close>

theorem older_write_releases_device:
  assumes r: "iec_ready ty (forget m)" and "data_type_of b = Some ty" and "point_at ty (forget m) a = Some pt"
    and "iec_lookup (forget m) pt = Found i d us l" and at: "data_addr d (elems us ! l) = int p"
    and len: "p + n \<le> length (mem_cells (forget m))" "n \<le> length data"
  shows "\<exists>m'. rh_mem_data_write_iec_wj m b a k data (int n) = Inr (m', 0) \<and> iec_ready ty (forget m')
     \<and> mem_cells (forget m') = patch (mem_cells (forget m)) p (take n data)
     \<and> rh_mem_data_write_iec (forget m) b a k data (int n) = Inr (ied_locked i Locked (forget m'), 0)"
proof -
  let ?bs = "patch (mem_cells (forget m)) p (take n data)"
  have c: "smallcpy (mem_cells (forget m)) (data_addr d (elems us ! l)) data 0 (int n) = Inr ?bs"
    using len by (simp add: smallcpy_closed at)
  obtain m' where m': "rh_mem_data_write_iec_wj m b a k data (int n) = Inr (m', 0)"
    "forget m' = with_data ?bs (forget m)"
    using write_iec_older [OF assms(1-4), of k data "int n"] c
    by (cases "rh_mem_data_write_iec_wj m b a k data (int n)") (auto simp: forget1_def)
  moreover have "iec_ready ty (with_data ?bs (forget m))"
    using r by (simp add: iec_ready_def wf_mem_def ieds_free_def sorted_points_def del: forget_sel)
  moreover have "rh_mem_data_write_iec (forget m) b a k data (int n) = Inr (ied_locked i Locked (with_data ?bs (forget m)), 0)"
    by (simp add: write_iec_found [OF assms(1-4)] c del: forget_sel)
  ultimately show ?thesis by (intro exI [of _ m']) simp
qed

theorem older_write_releases_device_witness:
  "\<exists>m'. rh_mem_data_write_iec_wj demo_wj 0 20 1 [7, 8] 2 = Inr (m', 0) \<and> iec_ready DATA_YC (forget m')
     \<and> rh_mem_data_write_iec (forget demo_wj) 0 20 1 [7, 8] 2 = Inr (ied_locked 0 Locked (forget m'), 0)"
proof -
  have "data_addr demo_do (elems (Some [demo_unit 97 0 2, demo_unit 98 2 3]) ! 1) = int 3"
    using demo_iec(7) by (simp add: elems_def)
  from older_write_releases_device [OF demo_wj(5) demo_iec(2) demo_wj(6,7) this, of 2 "[7, 8]" 1] show ?thesis
    by (auto simp: demo_wj(4))
qed

text \<open>
  the type names are the one search the older functions do not check: for an entry whose type name
  the object lacks they read behind the list of fields, by identifier as well as by address, where
  the current functions by identifier return -1.
\<close>

theorem older_unknown_type_faults:
  assumes r: "iec_ready ty (forget m)"
  shows "(\<forall>nPn nDi i d it. oop_object (forget m) nPn nDi = Some (i, d, it) \<and> field_of it d = None \<longrightarrow>
      rh_mem_data_write_oop_wj m nPn nDi data n = Inl (behind (dl_pDotList_698 d))
      \<and> rh_mem_data_read_oop_wj m nPn nDi buf sz = Inl (behind (dl_pDotList_698 d))
      \<and> rh_mem_data_write_oop (forget m) nPn nDi data n = Inr (forget m, - 1)
      \<and> rh_mem_data_read_oop (forget m) nPn nDi buf sz = Inr (forget m, buf, - 1))
    \<and> (\<forall>b a pt. data_type_of b = Some ty \<and> point_at ty (forget m) a = Some pt \<and> iec_lookup (forget m) pt = NoDot \<longrightarrow>
      rh_mem_data_write_iec_wj m b a k data n \<in> {Inl NullPtr, Inl OutOfBounds})"
proof (intro conjI allI impI)
  have wf: "wf_mem (forget m)" using r by (simp add: iec_ready_def)
  fix nPn nDi i d it assume "oop_object (forget m) nPn nDi = Some (i, d, it) \<and> field_of it d = None"
  note f = this find_oop_closed [OF wf, of nPn nDi] find_oop_wj_closed [OF wf, of nPn nDi]
  then show "rh_mem_data_write_oop_wj m nPn nDi data n = Inl (behind (dl_pDotList_698 d))"
    "rh_mem_data_read_oop_wj m nPn nDi buf sz = Inl (behind (dl_pDotList_698 d))"
    "rh_mem_data_write_oop (forget m) nPn nDi data n = Inr (forget m, - 1)"
    "rh_mem_data_read_oop (forget m) nPn nDi buf sz = Inr (forget m, buf, - 1)"
    by (simp_all add: rh_mem_data_write_oop_def rh_mem_data_read_oop_def rh_mem_data_write_oop_wj_def
        rh_mem_data_read_oop_wj_def oop_lookup_object)
next
  fix b a pt
  assume "data_type_of b = Some ty \<and> point_at ty (forget m) a = Some pt \<and> iec_lookup (forget m) pt = NoDot"
  then show "rh_mem_data_write_iec_wj m b a k data n \<in> {Inl NullPtr, Inl OutOfBounds}"
    using unknown_type_iec [OF r, of b a pt k data n] by (auto simp: behind_def split: option.splits)
qed

lemma demo_wj_unknown:
  "oop_object (forget demo_wj) 1 7 = Some (0, demo_do, \<lparr>id_id = 7, id_do_tag = [111, 0], id_dotype_tag = [122, 0]\<rparr>)"
  "field_of \<lparr>id_id = 7, id_do_tag = [111, 0], id_dotype_tag = [122, 0]\<rparr> demo_do = None"
  "behind (dl_pDotList_698 demo_do) = OutOfBounds"
  "point_at DATA_YC (forget demo_wj) 30 = Some (POINT_ITEM_T.truncate (demo_point_wj 100 122 30))"
  "iec_lookup (forget demo_wj) (POINT_ITEM_T.truncate (demo_point_wj 100 122 30)) = NoDot"
  by code_simp+

theorem older_unknown_type_faults_witness:
  "rh_mem_data_write_oop_wj demo_wj 1 7 [1, 2] 2 = Inl OutOfBounds
     \<and> rh_mem_data_write_oop (forget demo_wj) 1 7 [1, 2] 2 = Inr (forget demo_wj, - 1)
     \<and> rh_mem_data_write_iec_wj demo_wj 0 30 1 [1, 2] 2 \<in> {Inl NullPtr, Inl OutOfBounds}"
  using older_unknown_type_faults [OF demo_wj(5), where data = "[1, 2]" and n = 2 and k = 1]
    demo_wj_unknown demo_iec(2) by metis

end
