(* ===== verification/WjLoad.thy ===== *)
theory WjLoad
  imports WjAccess MemLayout ElParaLoad
begin

text \<open>
  What the loaders of the older data memory compute: the point tables of the current loader with a
  point number and an identifier for every signal, by which \<^verbatim>\<open>rh_mem_get_yx_addr\<close> finds its address;
  the meter parameters in an array that is as large as the check of the index assumes; and a start
  that always fails.
\<close>

section \<open>Signal points\<close>

lemma path_parse_wj_keeps:
  "point_path_parse_wj p s = Inr q \<Longrightarrow> pt_addr q = pt_addr p \<and> pt_pn q = pt_pn p \<and> pt_id q = pt_id p"
  by (auto simp: point_path_parse_wj_def Let_def bindR_eq_Inr split: option.splits)

text \<open>What the three numeric attributes of an element leave in its entry.\<close>

definition described :: "xmlNode \<Rightarrow> POINT_ITEM_wj \<Rightarrow> bool" where
  "described n p \<longleftrightarrow> (has n ''addr'' \<longrightarrow> pt_addr p = dec_of (attr n ''addr''))
     \<and> (has n ''pn'' \<longrightarrow> pt_pn p = word_of_int (dec_of (attr n ''pn'')))
     \<and> (has n ''id'' \<longrightarrow> pt_id p = id_value (attr n ''id''))"

lemma id_scanned:
  "str2hex_wj (cstr h) (le32 0) 0 8 = Inr (b, c) \<Longrightarrow> reversecpy_wj (le32 w) b 4 = Inr r \<Longrightarrow> u32_le r = id_value h"
  using str2hex_length [of "cstr h" "le32 0" 8 b c] reversecpy_closed [of 4 "le32 w" b]
  by (auto simp: wj_copy id_value_def)

lemma yx_item_wj_result:
  assumes "yx_item_wj pts k n = Inr (pts', ok)" and "k < length pts"
  shows "ok \<and> length pts' = length pts \<and> (\<forall>i < length pts. i \<noteq> k \<longrightarrow> pts' ! i = pts ! i) \<and> described n (pts' ! k)"
  using assms
  by (auto simp: yx_item_wj_def bindR_eq_Inr upd_eq_Inr described_def has_def attr_def wj_copy str2dec_cstr
      split: option.splits dest!: path_parse_wj_keeps id_scanned [unfolded wj_copy])

lemma load_items_wj_result:
  assumes "load_items_wj yx_item_wj nNum ns k pts = Inr (pts', ok)" and "k + length ns \<le> length pts"
    and "int (length pts) \<le> nNum"
  shows "ok \<and> length pts' = length pts \<and> (\<forall>i < k. pts' ! i = pts ! i)
     \<and> (\<forall>j < length ns. described (ns ! j) (pts' ! (k + j)))"
  using assms
proof (induction ns arbitrary: k pts)
  case (Cons n ns)
  obtain pts1 ok1 where 1: "yx_item_wj pts k n = Inr (pts1, ok1)"
    and 2: "(if ok1 then load_items_wj yx_item_wj nNum ns (Suc k) pts1 else Inr (pts1, False)) = Inr (pts', ok)"
    using Cons.prems by (auto simp: bindR_eq_Inr)
  have r: "ok1" "length pts1 = length pts" "\<forall>i < length pts. i \<noteq> k \<longrightarrow> pts1 ! i = pts ! i" "described n (pts1 ! k)"
    using yx_item_wj_result [OF 1] Cons.prems(2) by simp_all
  have ih: "ok" "length pts' = length pts1" "\<forall>i < Suc k. pts' ! i = pts1 ! i"
    "\<forall>j < length ns. described (ns ! j) (pts' ! (Suc k + j))"
    using Cons.IH [of "Suc k" pts1] 2 r(1,2) Cons.prems(2,3) by simp_all
  have "described ((n # ns) ! j) (pts' ! (k + j))" if "j < length (n # ns)" for j
    using that ih(3,4) r(4) by (cases j) simp_all
  moreover have "\<forall>i < k. pts' ! i = pts ! i" using ih(3) r(3) Cons.prems(2) by simp
  ultimately show ?case using ih(1,2) r(2) by simp
qed simp

text \<open>The search for an address is a first-match lookup.\<close>

lemma yx_addr_loop_closed:
  assumes "i + k = length xs"
  shows "yx_addr_loop (Some xs) nPn nId i k =
     Inr (case find (\<lambda>p. nPn = pt_pn p \<and> nId = pt_id p) (drop i xs) of None \<Rightarrow> - 1 | Some p \<Rightarrow> pt_addr p)"
  using assms
proof (induction k arbitrary: i)
  case (Suc k)
  then have "i < length xs" by simp
  then have "drop i xs = xs ! i # drop (Suc i) xs" by (simp add: Cons_nth_drop_Suc)
  with \<open>i < length xs\<close> Suc show ?case by (simp add: rdp_def)
qed simp

lemma find_described:
  assumes "list_all2 described ns ps" and "list_all (\<lambda>n. has n ''addr'' \<and> has n ''pn'' \<and> has n ''id'') ns"
  shows "(case find (\<lambda>p. nPn = pt_pn p \<and> nId = pt_id p) ps of None \<Rightarrow> - 1 | Some p \<Rightarrow> pt_addr p) =
     (case find (\<lambda>n. nPn = word_of_int (dec_of (attr n ''pn'')) \<and> nId = id_value (attr n ''id'')) ns of
        None \<Rightarrow> - 1 | Some n \<Rightarrow> dec_of (attr n ''addr''))"
  using assms by (induction rule: list_all2_induct) (simp_all add: described_def)

definition keyed_section :: "xmlNode \<Rightarrow> bool" where
  "keyed_section s \<longleftrightarrow> has s ''num'' \<and> node_children s \<noteq> [] \<and> num_of s = int (length (node_children s))
     \<and> list_all (\<lambda>n. has n ''addr'' \<and> has n ''pn'' \<and> has n ''id'') (node_children s)"

lemma load_yx_wj_keys:
  assumes "load_yx_wj env node pm = Inr (pm', ok)" and s: "find_by_tag (node_children node) ''YX'' = Some s"
    and k: "keyed_section s" and a: "malloc_ok env (PointItems DATA_YX)" and ok
  shows "\<exists>pts. plw_nNum (yx_list_wj pm') = int (length pts) \<and> plw_point (yx_list_wj pm') = Some pts
     \<and> list_all2 described (node_children s) pts"
proof -
  let ?ns = "node_children s"
  have num: "xmlGetProp s ''num'' = Some (attr s ''num'')" "dec_of (attr s ''num'') = int (length ?ns)"
    using k by (auto simp: keyed_section_def has_attr num_of_def)
  obtain pts where l: "load_items_wj yx_item_wj (int (length ?ns)) ?ns 0 (map (fresh_point_wj env) [0 ..< length ?ns]) = Inr (pts, ok)"
    and p: "plw_nNum (yx_list_wj pm') = int (length ?ns)" "plw_point (yx_list_wj pm') = Some pts"
    using assms(1) s a k \<open>ok\<close> unfolding keyed_section_def
    by (auto simp: load_yx_wj_def load_point_list_wj_def bindR_eq_Inr num wj_copy str2dec_cstr alloc_def Let_def split: if_splits)
  from load_items_wj_result [OF l] p show ?thesis by (intro exI [of _ pts]) (simp add: list_all2_conv_all_nth)
qed

lemma later_loads_keep_yx:
  "load_ym_wj env node pm = Inr (pm', ok) \<Longrightarrow> yx_list_wj pm' = yx_list_wj pm"
  "load_id_wj env root pm = Inr (pm', ok) \<Longrightarrow> yx_list_wj pm' = yx_list_wj pm"
  by (auto simp: load_ym_wj_def load_id_wj_def bindR_eq_Inr Let_def split: option.splits if_splits)

lemma yx_address:
  assumes load: "rh_point_list_load_wj env (Some d) = Inr (pm, 0)" and s: "find_by_tag (node_children (point_node d)) ''YX'' = Some s"
    and k: "keyed_section s" and a: "malloc_ok env (PointItems DATA_YX)" and m: "wj_pointMap m = pm"
  shows "rh_mem_get_yx_addr_wj m nPn nId =
     Inr (case find (\<lambda>n. nPn = word_of_int (dec_of (attr n ''pn'')) \<and> nId = id_value (attr n ''id'')) (node_children s) of
       None \<Rightarrow> - 1 | Some n \<Rightarrow> dec_of (attr n ''addr''))"
proof -
  obtain root cfg pm1 pm2 pm3 where path: "xmlDocGetRootElement d = Some root"
      "find_by_name (node_children root) ''IED_CFG'' = Some cfg"
      "find_by_tag (node_children cfg) ''104tstied'' = Some (point_node d)"
    and loads: "load_yx_wj env (point_node d) pm1 = Inr (pm2, True)" "load_ym_wj env (point_node d) pm2 = Inr (pm3, True)"
      "load_id_wj env root pm3 = Inr (pm, True)"
    using load unfolding rh_point_list_load_wj_def
    by (auto simp: bindR_eq_Inr point_node_def section_of_def root_of_def split: option.splits if_splits)
  have yx: "yx_list_wj pm = yx_list_wj pm2" using later_loads_keep_yx loads(2,3) by metis
  from load_yx_wj_keys [OF loads(1) s k a] obtain pts where
    pts: "plw_nNum (yx_list_wj pm) = int (length pts)" "plw_point (yx_list_wj pm) = Some pts"
    and d: "list_all2 described (node_children s) pts" using yx by auto
  have ns: "list_all (\<lambda>n. has n ''addr'' \<and> has n ''pn'' \<and> has n ''id'') (node_children s)"
    using k by (simp add: keyed_section_def)
  show ?thesis
    using yx_addr_loop_closed [of 0 "length pts" pts nPn nId] find_described [OF d ns, of nPn nId] pts m
    by (simp add: rh_mem_get_yx_addr_wj_def)
qed

section \<open>Against the current loader\<close>

text \<open>
  Whatever the older loader returns, the current one returns the same with the keys forgotten, for
  allocators that succeed together and fresh tables that agree.
\<close>

definition like_env :: "alloc_env \<Rightarrow> alloc_env \<Rightarrow> bool" where
  "like_env env' env \<longleftrightarrow> malloc_ok env' = malloc_ok env \<and> fresh_id env' = fresh_id env
     \<and> (\<forall>i. POINT_ITEM_T.truncate (fresh_point_wj env' i) = fresh_point env i)"

abbreviation trunc :: "POINT_ITEM_wj list \<Rightarrow> POINT_ITEM_T list" where
  "trunc \<equiv> map POINT_ITEM_T.truncate"

lemma truncate_upd:
  "POINT_ITEM_T.truncate (p\<lparr>pt_addr := v\<rparr>) = (POINT_ITEM_T.truncate p)\<lparr>pt_addr := v\<rparr>"
  "POINT_ITEM_T.truncate (p\<lparr>pt_pn := w\<rparr>) = POINT_ITEM_T.truncate p"
  "POINT_ITEM_T.truncate (p\<lparr>pt_id := x\<rparr>) = POINT_ITEM_T.truncate p"
  by (simp_all add: POINT_ITEM_T.truncate_def)

lemma path_parse_older:
  "point_path_parse_wj p s = Inr q \<Longrightarrow> point_path_parse (POINT_ITEM_T.truncate p) s = Inr (POINT_ITEM_T.truncate q)"
  by (auto simp: point_path_parse_wj_def point_path_parse_def Let_def bindR_eq_Inr POINT_ITEM_T.truncate_def
      split: option.splits)

lemma upd_older:
  assumes "upd pts k f = Inr pts'" and "\<And>p q. f p = Inr q \<Longrightarrow> g (POINT_ITEM_T.truncate p) = Inr (POINT_ITEM_T.truncate q)"
  shows "upd (trunc pts) k g = Inr (trunc pts')"
  using assms by (auto simp: upd_eq_Inr map_update)

lemma upd_key:
  assumes "upd pts k f = Inr pts'" and "\<And>p q. f p = Inr q \<Longrightarrow> POINT_ITEM_T.truncate q = POINT_ITEM_T.truncate p"
  shows "trunc pts' = trunc pts"
  using assms by (auto simp: upd_eq_Inr map_update list_update_same_conv)

lemma addr_older: "upd pts k (\<lambda>p. Inr (p\<lparr>pt_addr := v\<rparr>)) = Inr pts' \<Longrightarrow>
    upd (trunc pts) k (\<lambda>p. Inr (p\<lparr>pt_addr := v\<rparr>)) = Inr (trunc pts')"
  by (erule upd_older) (auto simp: truncate_upd)

lemma path_older: "upd pts k (\<lambda>p. point_path_parse_wj p s) = Inr pts' \<Longrightarrow>
    upd (trunc pts) k (\<lambda>p. point_path_parse p s) = Inr (trunc pts')"
  by (erule upd_older) (rule path_parse_older)

lemma keys_older:
  "upd pts k (\<lambda>p. Inr (p\<lparr>pt_pn := w\<rparr>)) = Inr pts' \<Longrightarrow> trunc pts' = trunc pts"
  "upd pts k (\<lambda>p. bindR (reversecpy_wj (le32 (pt_id p)) b 4) (\<lambda>b. Inr (p\<lparr>pt_id := u32_le b\<rparr>))) = Inr pts' \<Longrightarrow>
     trunc pts' = trunc pts"
  by (erule upd_key; auto simp: truncate_upd bindR_eq_Inr)+

lemma yc_item_older: "yc_item_wj pts k n = Inr (pts', ok) \<Longrightarrow> yc_item (trunc pts) k n = Inr (trunc pts', ok)"
  by (auto simp: yc_item_wj_def yc_item_def wj_copy bindR_eq_Inr split: option.splits dest!: addr_older path_older)

lemma ym_item_older: "ym_item_wj pts k n = Inr (pts', ok) \<Longrightarrow> ym_item (trunc pts) k n = Inr (trunc pts', ok)"
  by (fastforce simp: ym_item_wj_def ym_item_def wj_copy bindR_eq_Inr dest!: addr_older path_older)

lemma yx_item_older:
  assumes "yx_item_wj pts k n = Inr (pts', ok)"
  shows "yx_item (trunc pts) k n = Inr (trunc pts', ok)"
proof -
  obtain p1 p2 p3 where
    1: "(case xmlGetProp n ''addr'' of None \<Rightarrow> Inr pts
         | Some a \<Rightarrow> bindR (str2dec_wj (cstr a)) (\<lambda>v. upd pts k (\<lambda>p. Inr (p\<lparr>pt_addr := v\<rparr>)))) = Inr p1"
    and 2: "(case xmlGetProp n ''pn'' of None \<Rightarrow> Inr p1
         | Some a \<Rightarrow> bindR (str2dec_wj (cstr a)) (\<lambda>v. upd p1 k (\<lambda>p. Inr (p\<lparr>pt_pn := word_of_int v\<rparr>)))) = Inr p2"
    and 3: "(case xmlGetProp n ''id'' of None \<Rightarrow> Inr p2
         | Some h \<Rightarrow> bindR (str2hex_wj (cstr h) (le32 0) 0 8) (\<lambda>(id, c). upd p2 k (\<lambda>p.
             bindR (reversecpy_wj (le32 (pt_id p)) id 4) (\<lambda>b. Inr (p\<lparr>pt_id := u32_le b\<rparr>))))) = Inr p3"
    and 4: "(case xmlGetProp n ''path'' of None \<Rightarrow> Inr p3
         | Some s \<Rightarrow> upd p3 k (\<lambda>p. point_path_parse_wj p (Some (cstr s)))) = Inr pts'" and ok
    using assms unfolding yx_item_wj_def by (auto simp: bindR_eq_Inr)
  have "(case xmlGetProp n ''addr'' of None \<Rightarrow> Inr (trunc pts)
         | Some a \<Rightarrow> bindR (str2dec (cstr a)) (\<lambda>v. upd (trunc pts) k (\<lambda>p. Inr (p\<lparr>pt_addr := v\<rparr>)))) = Inr (trunc p1)"
    using 1 by (auto simp: wj_copy bindR_eq_Inr split: option.splits dest!: addr_older)
  moreover have "trunc p2 = trunc p1"
    using 2 by (auto simp: bindR_eq_Inr split: option.splits dest!: keys_older(1))
  moreover have "trunc p3 = trunc p2"
    using 3 by (auto simp: bindR_eq_Inr split: option.splits dest!: keys_older(2))
  moreover have "(case xmlGetProp n ''path'' of None \<Rightarrow> Inr (trunc p3)
         | Some s \<Rightarrow> upd (trunc p3) k (\<lambda>p. point_path_parse p (Some (cstr s)))) = Inr (trunc pts')"
    using 4 by (auto split: option.splits dest!: path_older)
  ultimately show ?thesis using \<open>ok\<close> by (simp add: yx_item_def cong: option.case_cong)
qed

lemma load_items_older:
  assumes item: "\<And>pts k n pts' ok. item_wj pts k n = Inr (pts', ok) \<Longrightarrow> item (trunc pts) k n = Inr (trunc pts', ok)"
    and "load_items_wj item_wj nNum ns k pts = Inr (pts', ok)"
  shows "load_items item nNum ns k (trunc pts) = Inr (trunc pts', ok)"
  using assms(2)
proof (induction ns arbitrary: k pts)
  case (Cons n ns)
  show ?case
  proof (cases "int k > nNum")
    case False
    with Cons.prems obtain p1 ok1 where 1: "item_wj pts k n = Inr (p1, ok1)"
      and 2: "(if ok1 then load_items_wj item_wj nNum ns (Suc k) p1 else Inr (p1, False)) = Inr (pts', ok)"
      by (auto simp: bindR_eq_Inr)
    from item [OF 1] 2 Cons.IH False show ?thesis by (auto split: if_splits)
  qed (use Cons.prems in simp)
qed simp

lemma load_point_list_older:
  assumes e: "like_env env' env"
    and item: "\<And>pts k n pts' ok. item_wj pts k n = Inr (pts', ok) \<Longrightarrow> item (trunc pts) k n = Inr (trunc pts', ok)"
    and l: "load_point_list_wj env' ty t item_wj node zero_list_wj = Inr (pl, ok)"
  shows "load_point_list env ty t item node zero_point_list = Inr (forget_list pl, ok)"
proof -
  have a: "alloc env' = alloc env" and f: "trunc (map (fresh_point_wj env') xs) = map (fresh_point env) xs" for xs
    using e by (simp_all add: like_env_def alloc_def fun_eq_iff)
  have items: "load_items item n ns 0 (map (fresh_point env) xs) = Inr (trunc pts, q)"
    if "load_items_wj item_wj n ns 0 (map (fresh_point_wj env') xs) = Inr (pts, q)" for n ns xs pts q
    using load_items_older [of item_wj item, OF item that] by (simp only: f)
  show ?thesis
  proof (cases "find_by_tag (node_children node) t")
    case None
    with l show ?thesis by (auto simp: load_point_list_wj_def load_point_list_def forget_list_def zero_list_wj_def zero_point_list_def)
  next
    case (Some nd)
    with l obtain s where s: "xmlGetProp nd ''num'' = Some s"
      by (cases "xmlGetProp nd ''num''") (simp_all add: load_point_list_wj_def)
    show ?thesis
    proof (cases "alloc env (PointLock ty) 1 \<and> 0 < dec_of s \<and> alloc env (PointItems ty) (dec_of s)")
      case True
      with l Some s obtain pts where
        "load_items_wj item_wj (dec_of s) (node_children nd) 0 (map (fresh_point_wj env') [0 ..< nat (dec_of s)]) = Inr (pts, ok)"
        and "pl = zero_list_wj\<lparr>plw_nNum := dec_of s, plw_lock := Unlocked, plw_point := Some pts\<rparr>"
        by (auto simp: load_point_list_wj_def a bindR_eq_Inr Let_def wj_copy str2dec_cstr)
      with items Some s True show ?thesis
        by (auto simp: load_point_list_def Let_def str2dec_cstr forget_list_def zero_list_wj_def zero_point_list_def)
    next
      case False
      with l Some s show ?thesis
        by (auto simp: load_point_list_wj_def load_point_list_def a Let_def wj_copy str2dec_cstr forget_list_def
            zero_list_wj_def zero_point_list_def split: if_splits)
    qed
  qed
qed

lemma ids_older: "load_ids_wj = load_ids"
proof -
  have "id_item_wj = id_item" by (simp add: fun_eq_iff id_item_wj_def id_item_def wj_copy)
  then have "load_ids_wj n ns k items = load_ids n ns k items" for n ns k items
    by (induction ns arbitrary: k items) (auto intro: bindR_cong)
  then show ?thesis by (simp add: fun_eq_iff)
qed

lemma load_id_older:
  assumes e: "like_env env' env" and "load_id_wj env' root pm = Inr (pm', ok)"
    and "id_list_wj pm = \<lparr>il_nNum = 0, il_pItem = None\<rparr>"
  shows "load_id env root (forget_map pm) = Inr (forget_map pm', ok)"
proof -
  have "alloc env' = alloc env" "fresh_id env' = fresh_id env" using e by (simp_all add: like_env_def alloc_def fun_eq_iff)
  with assms(2,3) show ?thesis
    by (auto simp: load_id_wj_def load_id_def bindR_eq_Inr Let_def wj_copy ids_older forget_map_def
        split: option.splits if_splits)
qed

lemma forget_zero: "forget_list zero_list_wj = zero_point_list" "forget_map zero_pointMap_wj = zero_pointMap"
  by (simp_all add: forget_list_def forget_map_def zero_list_wj_def zero_point_list_def zero_pointMap_wj_def zero_pointMap_def)

lemma sections_older:
  assumes e: "like_env env' env"
  shows "load_yc_wj env' node pm = Inr (pm', ok) \<Longrightarrow> yc_list_wj pm = zero_list_wj \<Longrightarrow>
      load_yc env node (forget_map pm) = Inr (forget_map pm', ok)"
    and "load_yx_wj env' node pm = Inr (pm', ok) \<Longrightarrow> yx_list_wj pm = zero_list_wj \<Longrightarrow>
      load_yx env node (forget_map pm) = Inr (forget_map pm', ok)"
    and "load_ym_wj env' node pm = Inr (pm', ok) \<Longrightarrow> ym_list_wj pm = zero_list_wj \<Longrightarrow>
      load_ym env node (forget_map pm) = Inr (forget_map pm', ok)"
  using load_point_list_older [OF e, where item_wj = yc_item_wj and item = yc_item, OF yc_item_older]
    load_point_list_older [OF e, where item_wj = yx_item_wj and item = yx_item, OF yx_item_older]
    load_point_list_older [OF e, where item_wj = ym_item_wj and item = ym_item, OF ym_item_older]
  by (auto simp: load_yc_wj_def load_yc_def load_yx_wj_def load_yx_def load_ym_wj_def load_ym_def bindR_eq_Inr
      forget_map_def forget_zero(1))

lemma sections_keep:
  "load_yc_wj env node pm = Inr (pm', ok) \<Longrightarrow> \<exists>pl. pm' = pm\<lparr>yc_list_wj := pl\<rparr>"
  "load_yx_wj env node pm = Inr (pm', ok) \<Longrightarrow> \<exists>pl. pm' = pm\<lparr>yx_list_wj := pl\<rparr>"
  "load_ym_wj env node pm = Inr (pm', ok) \<Longrightarrow> \<exists>pl. pm' = pm\<lparr>ym_list_wj := pl\<rparr>"
  by (auto simp: load_yc_wj_def load_yx_wj_def load_ym_wj_def bindR_eq_Inr)

text \<open>One section and what follows it.\<close>

lemma chain_older:
  assumes "bindR A (\<lambda>(pm, ok). if \<not> ok then Inr (pm, - 1) else K pm) = Inr (pm', r)"
    and "\<And>pm ok. A = Inr (pm, ok) \<Longrightarrow> B = Inr (forget_map pm, ok)"
    and "\<And>pm. A = Inr (pm, True) \<Longrightarrow> K pm = Inr (pm', r) \<Longrightarrow> L (forget_map pm) = Inr (forget_map pm', r :: int)"
  shows "bindR B (\<lambda>(pm, ok). if \<not> ok then Inr (pm, - 1) else L pm) = Inr (forget_map pm', r)"
proof -
  from assms(1) obtain pm ok where "A = Inr (pm, ok)" by (auto simp: bindR_eq_Inr)
  with assms show ?thesis by (cases ok) auto
qed

lemma point_list_older:
  assumes e: "like_env env' env" and l: "rh_point_list_load_wj env' doc = Inr (pm, r)"
  shows "rh_point_list_load env doc = Inr (forget_map pm, r)"
proof (cases "\<exists>d root cfg node. doc = Some d \<and> xmlDocGetRootElement d = Some root
    \<and> find_by_name (node_children root) ''IED_CFG'' = Some cfg \<and> find_by_tag (node_children cfg) ''104tstied'' = Some node")
  case False
  with l have "pm = zero_pointMap_wj \<and> r = - 1" by (auto simp: rh_point_list_load_wj_def split: option.splits)
  with False show ?thesis by (auto simp: rh_point_list_load_def forget_zero split: option.splits)
next
  case True
  then obtain d root cfg node where doc: "doc = Some d" "xmlDocGetRootElement d = Some root"
    "find_by_name (node_children root) ''IED_CFG'' = Some cfg" "find_by_tag (node_children cfg) ''104tstied'' = Some node"
    by blast
  note l' = l [unfolded rh_point_list_load_wj_def doc option.case]
  have z: "yc_list_wj zero_pointMap_wj = zero_list_wj" "yx_list_wj zero_pointMap_wj = zero_list_wj"
    "ym_list_wj zero_pointMap_wj = zero_list_wj" "id_list_wj zero_pointMap_wj = \<lparr>il_nNum = 0, il_pItem = None\<rparr>"
    by (simp_all add: zero_pointMap_wj_def)
  show ?thesis
    unfolding rh_point_list_load_def doc option.case
    using l'
  proof (rule chain_older, goal_cases)
    case (1 pm ok)
    with sections_older(1) [OF e] z(1) show ?case by (metis forget_zero(2))
  next
    case (2 pm1)
    then obtain pl1 where p1: "pm1 = zero_pointMap_wj\<lparr>yc_list_wj := pl1\<rparr>" using sections_keep(1) by blast
    from 2(2) show ?case
    proof (rule chain_older, goal_cases)
      case (2 pm2)
      then obtain pl2 where p2: "pm2 = pm1\<lparr>yx_list_wj := pl2\<rparr>" using sections_keep(2) by blast
      from 2(2) show ?case
      proof (rule chain_older, goal_cases)
        case (2 pm3)
        then obtain pl3 where p3: "pm3 = pm2\<lparr>ym_list_wj := pl3\<rparr>" using sections_keep(3) by blast
        from 2(2) show ?case
          by (rule chain_older) (use load_id_older [OF e] p1 p2 p3 z(4) in auto)
      qed (use sections_older(3) [OF e] p1 p2 z(3) in auto)
    qed (use sections_older(2) [OF e] p1 z(2) in auto)
  qed
qed

section \<open>Meter parameters\<close>

lemma poke_dec_older: "poke_dec_wj = poke_dec"
  by (simp add: fun_eq_iff poke_dec_wj_def poke_dec_def wj_copy el_copy)

lemma para_item_older:
  assumes "dec_attr n ''index'' k" and "N \<le> 1024"
  shows "k < int N \<Longrightarrow> para_item_wj N mem n = para_item mem n"
    and "int N \<le> k \<Longrightarrow> para_item_wj N mem n = Inr (mem, Break)"
proof -
  obtain s where "xmlGetProp n ''index'' = Some s" "str2dec (cstr s) = Inr k" using assms(1) by (auto simp: dec_attr_def)
  then show "k < int N \<Longrightarrow> para_item_wj N mem n = para_item mem n"
    and "int N \<le> k \<Longrightarrow> para_item_wj N mem n = Inr (mem, Break)"
    using assms(2) unfolding para_item_wj_def para_item_def wj_copy el_copy poke_dec_older
    by (simp_all add: MAX_METER_def)
qed

lemma load_paras_older:
  assumes "list_all2 describes ns ps" and "list_all (\<lambda>p. p_index p < N) ps" and "N \<le> 1024"
  shows "load_paras_wj N nMetNum ns idx mem = load_paras nMetNum ns idx mem"
  using assms
proof (induction ns ps arbitrary: idx mem rule: list_all2_induct)
  case (Cons n ns p ps)
  have "dec_attr n ''index'' (int (p_index p))" using Cons.hyps(1) by (simp add: describes_def)
  then have "para_item_wj N mem n = para_item mem n" using para_item_older(1) Cons.prems by simp
  moreover have "load_paras_wj N nMetNum ns (Suc idx) mem = load_paras nMetNum ns (Suc idx) mem" for mem
    using Cons.IH Cons.prems by simp
  ultimately show ?case by (auto intro!: bindR_cong split: load_end.splits)
qed simp

lemma older_parameters:
  assumes "para_doc d num ns" and "list_all2 describes ns ps" and "int (length ns) \<le> num"
    and "list_all (\<lambda>p. p_index p < N) ps" and "N \<le> 1024"
  shows "rh_meter_param_load_wj N (Some d) = Inr (foldl stored (replicate (N * 52) 0) ps, int (length ns))"
proof -
  have "rh_meter_param_load_wj N (Some d) = load_paras_wj N num ns 0 (zero_ParaMet_wj N)"
    using assms(1) by (auto simp: para_doc_def rh_meter_param_load_wj_def wj_copy Let_def)
  also have "\<dots> = load_paras num ns 0 (zero_ParaMet_wj N)" using load_paras_older assms(2,4,5) .
  finally show ?thesis
    using load_paras_stored [OF assms(2,4), of "zero_ParaMet_wj N" 0 num] assms(3,5) by (simp add: zero_ParaMet_wj_def)
qed

section \<open>Start\<close>

lemma lock_keeps_data:
  "on_ied_lock_wj f i m = Inr m' \<Longrightarrow> wj_pDataMem m' = wj_pDataMem m"
  "on_list_lock_wj f ty m = Inr m' \<Longrightarrow> wj_pDataMem m' = wj_pDataMem m"
  by (auto simp: on_ied_lock_wj_def on_list_lock_wj_def bindR_eq_Inr Let_def split: option.splits)

lemma no_data:
  assumes "wj_pDataMem m = None"
  shows "mem_write_wj m a data n = Inr m' \<Longrightarrow> n \<le> 0" and "mem_read_wj m buf a n = Inr buf' \<Longrightarrow> n \<le> 0"
  using assms by (auto simp: mem_write_wj_def mem_read_wj_def split: if_splits)

text \<open>Without a data memory no access transfers anything.\<close>

lemma no_data_accesses:
  assumes m: "wj_pDataMem m = None"
  shows "rh_mem_data_write_oop_wj m nPn nDi data n = Inr (m', q) \<Longrightarrow> 0 < n \<Longrightarrow> q = - 1"
    and "rh_mem_data_read_oop_wj m nPn nDi buf sz = Inr (m', out, q) \<Longrightarrow> q \<le> 0"
    and "rh_mem_data_write_iec_wj m b a k data n = Inr (m', q) \<Longrightarrow> 0 < n \<Longrightarrow> q = - 1"
    and "rh_mem_data_read_iec_wj m b a k buf sz = Inr (m', out, q) \<Longrightarrow> q \<le> 0"
proof -
  have found: "find_oop_wj m nPn nDi = Inr None \<or> (\<exists>i d u. find_oop_wj m nPn nDi = Inr (Some (i, d, u)))"
    if "bindR (find_oop_wj m nPn nDi) f = Inr y" for f :: "_ \<Rightarrow> 'b res" and y
    using that by (cases "find_oop_wj m nPn nDi") (auto, metis option.exhaust prod_cases3)
  show "q = - 1" if w: "rh_mem_data_write_oop_wj m nPn nDi data n = Inr (m', q)" and "0 < n"
    using found [OF w [unfolded rh_mem_data_write_oop_wj_def]] w m \<open>0 < n\<close>
    by (auto simp: rh_mem_data_write_oop_wj_def bindR_eq_Inr split: if_splits dest!: lock_keeps_data no_data(1) [rotated])
  show "q \<le> 0" if w: "rh_mem_data_read_oop_wj m nPn nDi buf sz = Inr (m', out, q)"
    using found [OF w [unfolded rh_mem_data_read_oop_wj_def]] w m
    by (auto simp: rh_mem_data_read_oop_wj_def bindR_eq_Inr dest!: lock_keeps_data no_data(2) [rotated])
  show "q = - 1" if w: "rh_mem_data_write_iec_wj m b a k data n = Inr (m', q)" and "0 < n"
  proof (cases "data_type_of b")
    case (Some ty)
    with w obtain m1 r where r: "on_list_lock_wj mutex_lock ty m = Inr m1" "find_iec_wj m1 ty a = Inr r"
      by (auto simp: rh_mem_data_write_iec_wj_def bindR_eq_Inr)
    with w Some m \<open>0 < n\<close> show ?thesis
      by (cases r) (auto simp: rh_mem_data_write_iec_wj_def bindR_eq_Inr dest!: lock_keeps_data no_data(1) [rotated])
  qed (use w in \<open>simp add: rh_mem_data_write_iec_wj_def\<close>)
  show "q \<le> 0" if w: "rh_mem_data_read_iec_wj m b a k buf sz = Inr (m', out, q)"
  proof (cases "data_type_of b")
    case (Some ty)
    with w obtain m1 r where r: "on_list_lock_wj mutex_lock ty m = Inr m1" "find_iec_wj m1 ty a = Inr r"
      by (auto simp: rh_mem_data_read_iec_wj_def bindR_eq_Inr)
    with w Some m show ?thesis
      by (cases r) (auto simp: rh_mem_data_read_iec_wj_def bindR_eq_Inr split: if_splits
          dest!: lock_keeps_data no_data(2) [rotated])
  qed (use w in \<open>simp add: rh_mem_data_read_iec_wj_def\<close>)
qed

lemma init_wj_result:
  "rh_mem_init_wj N env doc1 doc2 doc3 m0 = Inr (m, r) \<Longrightarrow> r = - 1 \<and> wj_pDataMem m = wj_pDataMem m0"
  by (auto simp: rh_mem_init_wj_def bindR_eq_Inr Let_def split: if_splits)

section \<open>Properties\<close>

text \<open>A configuration with two signals for the witnesses.\<close>

definition signal_section :: xmlNode where
  "signal_section = Element ''LD'' [(''tag'', ''YX''), (''num'', ''2'')]
     [Element ''DO'' [(''addr'', ''7''), (''pn'', ''3''), (''id'', ''09000001''), (''path'', ''m1.E.a'')] [],
      Element ''DO'' [(''addr'', ''8''), (''pn'', ''3''), (''id'', ''09000002''), (''path'', ''m1.E.b'')] []]"

definition signal_doc :: xmlDoc where
  "signal_doc = [Element ''ROOT'' []
     [Element ''IED_CFG'' [(''num'', ''1'')] [Element ''IED'' [(''tag'', ''104tstied'')] [signal_section]]]]"

definition signal_env :: alloc_env where
  "signal_env = \<lparr>malloc_ok = (\<lambda>_. True), junk = (\<lambda>_. 7)\<rparr>"

lemma signal_doc:
  "find_by_tag (node_children (point_node signal_doc)) ''YX'' = Some signal_section" "keyed_section signal_section"
  "malloc_ok signal_env s"
  by (code_simp, code_simp, simp add: signal_env_def)

lemma signal_doc_loads: "\<exists>pm. rh_point_list_load_wj signal_env (Some signal_doc) = Inr (pm, 0)"
proof -
  have "(case rh_point_list_load_wj signal_env (Some signal_doc) of Inl _ \<Rightarrow> False | Inr (pm, r) \<Rightarrow> r = 0)"
    by code_simp
  then show ?thesis by (auto split: sum.splits)
qed

text \<open>
  C28: the tables the older point loader fills are those of the current one: whatever it returns for a
  document, \<^verbatim>\<open>rh_point_list_load\<close> returns the same with the point numbers and identifiers of the
  entries forgotten, early \<^verbatim>\<open>return -1\<close>s and half-filled tables included.
\<close>

theorem older_point_tables_agree:
  assumes "like_env env' env" and "rh_point_list_load_wj env' doc = Inr (pm, r)"
  shows "rh_point_list_load env doc = Inr (forget_map pm, r)"
  using assms by (rule point_list_older)

lemma fresh_constant: "junk env = (\<lambda>_. c) \<Longrightarrow> fresh_bytes env k n = replicate n c"
  by (simp add: fresh_bytes_def map_replicate_const)

lemma signal_like: "like_env signal_env signal_env"
  by (simp add: like_env_def fresh_point_wj_def fresh_point_def fresh_constant [where c = 7] signal_env_def
      POINT_ITEM_T.truncate_def)

theorem older_point_tables_agree_witness:
  "\<exists>pm. rh_point_list_load_wj signal_env (Some signal_doc) = Inr (pm, 0)
     \<and> rh_point_list_load signal_env (Some signal_doc) = Inr (forget_map pm, 0)"
  using signal_doc_loads older_point_tables_agree [OF signal_like] by blast

text \<open>
  C29: \<^verbatim>\<open>rh_mem_get_yx_addr\<close> finds the configured address: after a successful load of a document whose
  signal section is complete, it returns the \<^verbatim>\<open>addr\<close> attribute of the first entry whose \<^verbatim>\<open>pn\<close> (modulo
  65536) and \<^verbatim>\<open>id\<close> are those asked for, and -1 when there is none.
\<close>

theorem yx_address_found:
  assumes "rh_point_list_load_wj env (Some d) = Inr (wj_pointMap m, 0)"
    and "find_by_tag (node_children (point_node d)) ''YX'' = Some s" and "keyed_section s"
    and "malloc_ok env (PointItems DATA_YX)"
  shows "rh_mem_get_yx_addr_wj m nPn nId =
     Inr (case find (\<lambda>n. nPn = word_of_int (dec_of (attr n ''pn'')) \<and> nId = id_value (attr n ''id'')) (node_children s) of
       None \<Rightarrow> - 1 | Some n \<Rightarrow> dec_of (attr n ''addr''))"
  using yx_address [OF assms(1-4) refl] .

lemma signal_keys:
  "find (\<lambda>n. 3 = (word_of_int (dec_of (attr n ''pn'')) :: u16) \<and> 0x09000002 = id_value (attr n ''id'')) (node_children signal_section) =
     Some (node_children signal_section ! 1)"
  "dec_of (attr (node_children signal_section ! 1) ''addr'') = 8"
  by code_simp+

theorem yx_address_found_witness:
  "\<exists>pm. rh_point_list_load_wj signal_env (Some signal_doc) = Inr (pm, 0)
     \<and> rh_mem_get_yx_addr_wj ((mem_start_wj 4)\<lparr>wj_pointMap := pm\<rparr>) 3 0x09000002 = Inr 8"
proof -
  obtain pm where pm: "rh_point_list_load_wj signal_env (Some signal_doc) = Inr (pm, 0)" using signal_doc_loads by blast
  then have "rh_point_list_load_wj signal_env (Some signal_doc) = Inr (wj_pointMap ((mem_start_wj 4)\<lparr>wj_pointMap := pm\<rparr>), 0)"
    by simp
  from yx_address_found [OF this signal_doc, of 3 "0x09000002", unfolded signal_keys option.case] pm show ?thesis by blast
qed

text \<open>
  the older loader of the meter parameters has no room for the overrun of \<^verbatim>\<open>elMeter.c\<close>: its array
  is as large as its index check assumes, so complete elements with different indices below
  \<^verbatim>\<open>MAX_METER\<close> (up to the 1024 of \<^verbatim>\<open>elMeter.h\<close>) all arrive with port and level, the rest of the
  array stays empty, and an element with a larger index stores nothing.
\<close>

theorem older_parameters_in_bounds:
  assumes "para_doc d num ns" and "list_all2 describes ns ps" and "int (length ns) \<le> num"
    and "list_all (\<lambda>p. p_index p < N) ps" and "distinct (map p_index ps)" and "N \<le> 1024"
  shows "(\<exists>mem. rh_meter_param_load_wj N (Some d) = Inr (mem, int (length ns)) \<and> length mem = N * 52
     \<and> (\<forall>p \<in> set ps. port_of mem (p_index p) = p_port p \<and> level_of mem (p_index p) = word_of_int (p_level p))
     \<and> (\<forall>m < N. m \<notin> p_index ` set ps \<longrightarrow> port_of mem m = 0))
   \<and> (\<forall>mem n k. dec_attr n ''index'' k \<and> int N \<le> k \<longrightarrow> para_item_wj N mem n = Inr (mem, Break))"
proof -
  have "list_all (para_ok N) ps"
    using assms(2,4) by (induction ns ps rule: list_all2_induct) (simp_all add: para_ok_def describes_short)
  note all = stored_all [OF this assms(5)]
  have "rh_meter_param_load_wj N (Some d) = Inr (foldl stored (replicate (N * 52) 0) ps, int (length ns))"
    by (rule older_parameters [OF assms(1-4,6)])
  with all para_item_older(2) assms(6) show ?thesis by blast
qed

lemma shipped_load:
  "\<exists>mem. rh_meter_param_load_wj 200 (Some (para_xml ''2'' shipped_paras)) = Inr (mem, 2)"
proof -
  have "para_doc (para_xml ''2'' shipped_paras) 2 shipped_paras"
    by (rule para_xml_doc) (simp_all add: scan_digits)
  from older_parameters [OF this shipped_described, of 200] show ?thesis
    by (auto simp: shipped_paras_def shipped_meters_def)
qed

theorem older_parameters_in_bounds_witness:
  "(\<exists>mem. rh_meter_param_load_wj 200 (Some (para_xml ''2'' shipped_paras)) = Inr (mem, 2)
     \<and> level_of mem 2 = 1 \<and> port_of mem 2 = 0xF2010201 \<and> port_of mem 199 = 0)
   \<and> para_item_wj 200 [] (Element ''para'' [(''index'', ''200'')] []) = Inr ([], Break)"
proof -
  have "para_doc (para_xml ''2'' shipped_paras) 2 shipped_paras"
    by (rule para_xml_doc) (simp_all add: scan_digits)
  note all = older_parameters_in_bounds [OF this shipped_described, of 200, simplified shipped_paras_def shipped_meters_def,
      simplified, folded shipped_paras_def]
  have "dec_attr (Element ''para'' [(''index'', ''200'')] []) ''index'' 200" by (simp add: dec_attr_def scan_digits)
  with all show ?thesis by (auto 0 4)
qed

text \<open>
  C36: the older data memory never starts: whatever the configuration, \<^verbatim>\<open>rh_mem_init\<close> does not return
  anything but -1 and never allocates the data memory, and after it no access of any kind
  transfers a byte: a write of at least one byte that returns has returned -1, and no read
  returns a positive length.
\<close>

theorem older_memory_never_starts:
  assumes "rh_mem_init_wj N env doc1 doc2 doc3 (mem_start_wj N) = Inr (m, r)" and "0 < n"
  shows "r = - 1 \<and> wj_pDataMem m = None
     \<and> (\<forall>nPn nDi data m' q. rh_mem_data_write_oop_wj m nPn nDi data n = Inr (m', q) \<longrightarrow> q = - 1)
     \<and> (\<forall>nPn nDi buf sz m' out q. rh_mem_data_read_oop_wj m nPn nDi buf sz = Inr (m', out, q) \<longrightarrow> q \<le> 0)
     \<and> (\<forall>b a k data m' q. rh_mem_data_write_iec_wj m b a k data n = Inr (m', q) \<longrightarrow> q = - 1)
     \<and> (\<forall>b a k buf sz m' out q. rh_mem_data_read_iec_wj m b a k buf sz = Inr (m', out, q) \<longrightarrow> q \<le> 0)"
proof -
  have r: "r = - 1" and m: "wj_pDataMem m = None" using init_wj_result [OF assms(1)] by (simp_all add: mem_start_wj_def)
  show ?thesis using r m no_data_accesses [OF m] assms(2) by blast
qed

text \<open>With configurations that load, the device index and the tables are there, only the memory is not.\<close>

theorem older_memory_never_starts_witness:
  "\<exists>m. rh_mem_init_wj 200 signal_env (Some (para_xml ''2'' shipped_paras)) (Some signal_doc) (Some demo_doc) (mem_start_wj 200)
       = Inr (m, - 1)
     \<and> wj_memMap m = index_of signal_env demo_doc \<and> plw_nNum (yx_list_wj (wj_pointMap m)) = 2
     \<and> (\<forall>data m' q. rh_mem_data_write_oop_wj m 1 0x00010000 data 4 = Inr (m', q) \<longrightarrow> q = - 1)"
proof -
  obtain mem where 1: "rh_meter_param_load_wj 200 (Some (para_xml ''2'' shipped_paras)) = Inr (mem, 2)"
    using shipped_load by blast
  obtain pm where 2: "rh_point_list_load_wj signal_env (Some signal_doc) = Inr (pm, 0)" using signal_doc_loads by blast
  have 3: "rh_mem_map_init_wj signal_env (Some demo_doc) = Inr (index_of signal_env demo_doc, span (objects demo_doc))"
    unfolding rh_mem_map_init_wj_def by (rule map_init_closed [OF demo_doc(2) signal_doc(3)])
  let ?m = "(mem_start_wj 200)\<lparr>wj_ParaMet := mem, wj_pointMap := pm, wj_memMap := index_of signal_env demo_doc\<rparr>"
  have i: "rh_mem_init_wj 200 signal_env (Some (para_xml ''2'' shipped_paras)) (Some signal_doc) (Some demo_doc) (mem_start_wj 200)
      = Inr (?m, - 1)" using 1 2 3 by (simp add: rh_mem_init_wj_def)
  have "plw_nNum (yx_list_wj pm) = 2"
  proof -
    have "(case rh_point_list_load_wj signal_env (Some signal_doc) of Inl _ \<Rightarrow> False
        | Inr (pm, r) \<Rightarrow> plw_nNum (yx_list_wj pm) = 2)" by code_simp
    with 2 show ?thesis by simp
  qed
  moreover have "rh_mem_data_write_oop_wj ?m 1 0x00010000 data 4 = Inr (m', q) \<Longrightarrow> q = - 1" for data m' q
    using older_memory_never_starts [OF i, of 4] by simp
  ultimately show ?thesis using i by (intro exI [of _ ?m]) simp
qed

end
