(* ===== verification/EntryPoints.thy ===== *)
theory EntryPoints
  imports ClientServer RhMain
begin

text \<open>
  The \<^verbatim>\<open>main\<close> functions of the four programs.  Those of \<^verbatim>\<open>enegy_loss/\<close>, \<^verbatim>\<open>client/\<close> and \<^verbatim>\<open>server/\<close>
  end in \<^verbatim>\<open>while(1) sleep(1)\<close>, the last two inside \<^verbatim>\<open>el_dbase_init\<close>; that of \<^verbatim>\<open>code/\<close> ends in the loop of
  \<open>RhMain\<close>.  What the other threads do to the state of the process during one second is the argument
  \<open>second\<close>.  A loop that does not end is \<open>None\<close>.
\<close>

section \<open>Endless loops\<close>

partial_function (option) forever :: "('s \<Rightarrow> 's res) \<Rightarrow> 's \<Rightarrow> 's res option" where
  "forever second s = (case second s of Inl e \<Rightarrow> Some (Inl e) | Inr s \<Rightarrow> forever second s)"

text \<open>The state after \<open>n\<close> seconds.\<close>

fun after :: "('s \<Rightarrow> 's res) \<Rightarrow> nat \<Rightarrow> 's \<Rightarrow> 's res" where
  "after second 0 s = Inr s"
| "after second (Suc n) s = bindR (second s) (after second n)"

text \<open>The loop is left by a fault only, in the first second that faults.\<close>

lemma forever_Some: "forever second s = Some r \<Longrightarrow> \<exists>n e. r = Inl e \<and> after second n s = Inl e"
proof (induction rule: forever.raw_induct [rotated 1, consumes 1])
  case (1 forever second s r)
  show ?case
  proof (cases "second s")
    case (Inl e)
    with 1(2) show ?thesis by (intro exI [of _ 1] exI [of _ e]) auto
  next
    case (Inr s1)
    with 1(2) have "forever second s1 = Some r" by simp
    with 1(1) obtain n e where "r = Inl e" "after second n s1 = Inl e" by blast
    with Inr show ?thesis by (intro exI [of _ "Suc n"] exI [of _ e]) simp
  qed
qed

lemma forever_fault: "after second n s = Inl e \<Longrightarrow> forever second s = Some (Inl e)"
proof (induction n arbitrary: s)
  case (Suc n)
  then show ?case by (subst forever.simps) (auto simp: bindR_def split: sum.splits)
qed simp

lemma forever_None: "forever second s = None \<longleftrightarrow> (\<forall>n. \<exists>s'. after second n s = Inr s')"
proof
  assume never: "forever second s = None"
  show "\<forall>n. \<exists>s'. after second n s = Inr s'"
  proof
    fix n show "\<exists>s'. after second n s = Inr s'"
      using never forever_fault [of second n s] by (cases "after second n s") auto
  qed
next
  assume runs: "\<forall>n. \<exists>s'. after second n s = Inr s'"
  show "forever second s = None"
  proof (cases "forever second s")
    case (Some r)
    from forever_Some [OF this] obtain n e where "after second n s = Inl e" by blast
    with runs show ?thesis by (metis sum.distinct(1))
  qed
qed

lemma forever_not_done: "forever second s \<noteq> Some (Inr s')"
  using forever_Some by fastforce

section \<open>The programs\<close>

text \<open>\<open>None\<close> is a program that runs for ever, \<open>Some (Inl e)\<close> one that faults, \<open>Some (Inr r)\<close> one that returns \<open>r\<close>.\<close>

definition main_el :: "os_env \<Rightarrow> xmlDoc option \<Rightarrow> (el_app \<Rightarrow> el_app res) \<Rightarrow> el_app \<Rightarrow> int res option" where
  "main_el os doc second s =
     (case el_init os doc s of
        Inl e \<Rightarrow> Some (Inl e)
      | Inr (s, _, _) \<Rightarrow> map_option (\<lambda>r. bindR r (\<lambda>s. Inr 0)) (forever second s))"

definition el_dbase_init_all_cl ::
  "os_env \<Rightarrow> (dbase_proc \<Rightarrow> dbase_proc res) \<Rightarrow> dbase_proc \<Rightarrow> dbase_proc res option" where
  "el_dbase_init_all_cl os second p =
     (case el_dbase_init_cl os p of Inl e \<Rightarrow> Some (Inl e) | Inr (p, _) \<Rightarrow> forever second p)"

definition el_dbase_init_all_sv ::
  "os_env \<Rightarrow> (dbase_proc \<Rightarrow> dbase_proc res) \<Rightarrow> dbase_proc \<Rightarrow> dbase_proc res option" where
  "el_dbase_init_all_sv os second p =
     (case el_dbase_init_sv os p of Inl e \<Rightarrow> Some (Inl e) | Inr (p, _) \<Rightarrow> forever second p)"

definition main_cl :: "os_env \<Rightarrow> (dbase_proc \<Rightarrow> dbase_proc res) \<Rightarrow> dbase_proc \<Rightarrow> int res option" where
  "main_cl os second p = map_option (\<lambda>r. bindR r (\<lambda>p. Inr 0)) (el_dbase_init_all_cl os second p)"

text \<open>
  The server's \<^verbatim>\<open>main\<close> goes on with a read; \<open>inBuf_var\<close> are the bytes of the pointer variable that
  \<^verbatim>\<open>el_read_data\<close> sends.
\<close>

definition main_sv ::
  "os_env \<Rightarrow> 'w tick_env \<Rightarrow> (dbase_proc \<Rightarrow> dbase_proc res) \<Rightarrow> u8 list \<Rightarrow> dbase_proc \<Rightarrow> 'w \<Rightarrow> int res option" where
  "main_sv os env second inBuf_var p w =
     map_option (\<lambda>r. bindR r (\<lambda>p.
       bindR (el_read_data_sv os env 0 inBuf_var 4 (replicate 128 0) 128 p w) (\<lambda>_. Inr 0)))
     (el_dbase_init_all_sv os second p)"

text \<open>None of them returns, so the read of the server is never made.\<close>

lemma mains_never_return:
  "main_el os doc second s \<noteq> Some (Inr r)" "main_cl os second' p \<noteq> Some (Inr r)"
  "main_sv os env second' var p w \<noteq> Some (Inr r)"
  using forever_not_done
  by (fastforce simp: main_el_def main_cl_def main_sv_def el_dbase_init_all_cl_def el_dbase_init_all_sv_def
      bindR_eq_Inr split: sum.splits)+

lemma main_sv_never_reads:
  "main_sv os env second var p w = map_option (\<lambda>r. bindR r (\<lambda>p. f p)) (el_dbase_init_all_sv os second p)"
proof (cases "el_dbase_init_all_sv os second p")
  case (Some r)
  then obtain e where "r = Inl e"
    using forever_Some by (fastforce simp: el_dbase_init_all_sv_def split: sum.splits prod.splits)
  with Some show ?thesis by (simp add: main_sv_def)
qed (simp add: main_sv_def)

text \<open>
  The loop of the data server's \<^verbatim>\<open>main\<close>, with the second of the other thread, if it runs, after each
  iteration.
\<close>

definition main_second :: "(rh_proc \<Rightarrow> rh_proc res) \<Rightarrow> rh_proc \<times> binary32 \<times> int \<Rightarrow> (rh_proc \<times> binary32 \<times> int) res" where
  "main_second second = (\<lambda>(p, data1, nTick).
     bindR (main_tick (dp_mem p) data1 nTick) (\<lambda>(m, data1, nTick).
     bindR (second (p\<lparr>dp_mem := m\<rparr>)) (\<lambda>p. Inr (p, data1, nTick))))"

definition main_rh ::
  "os_env \<Rightarrow> alloc_env \<Rightarrow> xmlDoc option \<Rightarrow> xmlDoc option \<Rightarrow> (rh_proc \<Rightarrow> rh_proc res) \<Rightarrow> rh_proc \<Rightarrow> int res option" where
  "main_rh os env doc1 doc2 second p =
     (case main_start os env doc1 doc2 p of
        Inl e \<Rightarrow> Some (Inl e)
      | Inr (p, b) \<Rightarrow> map_option (\<lambda>r. bindR r (\<lambda>_. Inr 0))
          (forever (main_second (if b then second else Inr)) (p, B32 0x40533333, 0)))"

text \<open>A loop whose iterations keep an invariant that excludes faults does not end.\<close>

lemma forever_invariant:
  assumes step: "\<And>s. I s \<Longrightarrow> \<exists>s'. second s = Inr s' \<and> I s'" and "I s"
  shows "forever second s = None"
proof -
  have "\<exists>s'. after second n s = Inr s'" if "I s" for n s
    using that
  proof (induction n arbitrary: s)
    case (Suc n)
    obtain s' where "second s = Inr s'" "I s'" using step [OF Suc.prems] by blast
    with Suc.IH [of s'] show ?case by simp
  qed simp
  then show ?thesis using \<open>I s\<close> by (simp add: forever_None)
qed

lemma main_second_loop:
  assumes keep: "\<And>p. J p \<Longrightarrow> loop_ok (dp_mem p)"
    and second: "\<And>p m. J p \<Longrightarrow> loop_ok m \<Longrightarrow> \<exists>p'. second (p\<lparr>dp_mem := m\<rparr>) = Inr p' \<and> J p'"
    and "J p" and "t \<le> 71"
  shows "forever (main_second second) (p, d, int t) = None"
proof (rule forever_invariant [where I = "\<lambda>(p, d, t). J p \<and> 0 \<le> t \<and> t \<le> 71"])
  fix s :: "rh_proc \<times> binary32 \<times> int"
  assume s: "case s of (p, d, t) \<Rightarrow> J p \<and> 0 \<le> t \<and> t \<le> 71"
  obtain p d t where e: "s = (p, d, t)" by (cases s)
  with s have p: "J p" "nat t \<le> 71" "t = int (nat t)" and t: "0 \<le> t" "t \<le> 71" by (simp_all add: nat_le_iff)
  obtain m where m: "main_tick (dp_mem p) d t = Inr (m, shown (dp_mem p) d, if nat t = 71 then 1 else t + 1)" "loop_ok m"
    using main_tick_ok [OF keep [OF p(1)] p(2), of d] p(3) by auto
  obtain p' where "second (p\<lparr>dp_mem := m\<rparr>) = Inr p'" "J p'" using second [OF p(1) m(2)] by blast
  with m(1) p show "\<exists>s'. main_second second s = Inr s' \<and> (case s' of (p, d, t) \<Rightarrow> J p \<and> 0 \<le> t \<and> t \<le> 71)"
    using t by (auto simp: e main_second_def)
qed (use assms(3,4) in simp)

section \<open>The data server alone\<close>

text \<open>With nothing in the mailbox the server's thread changes nothing, so both loops keep this.\<close>

definition idle_server :: "rh_proc \<Rightarrow> bool" where
  "idle_server p \<longleftrightarrow> loop_ok (dp_mem p) \<and> h_state (box (dp_chan p) EL_KEY_ID) \<noteq> MSG_REQ"

lemma idle_second:
  assumes "os_ok os" and "idle_server p" and "loop_ok m"
  shows "\<exists>p'. (if b then elDbaseProc_rh os else Inr) (p\<lparr>dp_mem := m\<rparr>) = Inr p' \<and> idle_server p'"
  using assms by (simp add: idle_server_def server_idle)

lemma main_start_idle:
  assumes "good_points d1" and "good_cfg d2" and "fits_cfg d2" and "\<And>s. malloc_ok env s" and "os_ok os"
    and "lock_malloc_ok os" and room: "writable (loaded_mem env d1 d2) first_readings" and apart: "rate_apart (loaded_mem env d1 d2)"
  shows "\<exists>srv b. main_start os env (Some d1) (Some d2) p = Inr (srv, b) \<and> idle_server srv"
proof -
  let ?l = "loaded_mem env d1 d2"
  have v: "valid_mem ?l" using valid_loaded [OF assms(1-3)] .
  from main_writes_refine [OF v room] obtain m' where
    w: "main_writes first_readings ?l = Inr m'" "valid_mem m'" "oop_field m' = oop_field ?l"
      "length (mem_cells m') = length (mem_cells ?l)" by blast
  have "loop_ok ?l" using v later_room [OF room] apart by (simp add: loop_ok_def)
  with w have "loop_ok m'" using loop_ok_same by blast
  then have "idle_server (p\<lparr>dp_chan := attached (dp_chan p), dp_mem := m'\<rparr>)"
    by (simp add: idle_server_def attached_def MSG_IDLE_def MSG_REQ_def)
  then show ?thesis using w(1) rh_mem_init_closed [OF assms(1,2,4-6), of p] by (simp add: main_start_def)
qed

section \<open>Properties\<close>

text \<open>
  C8: the data server's program runs for ever: on a configuration the loaders accept, and with nobody
  writing to the mailbox, neither the loop of \<^verbatim>\<open>main\<close> nor the server's thread beside it ever ends or
  faults, so \<^verbatim>\<open>main\<close> does not return.
\<close>

theorem data_server_never_ends:
  assumes "good_points d1" and "good_cfg d2" and "fits_cfg d2" and "\<And>s. malloc_ok env s" and "os_ok os"
    and "lock_malloc_ok os" and "writable (loaded_mem env d1 d2) first_readings" and "rate_apart (loaded_mem env d1 d2)"
  shows "main_rh os env (Some d1) (Some d2) (elDbaseProc_rh os) p = None"
proof -
  obtain srv b where s: "main_start os env (Some d1) (Some d2) p = Inr (srv, b)" "idle_server srv"
    using main_start_idle [OF assms, of p] by blast
  have "forever (main_second (if b then elDbaseProc_rh os else Inr)) (srv, B32 0x40533333, int 0) = None"
    by (rule main_second_loop [where J = idle_server])
      (use s(2) idle_second [OF assms(5)] in \<open>simp_all add: idle_server_def\<close>)
  with s(1) show ?thesis by (simp add: main_rh_def)
qed

theorem data_server_never_ends_witness:
  "main_rh good_os demo_env (Some demo_doc) (Some demo_doc) (elDbaseProc_rh good_os) demo_server = None"
proof -
  let ?m = "loaded_mem demo_env demo_doc demo_doc"
  note f = demo_missing [simplified]
  have s: "span (objects demo_doc) = 12" by code_simp
  have room: "writable ?m first_readings" "rate_apart ?m"
    using demo_loaded(1) f by (simp_all add: writable_def float_room_def first_readings_def rate_apart_def loaded_cells s)
  have m: "malloc_ok demo_env x" for x by (simp add: demo_env_def)
  have "lock_malloc_ok good_os" by (simp add: good_os_def)
  from data_server_never_ends [OF demo_doc m good_os_ok this room] show ?thesis .
qed

end
