(* ===== verification/Spec2Isabelle.thy ===== *)
theory Spec2Isabelle
  imports RhStart ProgramPairs MemIec NetLive ElReport WjLoad EntryPoints
begin

text \<open>
  Verification of the metering gateway: a data server that keeps the measured values of all
  devices in one block of memory, and the applications that read and write it through a mailbox in
  shared memory.

  \<^bold>\<open>The programs.\<close>  \<^verbatim>\<open>src/code\<close> is the data server (\<^verbatim>\<open>rhApp\<close>): \<^verbatim>\<open>mem.c\<close> loads the device index and the
  point tables from XML and serves reads and writes by point number and data identifier (the 698
  view) or by address (the 104 view); \<^verbatim>\<open>elDbase.c\<close> answers requests; \<^verbatim>\<open>rh_msg_channel.c\<close> is the
  mailbox; \<^verbatim>\<open>elCommon.c\<close> holds the scanners and the wire codec.  \<^verbatim>\<open>src/enegy_loss\<close> is the energy-loss
  application (\<^verbatim>\<open>elAPP\<close>): \<^verbatim>\<open>elMeter.c\<close> and \<^verbatim>\<open>elTask.c\<close> read the meters, compute the loss between
  levels of meters and write it back through its own \<^verbatim>\<open>elDbase.c\<close>.  \<^verbatim>\<open>src/client\<close> and \<^verbatim>\<open>src/server\<close>
  are test programs of the channel.  The server and a client share one mailbox of one message; a
  client marks it with a request, the server's thread takes it, frees the mailbox and puts the
  answer, the client polls for it.

  \<^bold>\<open>Conventions.\<close>  A C object is a list of bytes or a record with the members of the struct; a
  pointer into it is an offset.  Every access that C leaves undefined (outside an object, through
  null, past a missing terminator, signed overflow, releasing a mutex that is not held, waiting
  for ever) is a value of \<open>fault\<close>, and a function that can fault returns \<open>fault + result\<close>; all
  definitions are executable.  Integers that wrap are words; a signed \<^verbatim>\<open>int\<close> is \<open>int\<close> with its range
  checked.  A copy of a function in another directory has the suffix \<open>el\<close>, \<open>cl\<close>, \<open>sv\<close> or \<open>rh\<close>, one of
  \<^verbatim>\<open>mem_wj.c\<close> \<open>wj\<close>.

  \<^bold>\<open>Theories and sources.\<close>
  \<^item> \<open>RhPrelude\<close>: faults, sequencing, windows of arrays, the C library routines used.
  \<^item> \<open>ElCommon\<close>, \<open>XdrCodec\<close>: \<^verbatim>\<open>code/elCommon.c\<close>.  Closed forms of the scanners and copies; each
    encoder is inverted by its decoder; what a malformed length does.
  \<^item> \<open>XmlDom\<close>: the document as the loaders see it through libxml2.
  \<^item> \<open>MemTypes\<close>, \<open>MemLoad\<close>, \<open>MemMap\<close>: \<^verbatim>\<open>mem.h\<close>, \<^verbatim>\<open>rh_point_list_load\<close> and \<^verbatim>\<open>rh_mem_map_init\<close>.  \<open>MemInit\<close>,
    \<open>MemPoints\<close>, \<open>MemLayout\<close>: for documents of the expected form the loaders return the tables the
    document describes, the objects tile the data memory and fields of different objects do not
    overlap; the sections' count guard lets one entry too many in.
  \<^item> \<open>MemAccess\<close>: the four access functions.  \<open>MemStore\<close>: the searches are a first-match lookup and
    the 698 accesses a store of fields (locale \<open>data_store\<close>, interpreted on them).  \<open>MemIec\<close>: the
    bisection and the 104 accesses, with the mutexes they leave behind.
  \<^item> \<open>MemWj\<close>: \<^verbatim>\<open>code/mem_wj.c\<close>, an older data memory that keeps the number and the identifier of a point in
    its entry and loads the meters itself (\<^verbatim>\<open>MAX_METER\<close>, which no header there defines, is an argument).
    \<open>WjAccess\<close>: \<open>forget\<close> drops the additional members; the older 698 accesses refine the same reference,
    by locale \<open>link_refinement\<close> interpreted on the two versions, and the older write by address releases
    the device.  \<open>WjLoad\<close>: the tables of both loaders agree, the address search finds the configured
    address, and \<^verbatim>\<open>rh_mem_init\<close> never succeeds.
  \<^item> \<open>MsgTypes\<close>, \<open>MsgChannel\<close>: \<^verbatim>\<open>rh_msg_channel.h\<close> and \<^verbatim>\<open>rh_msg_channel.c\<close>; what other processes do
    during a sleep is an environment.  \<open>MsgProtocol\<close>: for every environment \<^verbatim>\<open>SmMsgSendWait\<close> returns with
    the answer or an error and everything released, unless a message's addressee has no terminator;
    with terminated addressees it does so within 31 sleeps.
  \<^item> \<open>MailboxNet\<close>: \<^verbatim>\<open>SmMsgSendWait\<close>, \<^verbatim>\<open>SmMsgRecv\<close> and \<^verbatim>\<open>SmMsgSendEcho\<close> access by access, for any number of
    clients in any processes and the data server's thread: each check that reads the shared message,
    each copy of it, each store to its state and each operation on a mutex is a step; \<open>reachable\<close> is
    inductive, a schedule a list of actors.  \<open>NetCalls\<close>: the functions of \<open>MsgChannel\<close> and the thread are
    runs of these steps.  \<open>NetSafety\<close>: by an invariant of the reachable states clients of one program
    get only answers to their own requests; clients of different programs can get each other's
    messages and lose requests.  \<open>NetLive\<close>: a client alone is served unless the server is starved.
  \<^item> \<open>RhDbase\<close>, \<open>RhServer\<close>: \<^verbatim>\<open>code/elDbase.c\<close>, one iteration of the server's thread on every kind of
    request.  \<open>SourceCopies\<close>: the functions that other directories repeat word for word.
    \<open>ElDbase\<close>, \<open>ClientServer\<close>: the clients of \<^verbatim>\<open>enegy_loss\<close>, \<^verbatim>\<open>client\<close> and \<^verbatim>\<open>server\<close>.
  \<^item> \<open>DataLink\<close>: the contract of an access path to named fields (locale \<open>data_link\<close>) and the
    reference that only knows where fields lie.  The data memory is such a path by \<open>sublocale\<close>, and
    \<open>EndToEnd\<close> interprets it on the client's calls with the server's thread as environment: a
    refinement through mailbox, codec, server and memory.  \<open>RhStart\<close> adds the start of both
    programs.  \<open>ProgramPairs\<close>: which programs can talk to which.
  \<^item> \<open>Binary32\<close>: IEEE single precision on bit patterns, rounding to nearest even, with the order
    and sign facts the loss computation needs.
  \<^item> \<open>ElMeter\<close>, \<open>ElTask\<close>: \<^verbatim>\<open>elMeter.c\<close> and \<^verbatim>\<open>elTask.c\<close>; the parameter array is the bytes it occupies,
    since the loader stores \<^verbatim>\<open>int\<close>s through pointers to bytes.  \<open>ElEnergy\<close>: the energy accounting;
    \<open>ElLoss\<close>: the searches and the recorded loss; \<open>ElParaLoad\<close>: the loader; \<open>ElService\<close>, \<open>ElMinute\<close>:
    start and one minute of the application beside the server, with the energy it counts.
  \<^item> \<open>RhMain\<close>: \<^verbatim>\<open>code/main.c\<close>, the data server's \<^verbatim>\<open>main\<close> with its loop.  \<open>ElReport\<close>: where the results of
    a minute can be read when the fields do not overlap, minute after minute, and what the loop
    prints.
  \<^item> \<open>EntryPoints\<close>: the four \<^verbatim>\<open>main\<close> functions and their endless loops; the data server's never ends.

  \<^bold>\<open>Bounds.\<close>  No fuel is used: loops are structural recursion or have a measure (the number of
  ticks or table entries left); the endless loops of the mains are a \<^verbatim>\<open>partial_function\<close> whose value
  \<open>None\<close> is proved to mean that every number of iterations runs without a fault.  Sequences of calls are bounded by the room left in the sequence
  number, a signed \<^verbatim>\<open>int\<close>; the transfers by the 128 byte buffers of the handlers.

  \<^bold>\<open>Assumptions.\<close>  Little-endian, 32 bit \<^verbatim>\<open>int\<close>, natural alignment; \<^verbatim>\<open>float\<close> expressions are rounded after
  every operation (\<^verbatim>\<open>FLT_EVAL_METHOD\<close> 0), as on the ARM targets.  What \<^verbatim>\<open>malloc\<close>, \<^verbatim>\<open>shmget\<close>,
  \<^verbatim>\<open>shmat\<close>, \<^verbatim>\<open>shmctl\<close> and \<^verbatim>\<open>pthread_create\<close> answer is a parameter (\<open>alloc_env\<close>, \<open>os_env\<close>).  In the
  refinements through the mailbox a thread runs between the sleeps of the other process: steps of
  different processes interleave at the granularity of one access function or one poll; in
  \<open>MailboxNet\<close> at that of one access to the shared message, where the data server's thread is the only
  one that takes requests.  \<^verbatim>\<open>printf\<close> is
  omitted; what \<^verbatim>\<open>code/main.c\<close> prints is a value of \<open>main_tick\<close>.

  \<^bold>\<open>Not modelled.\<close>  The XML parser and the rest of the vendored libxml2 (a parsed document is the input
  of the loaders), the lines of \<^verbatim>\<open>mem.c\<close> inside \<^verbatim>\<open>#if 0\<close>, and the vendored utilities, binaries and data.
  Preemption inside a \<^verbatim>\<open>memcpy\<close> of the shared message is not modelled.
\<close>

end
